(* ===== verification/Prelude.thy ===== *)
theory Prelude
  imports Main "HOL-Library.Word"
begin

text \<open>
  Shared vocabulary of the development: the machine integer types of the program, Rust's
  \<open>Option\<close>/\<open>Result\<close> combinators (\<open>?\<close>, \<open>ok_or\<close>, \<open>map_err\<close>), the checked and saturating
  integer operations of the standard library, and the facts about them that the component
  theories use.  An \<open>Err e\<close> of the program is \<^term>\<open>Inl e\<close>, an \<open>Ok v\<close> is \<^term>\<open>Inr v\<close>.

  The collection \<open>checked_iff\<close> turns an equation about a checked operation into an equation
  of natural numbers, the form in which the proofs about byte counts and jiffies are done;
  \<open>result_simps\<close> unfolds the combinators on constructors.
\<close>

named_theorems checked_iff \<open>a checked machine operation as an equation on nat\<close>
named_theorems result_simps \<open>equations of the Result and Option combinators\<close>

type_synonym u8 = "8 word"
type_synonym u16 = "16 word"
type_synonym u32 = "32 word"
type_synonym u64 = "64 word"


section \<open>Option and Result\<close>

definition and_then :: "'e + 'a \<Rightarrow> ('a \<Rightarrow> 'e + 'b) \<Rightarrow> 'e + 'b" where
  "and_then r f = (case r of Inl e \<Rightarrow> Inl e | Inr v \<Rightarrow> f v)"

definition ok_or :: "'a option \<Rightarrow> 'e \<Rightarrow> 'e + 'a" where
  "ok_or x e = (case x of None \<Rightarrow> Inl e | Some v \<Rightarrow> Inr v)"

definition map_err :: "('e \<Rightarrow> 'f) \<Rightarrow> 'e + 'a \<Rightarrow> 'f + 'a" where
  "map_err f r = (case r of Inl e \<Rightarrow> Inl (f e) | Inr v \<Rightarrow> Inr v)"

definition map_ok :: "('a \<Rightarrow> 'b) \<Rightarrow> 'e + 'a \<Rightarrow> 'e + 'b" where
  "map_ok f r = (case r of Inl e \<Rightarrow> Inl e | Inr v \<Rightarrow> Inr (f v))"

definition ok :: "'e + 'a \<Rightarrow> 'a option" where
  "ok r = (case r of Inl _ \<Rightarrow> None | Inr v \<Rightarrow> Some v)"

definition or_else :: "'a option \<Rightarrow> 'a option \<Rightarrow> 'a option" where
  "or_else x y = (case x of None \<Rightarrow> y | Some v \<Rightarrow> Some v)"

text \<open>\<open>Result::and\<close>: the first error, or the second result.\<close>

definition and_result :: "'e + unit \<Rightarrow> 'e + 'b \<Rightarrow> 'e + 'b" where
  "and_result r s = (case r of Inl e \<Rightarrow> Inl e | Inr _ \<Rightarrow> s)"

text \<open>A \<open>for\<close> loop whose body may return early with an error (\<open>Iterator::try_fold\<close>).\<close>

fun try_fold :: "('s \<Rightarrow> 'a \<Rightarrow> 'e + 's) \<Rightarrow> 's \<Rightarrow> 'a list \<Rightarrow> 'e + 's" where
  "try_fold f s [] = Inr s"
| "try_fold f s (x # xs) = and_then (f s x) (\<lambda>s'. try_fold f s' xs)"

text \<open>\<open>collect::<Option<Vec<_>>>()\<close>: all results, or nothing when one is missing.\<close>

fun collect_options :: "'a option list \<Rightarrow> 'a list option" where
  "collect_options [] = Some []"
| "collect_options (x # xs) =
     (case x of None \<Rightarrow> None | Some v \<Rightarrow> map_option (Cons v) (collect_options xs))"

text \<open>The \<open>i\<close>-th call of \<open>next()\<close> on an iterator over a list; also \<open>slice::get\<close>.\<close>

definition nth_opt :: "'a list \<Rightarrow> nat \<Rightarrow> 'a option" where
  "nth_opt xs i = (if i < length xs then Some (xs ! i) else None)"

text \<open>\<open>Iterator::find\<close>.\<close>

fun find_first :: "('a \<Rightarrow> bool) \<Rightarrow> 'a list \<Rightarrow> 'a option" where
  "find_first p [] = None"
| "find_first p (x # xs) = (if p x then Some x else find_first p xs)"

text \<open>\<open>Iterator::find_map\<close>.\<close>

fun find_map :: "('a \<Rightarrow> 'b option) \<Rightarrow> 'a list \<Rightarrow> 'b option" where
  "find_map f [] = None"
| "find_map f (x # xs) = (case f x of None \<Rightarrow> find_map f xs | Some y \<Rightarrow> Some y)"


section \<open>Checked and saturating machine integers\<close>

definition checked_add :: "'a::len word \<Rightarrow> 'a word \<Rightarrow> 'a word option" where
  "checked_add a b = (if unat a + unat b < 2 ^ LENGTH('a) then Some (a + b) else None)"

definition checked_sub :: "'a::len word \<Rightarrow> 'a word \<Rightarrow> 'a word option" where
  "checked_sub a b = (if unat b \<le> unat a then Some (a - b) else None)"

definition checked_mul :: "'a::len word \<Rightarrow> 'a word \<Rightarrow> 'a word option" where
  "checked_mul a b = (if unat a * unat b < 2 ^ LENGTH('a) then Some (a * b) else None)"

definition saturating_add :: "'a::len word \<Rightarrow> 'a word \<Rightarrow> 'a word" where
  "saturating_add a b = (case checked_add a b of Some c \<Rightarrow> c | None \<Rightarrow> - 1)"

definition saturating_sub :: "'a::len word \<Rightarrow> 'a word \<Rightarrow> 'a word" where
  "saturating_sub a b = (case checked_sub a b of Some c \<Rightarrow> c | None \<Rightarrow> 0)"

definition saturating_mul :: "'a::len word \<Rightarrow> 'a word \<Rightarrow> 'a word" where
  "saturating_mul a b = (case checked_mul a b of Some c \<Rightarrow> c | None \<Rightarrow> - 1)"


section \<open>Facts about the combinators\<close>

lemma and_then_simps [simp, result_simps]:
  "and_then (Inl e) f = Inl e"
  "and_then (Inr v) f = f v"
  by (simp_all add: and_then_def)

lemma ok_or_simps [simp, result_simps]:
  "ok_or None e = Inl e"
  "ok_or (Some v) e = Inr v"
  by (simp_all add: ok_or_def)

lemma map_err_simps [simp, result_simps]:
  "map_err f (Inl e) = Inl (f e)"
  "map_err f (Inr v) = Inr v"
  by (simp_all add: map_err_def)

lemma map_ok_simps [simp, result_simps]:
  "map_ok g (Inl e) = Inl e"
  "map_ok g (Inr v) = Inr (g v)"
  by (simp_all add: map_ok_def)

lemma ok_simps [simp, result_simps]:
  "ok (Inl e) = None"
  "ok (Inr v) = Some v"
  by (simp_all add: ok_def)

lemma or_else_simps [simp, result_simps]:
  "or_else None y = y"
  "or_else (Some v) y = Some v"
  by (simp_all add: or_else_def)

lemma and_result_simps [simp, result_simps]:
  "and_result (Inl e) s = Inl e"
  "and_result (Inr u) s = s"
  by (simp_all add: and_result_def)

lemma and_then_eq_Inr:
  "and_then r f = Inr w \<longleftrightarrow> (\<exists>v. r = Inr v \<and> f v = Inr w)"
  by (cases r) auto

lemma and_then_eq_Inl:
  "and_then r f = Inl e \<longleftrightarrow> r = Inl e \<or> (\<exists>v. r = Inr v \<and> f v = Inl e)"
  by (cases r) auto

lemma ok_or_eq_Inr: "ok_or x e = Inr v \<longleftrightarrow> x = Some v"
  by (cases x) auto

lemma ok_or_eq_Inl: "ok_or x e = Inl e' \<longleftrightarrow> x = None \<and> e' = e"
  by (cases x) auto

lemma map_err_eq_Inr: "map_err f r = Inr v \<longleftrightarrow> r = Inr v"
  by (cases r) auto

lemma map_ok_eq_Inr: "map_ok g r = Inr w \<longleftrightarrow> (\<exists>v. r = Inr v \<and> w = g v)"
  by (cases r) auto

lemma ok_eq_Some: "ok r = Some v \<longleftrightarrow> r = Inr v"
  by (cases r) auto

lemma or_else_eq_Some: "or_else x y = Some v \<longleftrightarrow> x = Some v \<or> (x = None \<and> y = Some v)"
  by (cases x) auto

lemmas result_iff =
  and_then_eq_Inr ok_or_eq_Inr map_err_eq_Inr map_ok_eq_Inr ok_eq_Some or_else_eq_Some

lemma and_result_eq_Inr: "and_result r s = Inr v \<longleftrightarrow> (\<exists>u. r = Inr u) \<and> s = Inr v"
  by (cases r) auto

lemma collect_options_length: "collect_options xs = Some ys \<Longrightarrow> length ys = length xs"
  by (induction xs arbitrary: ys) (auto split: option.splits)

lemma collect_options_map_Some [simp]: "collect_options (map Some xs) = Some xs"
  by (induction xs) auto

lemma nth_opt_Cons [simp]:
  "nth_opt [] i = None"
  "nth_opt (x # xs) 0 = Some x"
  "nth_opt (x # xs) (Suc i) = nth_opt xs i"
  "nth_opt (x # xs) (numeral n) = nth_opt xs (pred_numeral n)"
  by (simp_all add: nth_opt_def)

lemma find_first_Some_set: "find_first p xs = Some x \<Longrightarrow> x \<in> set xs \<and> p x"
  by (induction xs) (auto split: if_splits)

lemma find_first_None_iff: "find_first p xs = None \<longleftrightarrow> (\<forall>x \<in> set xs. \<not> p x)"
  by (induction xs) auto


section \<open>Facts about the checked operations\<close>

lemma checked_add_iff [checked_iff]:
  "checked_add a b = Some c \<longleftrightarrow> unat a + unat b = unat c"
  for a b c :: "'a::len word"
proof
  assume "checked_add a b = Some c"
  then show "unat a + unat b = unat c"
    by (auto simp: checked_add_def unat_word_ariths split: if_splits)
next
  assume eq: "unat a + unat b = unat c"
  then have "unat a + unat b < 2 ^ LENGTH('a)" by simp
  moreover from this eq have "unat (a + b) = unat c" by (simp add: unat_word_ariths)
  ultimately show "checked_add a b = Some c"
    by (simp add: checked_add_def word_unat_eq_iff)
qed

lemma checked_sub_iff [checked_iff]:
  "checked_sub a b = Some c \<longleftrightarrow> unat a = unat b + unat c"
  for a b c :: "'a::len word"
proof
  assume "checked_sub a b = Some c"
  then show "unat a = unat b + unat c"
    by (auto simp: checked_sub_def unat_sub word_le_nat_alt split: if_splits)
next
  assume eq: "unat a = unat b + unat c"
  then have le: "unat b \<le> unat a" by simp
  then have "unat (a - b) = unat c" using eq by (simp add: unat_sub word_le_nat_alt)
  with le show "checked_sub a b = Some c"
    by (simp add: checked_sub_def word_unat_eq_iff)
qed

lemma checked_mul_iff [checked_iff]:
  "checked_mul a b = Some c \<longleftrightarrow> unat a * unat b = unat c"
  for a b c :: "'a::len word"
proof
  assume "checked_mul a b = Some c"
  then show "unat a * unat b = unat c"
    by (auto simp: checked_mul_def unat_word_ariths split: if_splits)
next
  assume eq: "unat a * unat b = unat c"
  then have "unat a * unat b < 2 ^ LENGTH('a)" by simp
  moreover from this eq have "unat (a * b) = unat c" by (simp add: unat_word_ariths)
  ultimately show "checked_mul a b = Some c"
    by (simp add: checked_mul_def word_unat_eq_iff)
qed

lemma checked_add_None_iff [checked_iff]:
  "checked_add a b = None \<longleftrightarrow> 2 ^ LENGTH('a) \<le> unat a + unat b"
  for a b :: "'a::len word"
  by (auto simp: checked_add_def)

lemma checked_sub_None_iff [checked_iff]:
  "checked_sub a b = None \<longleftrightarrow> unat a < unat b"
  for a b :: "'a::len word"
  by (auto simp: checked_sub_def)

lemma checked_mul_None_iff [checked_iff]:
  "checked_mul a b = None \<longleftrightarrow> 2 ^ LENGTH('a) \<le> unat a * unat b"
  for a b :: "'a::len word"
  by (auto simp: checked_mul_def)

lemma unat_max_word: "unat (- 1 :: 'a::len word) = 2 ^ LENGTH('a) - 1"
  by (simp add: unsigned_minus_1_eq_mask mask_eq_exp_minus_1)

lemma unat_le_max: "unat a \<le> 2 ^ LENGTH('a) - 1" for a :: "'a::len word"
proof -
  have "unat a < 2 ^ LENGTH('a)" by simp
  then show ?thesis by linarith
qed

lemma u64_bound: "unat (w :: u64) < 2 ^ 64"
  using unat_le_max [of w] by simp

lemma u64_of_nat: "k < 2 ^ 64 \<Longrightarrow> unat (of_nat k :: u64) = k"
  by (simp add: unat_of_nat)

lemma u32_bound: "unat (w :: u32) < 2 ^ 32"
  using unat_le_max [of w] by simp

lemma unat_saturating_add:
  "unat (saturating_add a b) = min (unat a + unat b) (2 ^ LENGTH('a) - 1)"
  for a b :: "'a::len word"
proof (cases "checked_add a b")
  case None
  then have "2 ^ LENGTH('a) \<le> unat a + unat b" by (simp add: checked_iff)
  with None show ?thesis by (simp add: saturating_add_def unat_max_word)
next
  case (Some c)
  then have "unat a + unat b = unat c" by (simp add: checked_iff)
  moreover have "unat c \<le> 2 ^ LENGTH('a) - 1" by (rule unat_le_max)
  ultimately show ?thesis using Some by (simp add: saturating_add_def)
qed

lemma unat_saturating_sub: "unat (saturating_sub a b) = unat a - unat b"
  for a b :: "'a::len word"
proof (cases "checked_sub a b")
  case None
  then have "unat a < unat b" by (simp add: checked_iff)
  with None show ?thesis by (simp add: saturating_sub_def)
next
  case (Some c)
  then have "unat a = unat b + unat c" by (simp add: checked_iff)
  with Some show ?thesis by (simp add: saturating_sub_def)
qed

lemma unat_saturating_mul:
  "unat (saturating_mul a b) = min (unat a * unat b) (2 ^ LENGTH('a) - 1)"
  for a b :: "'a::len word"
proof (cases "checked_mul a b")
  case None
  then have "2 ^ LENGTH('a) \<le> unat a * unat b" by (simp add: checked_iff)
  with None show ?thesis by (simp add: saturating_mul_def unat_max_word)
next
  case (Some c)
  then have "unat a * unat b = unat c" by (simp add: checked_iff)
  moreover have "unat c \<le> 2 ^ LENGTH('a) - 1" by (rule unat_le_max)
  ultimately show ?thesis using Some by (simp add: saturating_mul_def)
qed

lemma unat_min_word: "unat (min a b) = min (unat a) (unat b)" for a b :: "'a::len word"
  by (simp add: min_def word_le_nat_alt)

lemma checked_sum_acc:
  "try_fold (\<lambda>acc v. ok_or (checked_add acc v) e) a vs = Inr s \<longleftrightarrow>
     unat a + sum_list (map unat vs) = unat s"
  for a s :: u64
proof (induction vs arbitrary: a)
  case Nil
  then show ?case by (auto simp: word_unat_eq_iff)
next
  case (Cons v vs)
  show ?case
  proof (cases "checked_add a v")
    case None
    then have "2 ^ 64 \<le> unat a + unat v" by (simp add: checked_iff)
    with u64_bound [of s] None show ?thesis by simp
  next
    case (Some b)
    then have "unat a + unat v = unat b" by (simp add: checked_iff)
    with Some Cons.IH [of b] show ?thesis by (simp flip: add.assoc)
  qed
qed

lemma find_map_append: "find_map f (a @ b) = (case find_map f a of None \<Rightarrow> find_map f b | Some y \<Rightarrow> Some y)"
  by (induction a) (auto split: option.splits)

lemma find_map_None: "list_all (\<lambda>x. f x = None) a \<Longrightarrow> find_map f a = None"
  by (induction a) auto


section \<open>Worlds with a log\<close>

text \<open>A call on the world, in a world that carries a log beside it.\<close>

definition lifted :: "('s \<Rightarrow> 'a \<times> 's) \<Rightarrow> 's \<times> 'l \<Rightarrow> 'a \<times> 's \<times> 'l" where
  "lifted f w = (case f (fst w) of (x, s) \<Rightarrow> (x, s, snd w))"

end
