(* ===== verification/Transitions.thy ===== *)
theory Transitions
  imports Prelude
begin

text \<open>
  Labelled transition systems, shared by the state machines of the service: finite runs of a step
  relation, invariants, and the transfer of runs along a simulation.
\<close>

inductive runs :: "('s \<Rightarrow> 'l \<Rightarrow> 's \<Rightarrow> bool) \<Rightarrow> 's \<Rightarrow> 'l list \<Rightarrow> 's \<Rightarrow> bool"
  for step :: "'s \<Rightarrow> 'l \<Rightarrow> 's \<Rightarrow> bool" and s :: 's where
  runs_Nil: "runs step s [] s"
| runs_snoc: "runs step s ls s' \<Longrightarrow> step s' l s'' \<Longrightarrow> runs step s (ls @ [l]) s''"

inductive_cases runs_NilE [elim!]: "runs step s [] s'"
inductive_cases runs_snocE: "runs step s (ls @ [l]) s'"

inductive_simps runs_snoc_iff: "runs step s (ls @ [l]) s'"

lemma runs_append: "runs step s1 b s2 \<Longrightarrow> runs step s0 a s1 \<Longrightarrow> runs step s0 (a @ b) s2"
proof (induction rule: runs.induct)
  case (runs_snoc ls s' l s'')
  then have "runs step s0 ((a @ ls) @ [l]) s''" by (blast intro: runs.runs_snoc)
  then show ?case by simp
qed simp

lemma runs_Nil_iff [simp]: "runs step s [] s' \<longleftrightarrow> s' = s"
  by (auto intro: runs_Nil)

lemma runs_single: "step s l s' \<Longrightarrow> runs step s [l] s'"
  using runs_snoc [OF runs_Nil, of step s l s'] by simp

lemma runs_Cons: "step s l s1 \<Longrightarrow> runs step s1 ls s2 \<Longrightarrow> runs step s (l # ls) s2"
  using runs_append [OF _ runs_single, of step s1 ls s2 s l] by simp

lemma runs_split: "runs step s (a @ b) s' \<Longrightarrow> \<exists>m. runs step s a m \<and> runs step m b s'"
proof (induction b arbitrary: s' rule: rev_induct)
  case Nil
  then show ?case by (auto intro: runs_Nil)
next
  case (snoc l b)
  from snoc.prems have "runs step s ((a @ b) @ [l]) s'" by simp
  then obtain m where "runs step s (a @ b) m" "step m l s'" unfolding runs_snoc_iff by auto
  then show ?case using snoc.IH by (blast intro: runs_snoc)
qed

lemma runs_Cons_iff [simp]: "runs step s (l # ls) s' \<longleftrightarrow> (\<exists>m. step s l m \<and> runs step m ls s')"
proof
  assume "runs step s (l # ls) s'"
  then obtain m where "runs step s [l] m" "runs step m ls s'"
    using runs_split [of step s "[l]" ls s'] by auto
  moreover have "step s l m" using \<open>runs step s [l] m\<close> runs_snoc_iff [of step s "[]" l m] by auto
  ultimately show "\<exists>m. step s l m \<and> runs step m ls s'" by blast
qed (auto intro: runs_Cons)

text \<open>An invariant over the labels seen so far.\<close>

lemma runs_invariant [consumes 1, case_names init step]:
  assumes "runs step s ls s'" "I [] s"
    and "\<And>ls s1 l s2. runs step s ls s1 \<Longrightarrow> I ls s1 \<Longrightarrow> step s1 l s2 \<Longrightarrow> I (ls @ [l]) s2"
  shows "I ls s'"
  using assms(1) by (induction rule: runs.induct) (auto intro: assms(2,3))

text \<open>Forward simulation: a step of the concrete system is a run of the abstract one.\<close>

lemma runs_simulation:
  assumes "\<And>s l s'. cstep s l s' \<Longrightarrow> runs astep (abs s) (lab l) (abs s')"
    and "runs cstep s ls s'"
  shows "runs astep (abs s) (concat (map lab ls)) (abs s')"
  using assms(2)
proof (induction rule: runs.induct)
  case (runs_snoc ls s' l s'')
  then show ?case using runs_append [OF assms(1) [OF runs_snoc.hyps(2)]] by simp
qed (simp add: runs_Nil)

end
