(* ===== verification/Rust_Str.thy ===== *)
theory Rust_Str
  imports Prelude
begin

text \<open>
  The part of Rust's text library that the program calls, from its documented behaviour.
  A \<open>char\<close> is a Unicode scalar value, here its code point (\<^typ>\<open>nat\<close>); a \<open>str\<close> is the list
  of its characters; its bytes (and \<open>len()\<close>, which counts them) are its UTF-8 encoding.
  \<open>lit\<close> reads an ASCII literal of the source.  Whitespace is Unicode \<open>White_Space\<close>, control
  characters are the category \<open>Cc\<close>, \<open>lines()\<close> drops a final line ending and a CR only in
  front of an LF, integers are parsed as \<open>from_str_radix\<close> does (an optional \<open>+\<close>, at least one
  digit, no overflow) and printed as \<open>{}\<close> and \<open>{:x}\<close> do.

  The lemmas are the round trips the component theories rest on: decoding an encoded string,
  parsing a printed number, splitting joined words.
\<close>

type_synonym rchar = nat
type_synonym rstr = "rchar list"

definition lit :: "string \<Rightarrow> rstr" where
  "lit s = map of_char s"

definition is_scalar :: "rchar \<Rightarrow> bool" where
  "is_scalar c \<longleftrightarrow> c < 55296 \<or> (57344 \<le> c \<and> c < 1114112)"

definition valid_str :: "rstr \<Rightarrow> bool" where
  "valid_str s \<longleftrightarrow> list_all is_scalar s"


section \<open>Character classes\<close>

definition is_whitespace :: "rchar \<Rightarrow> bool" where
  "is_whitespace c \<longleftrightarrow>
     (9 \<le> c \<and> c \<le> 13) \<or> c = 32 \<or> c = 133 \<or> c = 160 \<or> c = 5760 \<or> (8192 \<le> c \<and> c \<le> 8202) \<or>
     c = 8232 \<or> c = 8233 \<or> c = 8239 \<or> c = 8287 \<or> c = 12288"

definition is_ascii_whitespace :: "rchar \<Rightarrow> bool" where
  "is_ascii_whitespace c \<longleftrightarrow> c = 9 \<or> c = 10 \<or> c = 12 \<or> c = 13 \<or> c = 32"

definition is_control :: "rchar \<Rightarrow> bool" where
  "is_control c \<longleftrightarrow> c < 32 \<or> (127 \<le> c \<and> c < 160)"

definition is_ascii_digit :: "rchar \<Rightarrow> bool" where
  "is_ascii_digit c \<longleftrightarrow> 48 \<le> c \<and> c \<le> 57"

definition is_ascii_uppercase :: "rchar \<Rightarrow> bool" where
  "is_ascii_uppercase c \<longleftrightarrow> 65 \<le> c \<and> c \<le> 90"

definition is_ascii_lowercase :: "rchar \<Rightarrow> bool" where
  "is_ascii_lowercase c \<longleftrightarrow> 97 \<le> c \<and> c \<le> 122"

definition is_ascii_alphanumeric :: "rchar \<Rightarrow> bool" where
  "is_ascii_alphanumeric c \<longleftrightarrow> is_ascii_digit c \<or> is_ascii_uppercase c \<or> is_ascii_lowercase c"

definition to_ascii_lowercase :: "rchar \<Rightarrow> rchar" where
  "to_ascii_lowercase c = (if is_ascii_uppercase c then c + 32 else c)"


section \<open>UTF-8\<close>

definition utf8_encode_char :: "rchar \<Rightarrow> nat list" where
  "utf8_encode_char c =
     (if c < 128 then [c]
      else if c < 2048 then [192 + c div 64, 128 + c mod 64]
      else if c < 65536 then [224 + c div 4096, 128 + (c div 64) mod 64, 128 + c mod 64]
      else [240 + c div 262144, 128 + (c div 4096) mod 64, 128 + (c div 64) mod 64,
            128 + c mod 64])"

definition str_bytes :: "rstr \<Rightarrow> nat list" where
  "str_bytes s = concat (map utf8_encode_char s)"

definition str_len :: "rstr \<Rightarrow> nat" where
  "str_len s = length (str_bytes s)"

definition utf8_cont :: "nat \<Rightarrow> bool" where
  "utf8_cont b \<longleftrightarrow> 128 \<le> b \<and> b < 192"

text \<open>\<open>str::from_utf8\<close>: overlong forms, surrogates and values past U+10FFFF are errors.\<close>

fun from_utf8 :: "nat list \<Rightarrow> rstr option" where
  "from_utf8 [] = Some []"
| "from_utf8 (b # bs) =
     (if b < 128 then map_option (Cons b) (from_utf8 bs)
      else if b < 194 then None
      else if b < 224 then
        (case bs of
           c1 # r \<Rightarrow>
             (if utf8_cont c1
              then map_option (Cons ((b - 192) * 64 + (c1 - 128))) (from_utf8 r) else None)
         | _ \<Rightarrow> None)
      else if b < 240 then
        (case bs of
           c1 # c2 # r \<Rightarrow>
             (let c = (b - 224) * 4096 + (c1 - 128) * 64 + (c2 - 128) in
              if utf8_cont c1 \<and> utf8_cont c2 \<and> 2048 \<le> c \<and> is_scalar c
              then map_option (Cons c) (from_utf8 r) else None)
         | _ \<Rightarrow> None)
      else
        (case bs of
           c1 # c2 # c3 # r \<Rightarrow>
             (let c = (b - 240) * 262144 + (c1 - 128) * 4096 + (c2 - 128) * 64 + (c3 - 128) in
              if utf8_cont c1 \<and> utf8_cont c2 \<and> utf8_cont c3 \<and> 65536 \<le> c \<and> c < 1114112
              then map_option (Cons c) (from_utf8 r) else None)
         | _ \<Rightarrow> None))"


section \<open>Trimming and splitting\<close>

definition trim_start_matches :: "(rchar \<Rightarrow> bool) \<Rightarrow> rstr \<Rightarrow> rstr" where
  "trim_start_matches p s = dropWhile p s"

definition trim_end_matches :: "(rchar \<Rightarrow> bool) \<Rightarrow> rstr \<Rightarrow> rstr" where
  "trim_end_matches p s = rev (dropWhile p (rev s))"

definition trim_matches :: "(rchar \<Rightarrow> bool) \<Rightarrow> rstr \<Rightarrow> rstr" where
  "trim_matches p s = trim_end_matches p (trim_start_matches p s)"

definition trim :: "rstr \<Rightarrow> rstr" where
  "trim s = trim_matches is_whitespace s"

text \<open>\<open>str::split\<close> with a character predicate: the pieces between the matches.\<close>

fun split_on :: "(rchar \<Rightarrow> bool) \<Rightarrow> rstr \<Rightarrow> rstr list" where
  "split_on p [] = [[]]"
| "split_on p (c # cs) =
     (if p c then [] # split_on p cs
      else (case split_on p cs of [] \<Rightarrow> [[c]] | w # ws \<Rightarrow> (c # w) # ws))"

definition split_whitespace :: "rstr \<Rightarrow> rstr list" where
  "split_whitespace s = filter (\<lambda>w. w \<noteq> []) (split_on is_whitespace s)"

definition split_ascii_whitespace :: "rstr \<Rightarrow> rstr list" where
  "split_ascii_whitespace s = filter (\<lambda>w. w \<noteq> []) (split_on is_ascii_whitespace s)"

definition strip_cr :: "rstr \<Rightarrow> rstr" where
  "strip_cr l = (if l \<noteq> [] \<and> last l = 13 then butlast l else l)"

text \<open>
  \<open>str::lines\<close>: every piece that an LF ends, without that LF and a CR before it, then the
  rest of the text if it is not empty.
\<close>

definition lines :: "rstr \<Rightarrow> rstr list" where
  "lines s =
     (let ps = split_on (\<lambda>c. c = 10) s in
      map strip_cr (butlast ps) @ (if last ps = [] then [] else [last ps]))"

definition split_once :: "rchar \<Rightarrow> rstr \<Rightarrow> (rstr \<times> rstr) option" where
  "split_once c s =
     (if c \<in> set s
      then Some (takeWhile (\<lambda>x. x \<noteq> c) s, tl (dropWhile (\<lambda>x. x \<noteq> c) s)) else None)"

fun strip_prefix :: "rstr \<Rightarrow> rstr \<Rightarrow> rstr option" where
  "strip_prefix [] s = Some s"
| "strip_prefix (p # ps) [] = None"
| "strip_prefix (p # ps) (c # cs) = (if p = c then strip_prefix ps cs else None)"

definition strip_suffix :: "rstr \<Rightarrow> rstr \<Rightarrow> rstr option" where
  "strip_suffix suf s = map_option rev (strip_prefix (rev suf) (rev s))"

definition starts_with :: "rstr \<Rightarrow> rstr \<Rightarrow> bool" where
  "starts_with s pre \<longleftrightarrow> strip_prefix pre s \<noteq> None"

definition ends_with :: "rstr \<Rightarrow> rstr \<Rightarrow> bool" where
  "ends_with s suf \<longleftrightarrow> strip_suffix suf s \<noteq> None"

fun str_contains :: "rstr \<Rightarrow> rstr \<Rightarrow> bool" where
  "str_contains [] pat \<longleftrightarrow> pat = []"
| "str_contains (c # cs) pat \<longleftrightarrow> starts_with (c # cs) pat \<or> str_contains cs pat"

fun str_join :: "rstr \<Rightarrow> rstr list \<Rightarrow> rstr" where
  "str_join sep [] = []"
| "str_join sep [w] = w"
| "str_join sep (w # ws) = w @ sep @ str_join sep ws"


text \<open>The order of strings (that of their UTF-8 bytes) and the entries of a \<open>BTreeMap\<close>.\<close>

fun str_less :: "rstr \<Rightarrow> rstr \<Rightarrow> bool" where
  "str_less s [] = False"
| "str_less [] (d # t) = True"
| "str_less (c # s) (d # t) = (c < d \<or> c = d \<and> str_less s t)"

fun btree_insert :: "rstr \<Rightarrow> 'a \<Rightarrow> (rstr \<times> 'a) list \<Rightarrow> (rstr \<times> 'a) list" where
  "btree_insert k v [] = [(k, v)]"
| "btree_insert k v ((k', v') # es) =
     (if k = k' then (k, v) # es
      else if str_less k k' then (k, v) # (k', v') # es
      else (k', v') # btree_insert k v es)"

definition btree_collect :: "(rstr \<times> 'a) list \<Rightarrow> (rstr \<times> 'a) list" where
  "btree_collect kvs = foldl (\<lambda>m (k, v). btree_insert k v m) [] kvs"


section \<open>Integers as text\<close>

fun nat_digits :: "nat \<Rightarrow> nat \<Rightarrow> nat list" where
  "nat_digits r n = (if r < 2 \<or> n < r then [n] else nat_digits r (n div r) @ [n mod r])"

declare nat_digits.simps [simp del]

definition digit_char :: "nat \<Rightarrow> rchar" where
  "digit_char d = (if d < 10 then 48 + d else 87 + d)"

definition to_radix :: "nat \<Rightarrow> nat \<Rightarrow> rstr" where
  "to_radix r n = map digit_char (nat_digits r n)"

abbreviation show_nat :: "nat \<Rightarrow> rstr" where
  "show_nat n \<equiv> to_radix 10 n"

definition show_int :: "int \<Rightarrow> rstr" where
  "show_int i = (if i < 0 then 45 # show_nat (nat (- i)) else show_nat (nat i))"

definition to_digit :: "nat \<Rightarrow> rchar \<Rightarrow> nat option" where
  "to_digit r c =
     (let d = (if is_ascii_digit c then c - 48
               else if is_ascii_lowercase c then c - 87
               else if is_ascii_uppercase c then c - 55 else 36)
      in if d < r \<and> d < 36 then Some d else None)"

definition digits_value :: "nat \<Rightarrow> nat list \<Rightarrow> nat" where
  "digits_value r ds = foldl (\<lambda>a d. a * r + d) 0 ds"

definition parse_digits :: "nat \<Rightarrow> rstr \<Rightarrow> nat option" where
  "parse_digits r s =
     (if s = [] then None
      else map_option (digits_value r) (collect_options (map (to_digit r) s)))"

text \<open>\<open>uN::from_str_radix\<close>; \<open>str::parse::<uN>\<close> is radix 10.\<close>

definition from_str_radix :: "nat \<Rightarrow> rstr \<Rightarrow> 'a::len word option" where
  "from_str_radix r s =
     (case parse_digits r (case s of c # cs \<Rightarrow> if c = 43 then cs else s | [] \<Rightarrow> []) of
        Some v \<Rightarrow> if v < 2 ^ LENGTH('a) then Some (of_nat v) else None
      | None \<Rightarrow> None)"

text \<open>\<open>str::parse::<i64>\<close>, the value as an integer between \<open>-2^63\<close> and \<open>2^63 - 1\<close>.\<close>

definition parse_i64 :: "rstr \<Rightarrow> int option" where
  "parse_i64 s =
     (case s of
        [] \<Rightarrow> None
      | c # cs \<Rightarrow>
          (if c = 45
           then (case parse_digits 10 cs of
                   Some v \<Rightarrow> if v \<le> 2 ^ 63 then Some (- int v) else None
                 | None \<Rightarrow> None)
           else (case parse_digits 10 (if c = 43 then cs else s) of
                   Some v \<Rightarrow> if v < 2 ^ 63 then Some (int v) else None
                 | None \<Rightarrow> None)))"


section \<open>Facts: literals and classes\<close>

text \<open>
  The simplifier keeps literals folded; the collection \<open>str_eval\<close> unfolds them and the text
  operations, and is used to evaluate concrete inputs.
\<close>

named_theorems str_eval \<open>equations that evaluate text operations on literals\<close>

lemma lit_Nil [simp]: "lit [] = []"
  by (simp add: lit_def)

lemma lit_Cons [str_eval]: "lit (c # cs) = of_char c # lit cs"
  by (simp add: lit_def)

lemma lit_eq_Nil_iff [simp]: "lit s = [] \<longleftrightarrow> s = []"
  by (simp add: lit_def)

lemma lit_append [simp]: "lit (s @ t) = lit s @ lit t"
  by (simp add: lit_def)

lemma lit_inject [simp]: "lit s = lit t \<longleftrightarrow> s = t"
  unfolding lit_def by (rule inj_map_eq_map) (simp add: inj_def)

lemmas text_defs [str_eval] =
  is_whitespace_def is_ascii_whitespace_def is_control_def is_ascii_digit_def
  is_ascii_uppercase_def is_ascii_lowercase_def is_ascii_alphanumeric_def
  to_ascii_lowercase_def utf8_encode_char_def str_bytes_def str_len_def utf8_cont_def
  is_scalar_def trim_start_matches_def trim_end_matches_def trim_matches_def trim_def
  split_whitespace_def split_ascii_whitespace_def strip_cr_def lines_def split_once_def
  strip_suffix_def starts_with_def ends_with_def digit_char_def to_radix_def to_digit_def
  digits_value_def parse_digits_def from_str_radix_def parse_i64_def Let_def

lemma valid_str_simps [simp]:
  "valid_str []"
  "valid_str (c # s) \<longleftrightarrow> is_scalar c \<and> valid_str s"
  "valid_str (s @ t) \<longleftrightarrow> valid_str s \<and> valid_str t"
  by (simp_all add: valid_str_def)


lemma is_whitespace_numeral [simp]:
  "is_whitespace (numeral n) \<longleftrightarrow>
     (9 \<le> (numeral n :: nat) \<and> (numeral n :: nat) \<le> 13) \<or>
     (numeral n :: nat) \<in> {32, 133, 160, 5760, 8232, 8233, 8239, 8287, 12288} \<or>
     (8192 \<le> (numeral n :: nat) \<and> (numeral n :: nat) \<le> 8202)"
  unfolding is_whitespace_def by auto


section \<open>Facts: UTF-8\<close>

lemma str_bytes_simps [simp]:
  "str_bytes [] = []"
  "str_bytes (c # s) = utf8_encode_char c @ str_bytes s"
  "str_bytes (s @ t) = str_bytes s @ str_bytes t"
  by (simp_all add: str_bytes_def)

lemma str_len_append [simp]: "str_len (s @ t) = str_len s + str_len t"
  by (simp add: str_len_def)

lemma base64_digits3: "c div 4096 * 4096 + (c div 64) mod 64 * 64 + c mod 64 = (c::nat)"
proof -
  have "c div 4096 = c div 64 div 64" by (simp flip: div_mult2_eq)
  moreover have "c div 64 div 64 * 64 + (c div 64) mod 64 = c div 64"
    and "c div 64 * 64 + c mod 64 = c" by simp_all
  ultimately show ?thesis by linarith
qed

lemma base64_digits4:
  "c div 262144 * 262144 + (c div 4096) mod 64 * 4096 + (c div 64) mod 64 * 64 + c mod 64
    = (c::nat)"
proof -
  have "c div 262144 = c div 4096 div 64" by (simp flip: div_mult2_eq)
  moreover have "c div 4096 div 64 * 64 + (c div 4096) mod 64 = c div 4096" by simp
  ultimately show ?thesis using base64_digits3 [of c] by linarith
qed

lemma from_utf8_encode_char:
  assumes "is_scalar c"
  shows "from_utf8 (utf8_encode_char c @ bs) = map_option (Cons c) (from_utf8 bs)"
proof -
  consider "c < 128" | "128 \<le> c" "c < 2048" | "2048 \<le> c" "c < 65536" | "65536 \<le> c"
    by linarith
  then show ?thesis
  proof cases
    case 1
    then show ?thesis by (simp add: utf8_encode_char_def)
  next
    case 2
    then have "2 \<le> c div 64" "c div 64 < 32" by auto
    with 2 show ?thesis by (simp add: utf8_encode_char_def utf8_cont_def)
  next
    case 3
    then have hi: "c div 4096 < 16" by auto
    show ?thesis using 3 hi base64_digits3 [of c] assms
      by (simp add: utf8_encode_char_def utf8_cont_def Let_def)
  next
    case 4
    then have lt: "c < 1114112" using assms by (simp add: is_scalar_def)
    then have hi: "c div 262144 < 5" by auto
    show ?thesis using 4 lt hi base64_digits4 [of c]
      by (simp add: utf8_encode_char_def utf8_cont_def Let_def)
  qed
qed

lemma from_utf8_str_bytes: "valid_str s \<Longrightarrow> from_utf8 (str_bytes s) = Some s"
  by (induction s) (simp_all add: from_utf8_encode_char del: from_utf8.simps(2))

lemma utf8_encode_char_ne: "utf8_encode_char c \<noteq> []"
  by (simp add: utf8_encode_char_def)

lemma length_le_str_len: "length s \<le> str_len s"
proof (induction s)
  case (Cons c s)
  have "1 \<le> length (utf8_encode_char c)" by (simp add: utf8_encode_char_def)
  with Cons show ?case by (simp add: str_len_def)
qed simp

lemma str_len_ascii: "list_all (\<lambda>c. c < 128) s \<Longrightarrow> str_len s = length s"
  by (induction s) (simp_all add: str_len_def utf8_encode_char_def)

lemma str_bytes_ascii: "list_all (\<lambda>c. c < 128) s \<Longrightarrow> str_bytes s = s"
  by (induction s) (simp_all add: utf8_encode_char_def)


section \<open>Facts: prefixes, suffixes, substrings\<close>

lemma strip_prefix_iff: "strip_prefix p s = Some t \<longleftrightarrow> s = p @ t"
  by (induction p s rule: strip_prefix.induct) auto

lemma strip_suffix_iff: "strip_suffix p s = Some t \<longleftrightarrow> s = t @ p"
proof -
  have "strip_suffix p s = Some t \<longleftrightarrow> strip_prefix (rev p) (rev s) = Some (rev t)"
    by (auto simp: strip_suffix_def)
  also have "\<dots> \<longleftrightarrow> s = t @ p"
    by (metis rev_append rev_rev_ident strip_prefix_iff)
  finally show ?thesis .
qed

lemma strip_prefix_append [simp]: "strip_prefix p (p @ t) = Some t"
  by (simp add: strip_prefix_iff)

lemma strip_suffix_append [simp]: "strip_suffix p (t @ p) = Some t"
  by (simp add: strip_suffix_iff)

lemma starts_with_iff: "starts_with s p \<longleftrightarrow> (\<exists>t. s = p @ t)"
  by (auto simp: starts_with_def strip_prefix_iff)

lemma ends_with_iff: "ends_with s p \<longleftrightarrow> (\<exists>t. s = t @ p)"
  by (auto simp: ends_with_def strip_suffix_iff)

lemma str_contains_iff: "str_contains s p \<longleftrightarrow> (\<exists>a b. s = a @ p @ b)"
proof (induction s)
  case (Cons c s)
  show ?case
  proof
    assume "str_contains (c # s) p"
    then consider t where "c # s = p @ t" | a b where "s = a @ p @ b"
      using Cons by (auto simp: starts_with_iff)
    then show "\<exists>a b. c # s = a @ p @ b"
    proof cases
      case 1
      then show ?thesis by (intro exI [of _ "[]"] exI [of _ t]) simp
    next
      case 2
      then show ?thesis by (intro exI [of _ "c # a"] exI [of _ b]) simp
    qed
  next
    assume "\<exists>a b. c # s = a @ p @ b"
    then obtain a b where eq: "c # s = a @ p @ b" by blast
    show "str_contains (c # s) p"
    proof (cases a)
      case Nil
      with eq have "starts_with (c # s) p" unfolding starts_with_iff by auto
      then show ?thesis by simp
    next
      case (Cons a' as)
      with eq have "s = as @ p @ b" by simp
      then show ?thesis using Cons.IH by auto
    qed
  qed
qed auto

lemma split_once_iff: "split_once c s = Some (a, b) \<longleftrightarrow> s = a @ c # b \<and> c \<notin> set a"
proof
  assume h: "split_once c s = Some (a, b)"
  then have mem: "c \<in> set s" and a: "a = takeWhile (\<lambda>x. x \<noteq> c) s"
    and b: "b = tl (dropWhile (\<lambda>x. x \<noteq> c) s)"
    by (auto simp: split_once_def split: if_splits)
  from mem have ne: "dropWhile (\<lambda>x. x \<noteq> c) s \<noteq> []" by simp
  have "hd (dropWhile (\<lambda>x. x \<noteq> c) s) = c"
    using hd_dropWhile [OF ne] by blast
  then have drop: "dropWhile (\<lambda>x. x \<noteq> c) s = c # b"
    using b list.collapse [OF ne] by simp
  have "c \<notin> set a" unfolding a by (auto dest: set_takeWhileD)
  moreover have "s = a @ c # b"
    unfolding a using takeWhile_dropWhile_id [of "\<lambda>x. x \<noteq> c" s] drop by simp
  ultimately show "s = a @ c # b \<and> c \<notin> set a" by blast
next
  assume h: "s = a @ c # b \<and> c \<notin> set a"
  then have "\<forall>x \<in> set a. x \<noteq> c" by auto
  then have "takeWhile (\<lambda>x. x \<noteq> c) (a @ c # b) = a"
    and "dropWhile (\<lambda>x. x \<noteq> c) (a @ c # b) = c # b"
    by (simp_all add: takeWhile_append2 dropWhile_append2)
  with h show "split_once c s = Some (a, b)" by (simp add: split_once_def)
qed

lemma split_once_append: "c \<notin> set a \<Longrightarrow> split_once c (a @ c # b) = Some (a, b)"
  by (simp add: split_once_iff)

lemma split_once_None_iff: "split_once c s = None \<longleftrightarrow> c \<notin> set s"
  by (simp add: split_once_def)


section \<open>Facts: trimming\<close>

lemma trim_end_matches_id: "s = [] \<or> \<not> p (last s) \<Longrightarrow> trim_end_matches p s = s"
  by (cases s rule: rev_cases) (auto simp: trim_end_matches_def)

lemma trim_id:
  assumes "s = [] \<or> \<not> is_whitespace (hd s) \<and> \<not> is_whitespace (last s)"
  shows "trim s = s"
proof -
  have "trim_start_matches is_whitespace s = s"
    using assms by (cases s) (auto simp: trim_start_matches_def)
  then show ?thesis
    using assms by (auto simp: trim_def trim_matches_def trim_end_matches_id)
qed

lemma trim_snoc:
  assumes "is_whitespace c"
  shows "trim (s @ [c]) = trim s"
proof (cases "\<forall>x \<in> set s. is_whitespace x")
  case True
  then have "dropWhile is_whitespace (s @ [c]) = []" "dropWhile is_whitespace s = []"
    unfolding dropWhile_eq_Nil_conv using assms by auto
  then show ?thesis
    unfolding trim_def trim_matches_def trim_start_matches_def by (simp only:)
next
  case False
  then have "dropWhile is_whitespace (s @ [c]) = dropWhile is_whitespace s @ [c]"
    by (auto simp: dropWhile_append)
  then show ?thesis
    using assms by (simp add: trim_def trim_matches_def trim_start_matches_def trim_end_matches_def)
qed

lemma trim_end_matches_last:
  "trim_end_matches p s \<noteq> [] \<Longrightarrow> \<not> p (last (trim_end_matches p s))"
proof (induction s rule: rev_induct)
  case (snoc c s)
  then show ?case by (cases "p c") (auto simp: trim_end_matches_def)
qed (simp add: trim_end_matches_def)

lemma trim_end_matches_hd:
  "trim_end_matches p s \<noteq> [] \<Longrightarrow> hd (trim_end_matches p s) = hd s"
proof (induction s rule: rev_induct)
  case (snoc c s)
  show ?case
  proof (cases "p c")
    case True
    then have eq: "trim_end_matches p (s @ [c]) = trim_end_matches p s"
      by (simp add: trim_end_matches_def)
    with snoc have "hd (trim_end_matches p s) = hd s" by simp
    moreover from snoc.prems eq have "s \<noteq> []" by (auto simp: trim_end_matches_def)
    ultimately show ?thesis using eq by (simp add: hd_append)
  qed (simp add: trim_end_matches_def)
qed (simp add: trim_end_matches_def)

lemma trim_ends:
  assumes "trim s \<noteq> []"
  shows "\<not> is_whitespace (hd (trim s))" and "\<not> is_whitespace (last (trim s))"
proof -
  let ?t = "trim_start_matches is_whitespace s"
  have ne: "trim_end_matches is_whitespace ?t \<noteq> []"
    using assms by (simp add: trim_def trim_matches_def)
  then have hd: "hd (trim s) = hd ?t"
    by (simp add: trim_def trim_matches_def trim_end_matches_hd)
  have "?t \<noteq> []" using ne by (auto simp: trim_end_matches_def)
  then have "\<not> is_whitespace (hd ?t)"
    unfolding trim_start_matches_def by (metis hd_dropWhile)
  with hd show "\<not> is_whitespace (hd (trim s))" by simp
  from ne show "\<not> is_whitespace (last (trim s))"
    by (simp add: trim_def trim_matches_def trim_end_matches_last)
qed

lemma trim_trim [simp]: "trim (trim s) = trim s"
proof (cases "trim s = []")
  case True
  then show ?thesis by (simp add: trim_id)
next
  case False
  then show ?thesis using trim_ends [OF False] by (intro trim_id) simp
qed

lemma trim_eq_id_iff:
  "trim s = s \<longleftrightarrow> s = [] \<or> \<not> is_whitespace (hd s) \<and> \<not> is_whitespace (last s)"
  using trim_id trim_ends by metis


section \<open>Facts: splitting\<close>

lemma split_on_ne [simp]: "split_on p s \<noteq> []"
  by (cases s) (auto split: list.split)

lemma split_on_sep: "p c \<Longrightarrow> split_on p (s @ c # t) = split_on p s @ split_on p t"
proof (induction s)
  case (Cons a s)
  then show ?case by (cases "split_on p s") auto
qed simp

lemma split_on_none: "list_all (\<lambda>c. \<not> p c) w \<Longrightarrow> split_on p w = [w]"
  by (induction w) auto

lemma split_on_pieces: "w \<in> set (split_on p s) \<Longrightarrow> list_all (\<lambda>c. \<not> p c) w"
proof (induction s arbitrary: w)
  case (Cons a s)
  then show ?case
    by (cases "split_on p s") (auto split: if_splits)
qed simp

definition is_word :: "rstr \<Rightarrow> bool" where
  "is_word w \<longleftrightarrow> w \<noteq> [] \<and> list_all (\<lambda>c. \<not> is_whitespace c) w"

lemma trim_word: "is_word w \<Longrightarrow> trim w = w"
  by (intro trim_id) (auto simp: is_word_def list_all_iff)

lemma split_whitespace_words: "w \<in> set (split_whitespace s) \<Longrightarrow> is_word w"
  by (auto simp: split_whitespace_def is_word_def dest: split_on_pieces)

lemma split_whitespace_Nil [simp]: "split_whitespace [] = []"
  by (simp add: split_whitespace_def)

lemma split_whitespace_single: "is_word w \<Longrightarrow> split_whitespace w = [w]"
  by (simp add: is_word_def split_whitespace_def split_on_none)

lemma split_whitespace_append:
  "is_whitespace c \<Longrightarrow> split_whitespace (s @ c # t) = split_whitespace s @ split_whitespace t"
  by (simp add: split_whitespace_def split_on_sep)

lemma split_whitespace_skip: "is_whitespace c \<Longrightarrow> split_whitespace (c # s) = split_whitespace s"
  by (simp add: split_whitespace_def)

lemma split_whitespace_join:
  "list_all is_word ws \<Longrightarrow> split_whitespace (str_join [32] ws) = ws"
  by (induction "[32 :: rchar]" ws rule: str_join.induct)
    (auto simp: split_whitespace_single split_whitespace_append)

lemma set_str_join: "set (str_join sep ws) \<subseteq> set sep \<union> (\<Union>w \<in> set ws. set w)"
  by (induction sep ws rule: str_join.induct) auto

lemma join_words_no_break:
  assumes "list_all is_word ws"
  shows "10 \<notin> set (str_join [32] ws)" and "13 \<notin> set (str_join [32] ws)"
proof -
  have "c \<in> set (str_join [32] ws) \<Longrightarrow> c = 32 \<or> \<not> is_whitespace c" for c
    using set_str_join [of "[32]" ws] assms by (auto simp: is_word_def list_all_iff)
  from this [of 10] this [of 13] show "10 \<notin> set (str_join [32] ws)" "13 \<notin> set (str_join [32] ws)"
    by auto
qed

lemma strip_cr_id: "13 \<notin> set l \<Longrightarrow> strip_cr l = l"
  by (cases l rule: rev_cases) (auto simp: strip_cr_def)

lemma lines_Nil [simp]: "lines [] = []"
  by (simp add: lines_def)

lemma lines_Cons_LF:
  assumes "10 \<notin> set l"
  shows "lines (l @ 10 # t) = strip_cr l # lines t"
proof -
  have "split_on (\<lambda>c. c = 10) l = [l]"
    using assms by (intro split_on_none) (auto simp: list_all_iff)
  then show ?thesis by (simp add: lines_def split_on_sep Let_def)
qed

lemma lines_single: "10 \<notin> set l \<Longrightarrow> lines l = (if l = [] then [] else [l])"
proof -
  assume "10 \<notin> set l"
  then have "split_on (\<lambda>c. c = 10) l = [l]"
    by (intro split_on_none) (auto simp: list_all_iff)
  then show ?thesis by (simp add: lines_def)
qed


section \<open>Facts: integers as text\<close>

lemma nat_digits_bound: "2 \<le> r \<Longrightarrow> d \<in> set (nat_digits r n) \<Longrightarrow> d < r"
proof (induction r n rule: nat_digits.induct)
  case (1 r n)
  then show ?case
    by (subst (asm) (2) nat_digits.simps) (auto split: if_splits)
qed

lemma nat_digits_numeral [str_eval]:
  "nat_digits q 0 = [0]"
  "nat_digits q (Suc 0) = [1]"
  "nat_digits (numeral r) (numeral n) =
     (if (numeral r :: nat) < 2 \<or> (numeral n :: nat) < numeral r then [numeral n]
      else nat_digits (numeral r) (numeral n div numeral r) @ [numeral n mod numeral r])"
  by (auto simp: nat_digits.simps [of q 0] nat_digits.simps [of q "Suc 0"]
      nat_digits.simps [of "numeral r" "numeral n"])

lemma nat_digits_ne: "nat_digits r n \<noteq> []"
  by (subst nat_digits.simps) simp

lemma digits_value_nat_digits: "2 \<le> r \<Longrightarrow> digits_value r (nat_digits r n) = n"
proof (induction r n rule: nat_digits.induct)
  case (1 r n)
  then show ?case
    by (cases "n < r"; subst nat_digits.simps) (auto simp: digits_value_def)
qed

lemma to_digit_digit_char: "d < r \<Longrightarrow> r \<le> 36 \<Longrightarrow> to_digit r (digit_char d) = Some d"
  by (auto simp: to_digit_def digit_char_def is_ascii_digit_def is_ascii_lowercase_def Let_def)

lemma parse_digits_to_radix:
  assumes "2 \<le> r" "r \<le> 36"
  shows "parse_digits r (to_radix r n) = Some n"
proof -
  have "map (to_digit r) (to_radix r n) = map Some (nat_digits r n)"
    unfolding to_radix_def map_map
    using assms by (intro map_cong) (auto simp: to_digit_digit_char nat_digits_bound)
  then have "collect_options (map (to_digit r) (to_radix r n)) = Some (nat_digits r n)"
    by (simp only: collect_options_map_Some)
  moreover have "to_radix r n \<noteq> []" by (simp add: to_radix_def nat_digits_ne)
  ultimately show ?thesis
    using assms by (simp add: parse_digits_def digits_value_nat_digits)
qed

lemma to_radix_chars: "c \<in> set (to_radix r n) \<Longrightarrow> 48 \<le> c"
  by (auto simp: to_radix_def digit_char_def)

lemma to_radix_ne [simp]: "to_radix r n \<noteq> []"
  by (simp add: to_radix_def nat_digits_ne)

lemma to_radix_no_plus:
  "(case to_radix r n of c # cs \<Rightarrow> if c = 43 then cs else to_radix r n | [] \<Rightarrow> []) = to_radix r n"
proof (cases "to_radix r n")
  case (Cons c cs)
  then have "48 \<le> c" using to_radix_chars [of c r n] by simp
  with Cons show ?thesis by simp
qed simp

lemma from_str_radix_to_radix:
  assumes "2 \<le> r" "r \<le> 36"
  shows "from_str_radix r (to_radix r (unat w)) = Some w"
  using assms by (simp add: from_str_radix_def to_radix_no_plus parse_digits_to_radix)

lemma to_radix_alphanumeric:
  assumes "2 \<le> r" "r \<le> 36" "c \<in> set (to_radix r n)"
  shows "is_ascii_alphanumeric c"
proof -
  obtain d where d: "d \<in> set (nat_digits r n)" and c: "c = digit_char d"
    using assms(3) by (auto simp: to_radix_def)
  have "d < 36" using nat_digits_bound [OF assms(1) d] assms(2) by simp
  then show ?thesis
    using c by (auto simp: digit_char_def is_ascii_alphanumeric_def is_ascii_digit_def
        is_ascii_lowercase_def)
qed

lemma alphanumeric_facts:
  assumes "is_ascii_alphanumeric c"
  shows "\<not> is_whitespace c" and "c < 128" and "is_scalar c"
  using assms
  by (auto simp: is_ascii_alphanumeric_def is_ascii_digit_def is_ascii_uppercase_def
      is_ascii_lowercase_def is_whitespace_def is_scalar_def)

lemma last_to_radix: "2 \<le> r \<Longrightarrow> r \<le> 36 \<Longrightarrow> \<not> is_whitespace (last (to_radix r n))"
  using to_radix_alphanumeric [of r "last (to_radix r n)" n] alphanumeric_facts(1) by simp

lemma is_word_to_radix: "2 \<le> r \<Longrightarrow> r \<le> 36 \<Longrightarrow> is_word (to_radix r n)"
  by (auto simp: is_word_def list_all_iff dest: to_radix_alphanumeric alphanumeric_facts(1))


lemma hd_to_radix: "48 \<le> hd (to_radix r n)"
  using to_radix_chars [of "hd (to_radix r n)" r n] by simp

lemma parse_i64_show_int:
  assumes "- (2 ^ 63) \<le> i" "i < 2 ^ 63"
  shows "parse_i64 (show_int i) = Some i"
proof (cases "i < 0")
  case True
  then have "nat (- i) \<le> 2 ^ 63" using assms(1) by simp
  with True show ?thesis by (simp add: show_int_def parse_i64_def parse_digits_to_radix)
next
  case False
  obtain c cs where c: "show_nat (nat i) = c # cs" by (cases "show_nat (nat i)") simp_all
  then have "48 \<le> c" using hd_to_radix [of 10 "nat i"] by simp
  moreover have "nat i < 2 ^ 63" using False assms(2) by simp
  ultimately show ?thesis
    using False c parse_digits_to_radix [of 10 "nat i"]
    by (simp add: show_int_def parse_i64_def)
qed

lemma is_word_show_int: "is_word (show_int i)"
  using is_word_to_radix [of 10 "nat (- i)"] is_word_to_radix [of 10 "nat i"]
  by (auto simp: show_int_def is_word_def)



section \<open>Facts: ordered maps\<close>

lemma str_less_irrefl [simp]: "\<not> str_less s s"
  by (induction s) auto

lemma str_less_trans: "str_less a b \<Longrightarrow> str_less b c \<Longrightarrow> str_less a c"
proof (induction a b arbitrary: c rule: str_less.induct)
  case (3 x s y t)
  then show ?case by (cases c) auto
next
  case (2 d t)
  then show ?case by (cases c) auto
qed simp

lemma str_less_total: "a \<noteq> b \<Longrightarrow> str_less a b \<or> str_less b a"
  by (induction a b rule: str_less.induct) (auto simp: neq_Nil_conv)

lemma map_of_btree_insert: "map_of (btree_insert k v es) = (map_of es)(k \<mapsto> v)"
  by (induction k v es rule: btree_insert.induct) auto

lemma fst_btree_insert: "fst ` set (btree_insert k v es) = insert k (fst ` set es)"
  by (induction k v es rule: btree_insert.induct) auto

lemma sorted_btree_insert:
  "sorted_wrt str_less (map fst es) \<Longrightarrow> sorted_wrt str_less (map fst (btree_insert k v es))"
proof (induction k v es rule: btree_insert.induct)
  case (2 k v k' v' es)
  consider "k = k'" | "k \<noteq> k'" "str_less k k'" | "k \<noteq> k'" "\<not> str_less k k'" by blast
  then show ?case
  proof cases
    case 2
    with \<open>sorted_wrt str_less (map fst ((k', v') # es))\<close> show ?thesis
      using str_less_trans [of k k'] by auto
  next
    case 3
    then have "str_less k' k" using str_less_total by blast
    moreover have "x \<in> fst ` set es \<Longrightarrow> str_less k' x" for x
      using 2 by auto
    ultimately have "\<forall>x \<in> fst ` set (btree_insert k v es). str_less k' x"
      unfolding fst_btree_insert by blast
    then show ?thesis using 3 2 by auto
  qed (use 2 in auto)
qed simp

lemma btree_collect_snoc: "btree_collect (kvs @ [(k, v)]) = btree_insert k v (btree_collect kvs)"
  by (simp add: btree_collect_def)

lemma map_of_btree_collect: "map_of (btree_collect kvs) = map_of (rev kvs)"
  by (induction kvs rule: rev_induct)
    (auto simp: btree_collect_snoc map_of_btree_insert btree_collect_def)

lemma sorted_btree_collect: "sorted_wrt str_less (map fst (btree_collect kvs))"
proof (induction kvs rule: rev_induct)
  case (snoc e kvs)
  then show ?case by (cases e) (simp add: btree_collect_snoc sorted_btree_insert)
qed (simp add: btree_collect_def)

lemma distinct_btree_collect: "distinct (map fst (btree_collect kvs))"
proof -
  have "sorted_wrt str_less ks \<Longrightarrow> distinct ks" for ks
    by (induction ks) auto
  then show ?thesis using sorted_btree_collect by blast
qed


section \<open>Facts: lines and numbers of a file\<close>

lemma lines_terminated:
  "list_all (\<lambda>l. 10 \<notin> set l \<and> 13 \<notin> set l) ls \<Longrightarrow>
     lines (concat (map (\<lambda>l. l @ [10]) ls) @ rest) = ls @ lines rest"
  by (induction ls) (auto simp: lines_Cons_LF strip_cr_id)

definition ascii_word :: "rstr \<Rightarrow> bool" where
  "ascii_word w \<longleftrightarrow> w \<noteq> [] \<and> list_all (\<lambda>c. \<not> is_ascii_whitespace c) w"

lemma split_ascii_words:
  assumes "list_all ascii_word ws"
  shows "split_ascii_whitespace (concat (map (\<lambda>w. 9 # w) ws)) = ws"
    and "split_ascii_whitespace (concat (map (\<lambda>w. w @ [32]) ws)) = ws"
proof -
  have blank: "is_ascii_whitespace 9" "is_ascii_whitespace 32"
    by (simp_all add: is_ascii_whitespace_def)
  have word: "split_on is_ascii_whitespace w = [w]" if "ascii_word w" for w
    using that by (simp add: ascii_word_def split_on_none)
  have "filter (\<lambda>w. w \<noteq> []) (split_on is_ascii_whitespace (v @ concat (map (\<lambda>w. 9 # w) ws))) =
      (if v = [] then ws else v # ws)" if "list_all (\<lambda>c. \<not> is_ascii_whitespace c) v" for v
    using assms that
  proof (induction ws arbitrary: v)
    case (Cons w ws)
    have "split_on is_ascii_whitespace v = [v]" using Cons.prems by (simp add: split_on_none)
    then show ?case using Cons by (simp add: split_on_sep blank ascii_word_def)
  qed (simp add: split_on_none)
  from this [of "[]"] show "split_ascii_whitespace (concat (map (\<lambda>w. 9 # w) ws)) = ws"
    by (simp add: split_ascii_whitespace_def)
  show "split_ascii_whitespace (concat (map (\<lambda>w. w @ [32]) ws)) = ws"
    using assms
    by (induction ws) (auto simp: split_ascii_whitespace_def split_on_sep blank word ascii_word_def)
qed

lemma to_radix_digits: "c \<in> set (show_nat n) \<Longrightarrow> 48 \<le> c \<and> c \<le> 57"
  using nat_digits_bound [of 10 _ n] by (fastforce simp: to_radix_def digit_char_def)

lemma to_radix_inj: "show_nat m = show_nat n \<Longrightarrow> m = n"
proof -
  assume "show_nat m = show_nat n"
  then have "parse_digits 10 (show_nat m) = parse_digits 10 (show_nat n)" by (rule arg_cong)
  then show "m = n" by (simp add: parse_digits_to_radix)
qed

lemma nat_digits_length: "n < 10 ^ k \<Longrightarrow> 0 < k \<Longrightarrow> length (nat_digits 10 n) \<le> k"
proof (induction k arbitrary: n)
  case (Suc k)
  show ?case
  proof (cases "n < 10")
    case True
    then show ?thesis by (subst nat_digits.simps) simp
  next
    case False
    then have "n div 10 < 10 ^ k" using Suc.prems by (simp add: less_mult_imp_div_less mult.commute)
    moreover have "0 < k" using False Suc.prems by (cases k) auto
    ultimately show ?thesis using Suc.IH [of "n div 10"] False by (subst nat_digits.simps) simp
  qed
qed simp

lemma ascii_word_show: "ascii_word (show_nat n)"
proof -
  have "48 \<le> c" if "c \<in> set (show_nat n)" for c by (rule to_radix_chars [OF that])
  then show ?thesis by (fastforce simp: ascii_word_def list_all_iff is_ascii_whitespace_def)
qed

end
