(* ===== verification/F64.thy ===== *)
theory F64
  imports Complex_Main Rust_Str
begin

text \<open>
  The type \<open>f64\<close>, IEEE 754 binary64 with rounding to nearest, ties to even, as the program
  uses it: conversions from integers, decimal text and back to integers and durations,
  \<open>+\<close>, \<open>*\<close>, \<open>/\<close>, comparisons, \<open>round\<close>, \<open>trunc\<close>, \<open>clamp\<close>, \<open>powi\<close>.  A finite value is a sign
  and a rational magnitude; every operation computes the exact rational result and then
  rounds it (\<open>fl\<close>), so all definitions evaluate on concrete inputs.  The payload and sign of a
  NaN are not modelled: no operation of the program reads them.

  \<open>fl\<close> rounds a non-negative rational to 53 significant bits, or to a multiple of
  \<open>2^-1074\<close> below the normal range; magnitudes that reach \<open>2^1024\<close> become infinite.  The
  lemmas give the four facts every numerical argument here is made of: \<open>fl\<close> is monotone, it
  does not change representable numbers, its relative error is at most \<open>2^-53\<close> on normal
  numbers, and its result is representable.
\<close>

datatype f64 = F64_NaN | F64_Inf bool | F64_Fin bool rat


section \<open>Rounding\<close>

fun ilog2 :: "nat \<Rightarrow> nat" where
  "ilog2 n = (if n < 2 then 0 else Suc (ilog2 (n div 2)))"

declare ilog2.simps [simp del]

definition pow2 :: "int \<Rightarrow> rat" where
  "pow2 e = (if 0 \<le> e then 2 ^ nat e else 1 / 2 ^ nat (- e))"

text \<open>The binary exponent of a positive rational.\<close>

definition rexp :: "rat \<Rightarrow> int" where
  "rexp x = (if 1 \<le> x then int (ilog2 (nat \<lfloor>x\<rfloor>)) else - int (ilog2 (nat (\<lceil>1 / x\<rceil> - 1))) - 1)"

text \<open>Nearest integer, ties to even.\<close>

definition rne :: "rat \<Rightarrow> int" where
  "rne q =
     (let f = \<lfloor>q\<rfloor>; r = q - of_int f in
      if r < 1 / 2 then f else if 1 / 2 < r then f + 1 else if even f then f else f + 1)"

text \<open>Exponent of the last place of the binary64 numbers around a positive rational.\<close>

definition ulp_exp :: "rat \<Rightarrow> int" where
  "ulp_exp x = max (rexp x - 52) (- 1074)"

definition fl :: "rat \<Rightarrow> rat" where
  "fl x = (if x = 0 then 0 else of_int (rne (x / pow2 (ulp_exp x))) * pow2 (ulp_exp x))"

definition mk_f64 :: "bool \<Rightarrow> rat \<Rightarrow> f64" where
  "mk_f64 s x = (if 2 ^ 1024 \<le> fl x then F64_Inf s else F64_Fin s (fl x))"

text \<open>An exact rational result, with the sign a zero result gets.\<close>

definition f64_of_rat :: "bool \<Rightarrow> rat \<Rightarrow> f64" where
  "f64_of_rat zs x = (if x = 0 then F64_Fin zs 0 else mk_f64 (x < 0) \<bar>x\<bar>)"


section \<open>Operations\<close>

definition f64_of_nat :: "nat \<Rightarrow> f64" where
  "f64_of_nat n = mk_f64 False (of_nat n)"

definition f64_of_int :: "int \<Rightarrow> f64" where
  "f64_of_int i = f64_of_rat False (of_int i)"

text \<open>A decimal literal of the source: the nearest binary64 value.\<close>

definition f64_lit :: "rat \<Rightarrow> f64" where
  "f64_lit x = f64_of_rat False x"

definition f64_is_finite :: "f64 \<Rightarrow> bool" where
  "f64_is_finite a = (case a of F64_Fin _ _ \<Rightarrow> True | _ \<Rightarrow> False)"

definition f64_is_sign_negative :: "f64 \<Rightarrow> bool" where
  "f64_is_sign_negative a = (case a of F64_Fin s _ \<Rightarrow> s | F64_Inf s \<Rightarrow> s | F64_NaN \<Rightarrow> False)"

text \<open>Value of a finite number.\<close>

definition f64_val :: "f64 \<Rightarrow> rat" where
  "f64_val a = (case a of F64_Fin s m \<Rightarrow> (if s then - m else m) | _ \<Rightarrow> 0)"

fun f64_mul :: "f64 \<Rightarrow> f64 \<Rightarrow> f64" where
  "f64_mul F64_NaN b = F64_NaN"
| "f64_mul a F64_NaN = F64_NaN"
| "f64_mul (F64_Inf s) (F64_Inf t) = F64_Inf (s \<noteq> t)"
| "f64_mul (F64_Inf s) (F64_Fin t m) = (if m = 0 then F64_NaN else F64_Inf (s \<noteq> t))"
| "f64_mul (F64_Fin s m) (F64_Inf t) = (if m = 0 then F64_NaN else F64_Inf (s \<noteq> t))"
| "f64_mul (F64_Fin s m) (F64_Fin t n) = mk_f64 (s \<noteq> t) (m * n)"

fun f64_div :: "f64 \<Rightarrow> f64 \<Rightarrow> f64" where
  "f64_div F64_NaN b = F64_NaN"
| "f64_div a F64_NaN = F64_NaN"
| "f64_div (F64_Inf s) (F64_Inf t) = F64_NaN"
| "f64_div (F64_Inf s) (F64_Fin t m) = F64_Inf (s \<noteq> t)"
| "f64_div (F64_Fin s m) (F64_Inf t) = F64_Fin (s \<noteq> t) 0"
| "f64_div (F64_Fin s m) (F64_Fin t n) =
     (if n = 0 then (if m = 0 then F64_NaN else F64_Inf (s \<noteq> t))
      else mk_f64 (s \<noteq> t) (m / n))"

fun f64_add :: "f64 \<Rightarrow> f64 \<Rightarrow> f64" where
  "f64_add F64_NaN b = F64_NaN"
| "f64_add a F64_NaN = F64_NaN"
| "f64_add (F64_Inf s) (F64_Inf t) = (if s = t then F64_Inf s else F64_NaN)"
| "f64_add (F64_Inf s) (F64_Fin t m) = F64_Inf s"
| "f64_add (F64_Fin s m) (F64_Inf t) = F64_Inf t"
| "f64_add (F64_Fin s m) (F64_Fin t n) =
     f64_of_rat (s \<and> t) (f64_val (F64_Fin s m) + f64_val (F64_Fin t n))"

text \<open>\<open>a < b\<close>; a NaN compares false.\<close>

fun f64_less :: "f64 \<Rightarrow> f64 \<Rightarrow> bool" where
  "f64_less F64_NaN b = False"
| "f64_less a F64_NaN = False"
| "f64_less (F64_Inf s) (F64_Inf t) = (s \<and> \<not> t)"
| "f64_less (F64_Inf s) (F64_Fin t m) = s"
| "f64_less (F64_Fin s m) (F64_Inf t) = (\<not> t)"
| "f64_less (F64_Fin s m) (F64_Fin t n) = (f64_val (F64_Fin s m) < f64_val (F64_Fin t n))"

fun f64_eq :: "f64 \<Rightarrow> f64 \<Rightarrow> bool" where
  "f64_eq (F64_Inf s) (F64_Inf t) = (s = t)"
| "f64_eq (F64_Fin s m) (F64_Fin t n) = (f64_val (F64_Fin s m) = f64_val (F64_Fin t n))"
| "f64_eq a b = False"

definition f64_ge :: "f64 \<Rightarrow> f64 \<Rightarrow> bool" where
  "f64_ge a b \<longleftrightarrow> f64_less b a \<or> f64_eq a b"

text \<open>\<open>f64::round\<close>: to the nearest integer, ties away from zero; the sign is kept.\<close>

fun f64_round :: "f64 \<Rightarrow> f64" where
  "f64_round (F64_Fin s m) = F64_Fin s (of_int \<lfloor>m + 1 / 2\<rfloor>)"
| "f64_round a = a"

fun f64_trunc :: "f64 \<Rightarrow> f64" where
  "f64_trunc (F64_Fin s m) = F64_Fin s (of_int \<lfloor>m\<rfloor>)"
| "f64_trunc a = a"

text \<open>\<open>as u64\<close>: truncates, saturates, and maps NaN to zero.\<close>

fun f64_as_u64 :: "f64 \<Rightarrow> u64" where
  "f64_as_u64 F64_NaN = 0"
| "f64_as_u64 (F64_Inf s) = (if s then 0 else - 1)"
| "f64_as_u64 (F64_Fin s m) =
     (if s then 0 else if 2 ^ 64 \<le> \<lfloor>m\<rfloor> then - 1 else of_int \<lfloor>m\<rfloor>)"

definition f64_clamp :: "f64 \<Rightarrow> f64 \<Rightarrow> f64 \<Rightarrow> f64" where
  "f64_clamp lo hi x = (if f64_less x lo then lo else if f64_less hi x then hi else x)"

text \<open>\<open>powi\<close> for a non-negative exponent, by repeated squaring.\<close>

function powi_loop :: "f64 \<Rightarrow> f64 \<Rightarrow> nat \<Rightarrow> f64" where
  "powi_loop r a b =
     (let r' = (if odd b then f64_mul r a else r)
      in if b div 2 = 0 then r' else powi_loop r' (f64_mul a a) (b div 2))"
  by pat_completeness auto
termination
  by (relation "measure (\<lambda>(r, a, b). b)") (auto simp: Let_def)

declare powi_loop.simps [simp del]

definition f64_powi :: "f64 \<Rightarrow> nat \<Rightarrow> f64" where
  "f64_powi a b = powi_loop (f64_lit 1) a b"


section \<open>Text and durations\<close>

type_synonym duration = nat \<comment> \<open>nanoseconds; below \<open>(2^64) * 10^9\<close>\<close>

definition from_secs :: "nat \<Rightarrow> duration" where
  "from_secs n = n * 1000000000"

definition from_millis :: "nat \<Rightarrow> duration" where
  "from_millis n = n * 1000000"

definition as_secs :: "duration \<Rightarrow> nat" where
  "as_secs d = d div 1000000000"

definition as_millis :: "duration \<Rightarrow> nat" where
  "as_millis d = d div 1000000"

text \<open>
  \<open>Duration::from_secs_f64\<close>, rounded to the nearest nanosecond; \<^term>\<open>None\<close> is its panic on a
  negative, non-finite or too large number.
\<close>

fun from_secs_f64 :: "f64 \<Rightarrow> duration option" where
  "from_secs_f64 (F64_Fin s m) =
     (let n = rne (m * 1000000000) in
      if s \<and> m \<noteq> 0 then None
      else if 2 ^ 64 * 1000000000 \<le> n then None else Some (nat n))"
| "from_secs_f64 a = None"

text \<open>
  \<open>str::parse::<f64>\<close>: an optional sign, then \<open>inf\<close>, \<open>infinity\<close> or \<open>nan\<close> in any case, or
  digits with an optional fraction (at least one digit in all) and an optional exponent.
\<close>

definition span_digits :: "rstr \<Rightarrow> nat list \<times> rstr" where
  "span_digits s =
     (map (\<lambda>c. c - 48) (takeWhile is_ascii_digit s), dropWhile is_ascii_digit s)"

definition parse_exponent :: "rstr \<Rightarrow> int option" where
  "parse_exponent s =
     (case s of
        [] \<Rightarrow> Some 0
      | c # cs \<Rightarrow>
          (if c = 101 \<or> c = 69 then
             (let (neg, ds) = (case cs of d # r \<Rightarrow> if d = 45 then (True, r)
                                                  else if d = 43 then (False, r) else (False, cs)
                                        | [] \<Rightarrow> (False, []))
              in map_option (\<lambda>v. if neg then - int v else int v) (parse_digits 10 ds))
           else None))"

definition parse_decimal :: "rstr \<Rightarrow> rat option" where
  "parse_decimal s =
     (let (ip, r) = span_digits s;
          (fp, r') = (case r of c # cs \<Rightarrow> if c = 46 then span_digits cs else ([], r)
                              | [] \<Rightarrow> ([], []))
      in if ip = [] \<and> fp = [] then None
         else map_option
           (\<lambda>e. of_nat (digits_value 10 (ip @ fp)) *
              (let k = e - int (length fp) in if 0 \<le> k then 10 ^ nat k else 1 / 10 ^ nat (- k)))
           (parse_exponent r'))"

definition parse_f64 :: "rstr \<Rightarrow> f64 option" where
  "parse_f64 s =
     (let (neg, b) = (case s of c # cs \<Rightarrow> if c = 45 then (True, cs)
                                         else if c = 43 then (False, cs) else (False, s)
                              | [] \<Rightarrow> (False, []));
          low = map to_ascii_lowercase b
      in if low = lit ''inf'' \<or> low = lit ''infinity'' then Some (F64_Inf neg)
         else if low = lit ''nan'' then Some F64_NaN
         else map_option (mk_f64 neg) (parse_decimal b))"


section \<open>Evaluation on concrete numbers\<close>

text \<open>
  Equations with which the simplifier computes the operations on numerals; the collection
  \<open>f64_eval\<close> is used to evaluate concrete inputs.
\<close>

named_theorems f64_eval \<open>equations that evaluate binary64 operations on numerals\<close>

lemma ilog2_numeral [f64_eval]:
  "ilog2 0 = 0"
  "ilog2 1 = 0"
  "ilog2 (Suc 0) = 0"
  "ilog2 (numeral (Num.Bit0 n)) = Suc (ilog2 (numeral n))"
  "ilog2 (numeral (Num.Bit1 n)) = Suc (ilog2 (numeral n))"
proof -
  show "ilog2 (numeral (Num.Bit0 n)) = Suc (ilog2 (numeral n))"
    by (subst ilog2.simps) (simp add: numeral_Bit0_div_2)
  show "ilog2 (numeral (Num.Bit1 n)) = Suc (ilog2 (numeral n))"
    by (subst ilog2.simps) (simp add: numeral_Bit1_div_2)
qed (simp_all add: ilog2.simps)

lemma rat_floor_numeral [simp, f64_eval]:
  "\<lfloor>numeral a / numeral b :: rat\<rfloor> = numeral a div numeral b"
  "\<lfloor>1 / numeral b :: rat\<rfloor> = 1 div numeral b"
  "\<lfloor>- numeral a / numeral b :: rat\<rfloor> = - numeral a div numeral b"
  "\<lfloor>- 1 / numeral b :: rat\<rfloor> = - 1 div numeral b"
  using floor_divide_of_int_eq [where 'a = rat, of "numeral a" "numeral b"]
    floor_divide_of_int_eq [where 'a = rat, of 1 "numeral b"]
    floor_divide_of_int_eq [where 'a = rat, of "- numeral a" "numeral b"]
    floor_divide_of_int_eq [where 'a = rat, of "- 1" "numeral b"]
  by simp_all

lemma rat_ceiling_numeral [simp, f64_eval]:
  "\<lceil>numeral a / numeral b :: rat\<rceil> = - (- numeral a div numeral b)"
  "\<lceil>1 / numeral b :: rat\<rceil> = - (- 1 div numeral b)"
  using rat_floor_numeral(3) [of a b] rat_floor_numeral(4) [of b]
  by (simp_all add: ceiling_def)

lemmas fl_defs [f64_eval] = fl_def ulp_exp_def rexp_def pow2_def rne_def Let_def mk_f64_def
  f64_of_rat_def f64_of_nat_def f64_of_int_def f64_lit_def f64_is_finite_def f64_val_def
  f64_is_sign_negative_def f64_clamp_def f64_ge_def

lemmas parse_f64_defs [f64_eval] = lit_Cons parse_f64_def parse_decimal_def parse_exponent_def
  span_digits_def parse_digits_def digits_value_def to_digit_def to_ascii_lowercase_def
  is_ascii_digit_def is_ascii_uppercase_def is_ascii_lowercase_def


section \<open>Facts: powers of two and exponents\<close>

lemma pow2_power_int: "pow2 e = 2 powi e"
  by (simp add: pow2_def power_int_def inverse_eq_divide power_divide)

lemma pow2_pos [simp]: "0 < pow2 e"
  by (simp add: pow2_def)

lemma pow2_ne [simp]: "pow2 e \<noteq> 0"
  using pow2_pos [of e] by linarith

lemma pow2_add: "pow2 (a + b) = pow2 a * pow2 b"
  by (simp add: pow2_power_int power_int_add)

lemma pow2_diff: "pow2 (a - b) = pow2 a / pow2 b"
  by (simp add: pow2_power_int power_int_diff)

lemma pow2_mono: "a \<le> b \<Longrightarrow> pow2 a \<le> pow2 b"
  by (simp add: pow2_power_int power_int_increasing)

lemma pow2_nat: "pow2 (int n) = 2 ^ n"
  by (simp add: pow2_def)

lemma pow2_Suc: "pow2 (e + 1) = 2 * pow2 e"
  by (simp add: pow2_add) (simp add: pow2_def)

lemma pow2_less_iff: "pow2 a < pow2 b \<longleftrightarrow> a < b"
proof
  assume "a < b"
  then have "pow2 (a + 1) \<le> pow2 b" by (intro pow2_mono) simp
  then show "pow2 a < pow2 b" using pow2_pos [of a] pow2_Suc [of a] by linarith
next
  assume "pow2 a < pow2 b"
  then show "a < b" using pow2_mono [of b a] by linarith
qed

lemma pow2_of_int: "0 \<le> e \<Longrightarrow> pow2 e = of_int (2 ^ nat e)"
  by (simp add: pow2_def)

lemma ilog2_bounds: "0 < n \<Longrightarrow> 2 ^ ilog2 n \<le> n \<and> n < 2 ^ (ilog2 n + 1)"
proof (induction n rule: ilog2.induct)
  case (1 n)
  show ?case
  proof (cases "n < 2")
    case True
    with 1 show ?thesis by (simp add: ilog2.simps)
  next
    case False
    then have "2 ^ ilog2 (n div 2) \<le> n div 2 \<and> n div 2 < 2 ^ (ilog2 (n div 2) + 1)"
      using 1 by simp
    with False show ?thesis by (simp add: ilog2.simps [of n]) linarith
  qed
qed

lemma rexp_bounds:
  assumes "0 < x"
  shows "pow2 (rexp x) \<le> x" and "x < pow2 (rexp x + 1)"
proof -
  have "pow2 (rexp x) \<le> x \<and> x < pow2 (rexp x + 1)"
  proof (cases "1 \<le> x")
    case True
    define n where "n = nat \<lfloor>x\<rfloor>"
    have n: "0 < n" "of_nat n \<le> x" "x < of_nat n + 1"
      using True floor_correct [of x] by (auto simp: n_def le_floor_iff)
    have "2 ^ ilog2 n \<le> n" "Suc n \<le> 2 ^ (ilog2 n + 1)"
      using ilog2_bounds [OF n(1)] by auto
    then have "(2 ^ ilog2 n :: rat) \<le> of_nat n" "of_nat n + 1 \<le> (2 ^ (ilog2 n + 1) :: rat)"
      by (metis of_nat_le_iff of_nat_numeral of_nat_power)
         (metis \<open>Suc n \<le> 2 ^ (ilog2 n + 1)\<close> of_nat_Suc of_nat_le_iff of_nat_numeral of_nat_power add.commute)
    moreover have "rexp x = int (ilog2 n)" "rexp x + 1 = int (ilog2 n + 1)"
      using True by (simp_all add: rexp_def n_def)
    ultimately show ?thesis using n by (simp only: pow2_nat) linarith
  next
    case False
    define m where "m = nat (\<lceil>1 / x\<rceil> - 1)"
    define j where "j = ilog2 m"
    have gt: "1 < 1 / x" using False assms by simp
    then have "2 \<le> \<lceil>1 / x\<rceil>" by linarith
    then have m: "0 < m" "of_nat m < 1 / x" "1 / x \<le> of_nat m + 1"
      by (auto simp: m_def) linarith+
    have "2 ^ j \<le> m" "Suc m \<le> 2 ^ (j + 1)"
      using ilog2_bounds [OF m(1)] by (auto simp: j_def)
    then have "(2 ^ j :: rat) \<le> of_nat m" "of_nat m + 1 \<le> (2 ^ (j + 1) :: rat)"
      by (metis of_nat_le_iff of_nat_numeral of_nat_power)
         (metis \<open>Suc m \<le> 2 ^ (j + 1)\<close> of_nat_Suc of_nat_le_iff of_nat_numeral of_nat_power add.commute)
    with m have lo: "2 ^ j < 1 / x" and hi: "1 / x \<le> 2 ^ (j + 1)" by linarith+
    have e: "rexp x = - int (j + 1)" "rexp x + 1 = - int j"
      using False by (simp_all add: rexp_def m_def j_def)
    have "pow2 (- int (j + 1)) = 1 / 2 ^ (j + 1)" "pow2 (- int j) = 1 / 2 ^ j"
      by (simp_all only: pow2_power_int power_int_minus power_int_of_nat inverse_eq_divide)
    moreover have "1 / 2 ^ (j + 1) \<le> x" "x < 1 / 2 ^ j"
      using lo hi assms by (simp_all add: field_simps)
    ultimately show ?thesis unfolding e by simp
  qed
  then show "pow2 (rexp x) \<le> x" "x < pow2 (rexp x + 1)" by auto
qed


section \<open>Facts: rounding\<close>

lemma rne_cases:
  obtains "rne q = \<lfloor>q\<rfloor>" "q - of_int \<lfloor>q\<rfloor> \<le> 1 / 2"
  | "rne q = \<lfloor>q\<rfloor> + 1" "1 / 2 \<le> q - of_int \<lfloor>q\<rfloor>"
proof -
  have "rne q = \<lfloor>q\<rfloor> \<and> q - of_int \<lfloor>q\<rfloor> \<le> 1 / 2 \<or>
        rne q = \<lfloor>q\<rfloor> + 1 \<and> 1 / 2 \<le> q - of_int \<lfloor>q\<rfloor>"
    unfolding rne_def Let_def by (cases "q - of_int \<lfloor>q\<rfloor>" "1 / 2 :: rat" rule: linorder_cases) auto
  then show thesis using that by blast
qed

lemma rne_dist: "\<bar>of_int (rne q) - q\<bar> \<le> 1 / 2"
  using floor_correct [of q] by (cases q rule: rne_cases) auto

lemma rne_of_int [simp]: "rne (of_int n) = n"
  by (simp add: rne_def)

lemma rne_mono:
  assumes "p \<le> q"
  shows "rne p \<le> rne q"
proof (cases "\<lfloor>p\<rfloor> = \<lfloor>q\<rfloor>")
  case True
  then show ?thesis using assms by (auto simp: rne_def Let_def)
next
  case False
  then have "\<lfloor>p\<rfloor> + 1 \<le> \<lfloor>q\<rfloor>" using floor_mono [OF assms] by simp
  moreover have "rne p \<le> \<lfloor>p\<rfloor> + 1" by (cases p rule: rne_cases) simp_all
  moreover have "\<lfloor>q\<rfloor> \<le> rne q" by (cases q rule: rne_cases) simp_all
  ultimately show ?thesis by simp
qed

lemma rne_nonneg: "0 \<le> q \<Longrightarrow> 0 \<le> rne q"
  using rne_mono [of 0 q] rne_of_int [of 0] by simp

lemma fl_0 [simp]: "fl 0 = 0"
  by (simp add: fl_def)

lemma fl_nonneg: "0 \<le> x \<Longrightarrow> 0 \<le> fl x"
  by (simp add: fl_def rne_nonneg less_imp_le [OF pow2_pos])

text \<open>A grid point of the rounding step is a bound that rounding does not cross.\<close>

lemma fl_le_grid:
  assumes "0 < x" "x \<le> of_int k * pow2 (ulp_exp x)"
  shows "fl x \<le> of_int k * pow2 (ulp_exp x)"
proof -
  have "x / pow2 (ulp_exp x) \<le> of_int k" using assms by (simp add: pos_divide_le_eq)
  then have "rne (x / pow2 (ulp_exp x)) \<le> k" using rne_mono rne_of_int by metis
  with assms(1) show ?thesis by (simp add: fl_def)
qed

lemma grid_le_fl:
  assumes "0 < x" "of_int k * pow2 (ulp_exp x) \<le> x"
  shows "of_int k * pow2 (ulp_exp x) \<le> fl x"
proof -
  have "of_int k \<le> x / pow2 (ulp_exp x)" using assms by (simp add: pos_le_divide_eq)
  then have "k \<le> rne (x / pow2 (ulp_exp x))" using rne_mono rne_of_int by metis
  with assms(1) show ?thesis by (simp add: fl_def)
qed

lemma pow2_on_grid:
  assumes "ulp_exp x \<le> e"
  shows "pow2 e = of_int (2 ^ nat (e - ulp_exp x)) * pow2 (ulp_exp x)"
proof -
  have "pow2 e = pow2 (e - ulp_exp x) * pow2 (ulp_exp x)" by (simp flip: pow2_add)
  with assms show ?thesis by (simp add: pow2_of_int)
qed

lemma rexp_mono:
  assumes "0 < x" "x \<le> y"
  shows "rexp x \<le> rexp y"
proof -
  have "pow2 (rexp x) \<le> x" using assms rexp_bounds by simp
  also have "\<dots> < pow2 (rexp y + 1)" using assms rexp_bounds [of y] by linarith
  finally show ?thesis by (simp add: pow2_less_iff)
qed

lemma ulp_exp_mono: "0 < x \<Longrightarrow> x \<le> y \<Longrightarrow> ulp_exp x \<le> ulp_exp y"
  using rexp_mono [of x y] by (auto simp: ulp_exp_def)

lemma fl_mono:
  assumes "0 \<le> x" "x \<le> y"
  shows "fl x \<le> fl y"
proof (cases "x = 0")
  case True
  then show ?thesis using assms fl_nonneg [of y] by simp
next
  case False
  then have x: "0 < x" and y: "0 < y" using assms by auto
  show ?thesis
  proof (cases "ulp_exp x = ulp_exp y")
    case True
    have "rne (x / pow2 (ulp_exp y)) \<le> rne (y / pow2 (ulp_exp y))"
      using assms by (intro rne_mono) (simp add: divide_right_mono less_imp_le)
    then show ?thesis using x y True by (simp add: fl_def)
  next
    case False
    then have lt: "ulp_exp x < ulp_exp y" using ulp_exp_mono [OF x assms(2)] by simp
    then have uy: "ulp_exp y = rexp y - 52" by (auto simp: ulp_exp_def)
    have "x \<le> pow2 (rexp y)"
    proof -
      have "rexp x + 1 \<le> rexp y" using lt by (auto simp: ulp_exp_def)
      then have "pow2 (rexp x + 1) \<le> pow2 (rexp y)" by (rule pow2_mono)
      with rexp_bounds(2) [OF x] show ?thesis by simp
    qed
    moreover have "ulp_exp x \<le> rexp y" using lt uy by simp
    ultimately have "fl x \<le> pow2 (rexp y)"
      using pow2_on_grid [of x "rexp y"] fl_le_grid [OF x] by metis
    also have "\<dots> \<le> fl y"
    proof -
      have "ulp_exp y \<le> rexp y" using uy by simp
      then show ?thesis
        using pow2_on_grid [of y "rexp y"] grid_le_fl [OF y] rexp_bounds(1) [OF y] by metis
    qed
    finally show ?thesis .
  qed
qed

text \<open>Representable magnitudes: 53-bit integers times a power of two from \<open>2^-1074\<close> up.\<close>

lemma fl_exact:
  assumes "m < 2 ^ 53" "- 1074 \<le> k"
  shows "fl (of_nat m * pow2 k) = of_nat m * pow2 k"
proof (cases "m = 0")
  case False
  define x where "x = of_nat m * pow2 k"
  have x: "0 < x" using False by (simp add: x_def)
  have "ulp_exp x \<le> k"
  proof (rule ccontr)
    assume "\<not> ulp_exp x \<le> k"
    with assms(2) have "k + 53 \<le> rexp x" by (auto simp: ulp_exp_def max_def split: if_splits)
    then have "pow2 (k + 53) \<le> x" using pow2_mono rexp_bounds(1) [OF x] by fastforce
    then have "2 ^ 53 * pow2 k \<le> of_nat m * pow2 k"
      by (simp add: x_def pow2_add) (simp add: pow2_def mult.commute)
    then have "(2 ^ 53 :: rat) \<le> of_nat m" by simp
    then have "2 ^ 53 \<le> m" by (metis of_nat_le_iff of_nat_numeral of_nat_power)
    with assms(1) show False by simp
  qed
  then have grid: "x = of_int (int m * 2 ^ nat (k - ulp_exp x)) * pow2 (ulp_exp x)"
    using pow2_on_grid [of x k] by (simp add: x_def)
  then have "x / pow2 (ulp_exp x) = of_int (int m * 2 ^ nat (k - ulp_exp x))"
    by (metis nonzero_mult_div_cancel_right pow2_ne)
  then have "fl x = of_int (int m * 2 ^ nat (k - ulp_exp x)) * pow2 (ulp_exp x)"
    using x by (simp only: fl_def rne_of_int) simp
  then have "fl x = x" using grid by simp
  then show ?thesis by (simp add: x_def)
qed simp

lemma fl_nat_exact: "n < 2 ^ 53 \<Longrightarrow> fl (of_nat n) = of_nat n"
  using fl_exact [of n 0] by (simp add: pow2_def)

lemma fl_numeral_exact: "(numeral n :: nat) < 2 ^ 53 \<Longrightarrow> fl (numeral n) = numeral n"
  using fl_nat_exact [of "numeral n"] by simp

lemma fl_pow2_exact: "- 1074 \<le> k \<Longrightarrow> fl (pow2 k) = pow2 k"
  using fl_exact [of 1 k] by simp

lemma fl_abs_error:
  assumes "0 < x"
  shows "\<bar>fl x - x\<bar> \<le> pow2 (ulp_exp x) / 2"
proof -
  let ?u = "pow2 (ulp_exp x)" and ?q = "x / pow2 (ulp_exp x)"
  have "fl x - x = (of_int (rne ?q) - ?q) * ?u"
    using assms by (simp add: fl_def left_diff_distrib)
  then have "\<bar>fl x - x\<bar> = \<bar>of_int (rne ?q) - ?q\<bar> * ?u"
    by (simp add: abs_mult abs_of_pos)
  also have "\<dots> \<le> 1 / 2 * ?u" by (intro mult_right_mono rne_dist) (simp add: less_imp_le)
  finally show ?thesis by simp
qed

lemma fl_rel_error:
  assumes "pow2 (- 1022) \<le> x"
  shows "\<bar>fl x - x\<bar> \<le> x / 2 ^ 53"
proof -
  have x: "0 < x" using assms pow2_pos [of "- 1022"] by linarith
  then have "pow2 (- 1022) < pow2 (rexp x + 1)" using assms rexp_bounds(2) [of x] by linarith
  then have "ulp_exp x = rexp x - 52" by (simp add: pow2_less_iff ulp_exp_def)
  then have "pow2 (ulp_exp x) = pow2 (rexp x) / 2 ^ 52"
    by (simp only: pow2_diff) (simp add: pow2_def)
  with fl_abs_error [OF x] rexp_bounds(1) [OF x] show ?thesis by simp
qed


section \<open>Facts: operations on non-negative numbers\<close>

lemma fl_less_limit: "0 \<le> x \<Longrightarrow> x \<le> pow2 1023 \<Longrightarrow> fl x < 2 ^ 1024"
proof -
  assume "0 \<le> x" "x \<le> pow2 1023"
  then have "fl x \<le> pow2 1023" using fl_mono [of x "pow2 1023"] by (simp add: fl_pow2_exact)
  also have "\<dots> < pow2 1024" by (simp add: pow2_less_iff)
  finally show ?thesis by (simp add: pow2_def)
qed

lemma mk_f64_fin: "0 \<le> x \<Longrightarrow> x \<le> pow2 1023 \<Longrightarrow> mk_f64 s x = F64_Fin s (fl x)"
  using fl_less_limit by (simp add: mk_f64_def not_le)

lemma pow2_64_le: "pow2 64 \<le> pow2 1023" "pow2 128 \<le> pow2 1023"
  by (simp_all add: pow2_mono)

lemma f64_of_nat_fin:
  assumes "n < 2 ^ 64"
  shows "f64_of_nat n = F64_Fin False (fl (of_nat n))"
proof -
  have "(of_nat n :: rat) \<le> of_nat (2 ^ 64)" using assms by (intro of_nat_mono) simp
  also have "\<dots> = pow2 64" by (simp add: pow2_def)
  finally show ?thesis
    using pow2_64_le by (simp add: f64_of_nat_def mk_f64_fin)
qed

lemma fl_bounds:
  assumes "pow2 (- 1022) \<le> x"
  shows "x * (1 - 1 / 2 ^ 53) \<le> fl x" and "fl x \<le> x * (1 + 1 / 2 ^ 53)"
proof -
  have "fl x - x \<le> x / 2 ^ 53" "x - fl x \<le> x / 2 ^ 53"
    using fl_rel_error [OF assms] by linarith+
  then show "x * (1 - 1 / 2 ^ 53) \<le> fl x" "fl x \<le> x * (1 + 1 / 2 ^ 53)"
    by (simp_all add: algebra_simps)
qed

lemma pow2_min_le_1: "pow2 (- 1022) \<le> 1"
  using pow2_mono [of "- 1022" 0] by (simp add: pow2_def)

lemma fl_nat_bounds:
  assumes "0 < n"
  shows "of_nat n * (1 - 1 / 2 ^ 53) \<le> fl (of_nat n)"
    and "fl (of_nat n) \<le> of_nat n * (1 + 1 / 2 ^ 53)"
    and "1 \<le> fl (of_nat n)"
proof -
  have ge: "(1 :: rat) \<le> of_nat n" using assms by simp
  then have "pow2 (- 1022) \<le> of_nat n" using pow2_min_le_1 by linarith
  from fl_bounds [OF this] show "of_nat n * (1 - 1 / 2 ^ 53) \<le> fl (of_nat n)"
    "fl (of_nat n) \<le> of_nat n * (1 + 1 / 2 ^ 53)" .
  show "1 \<le> fl (of_nat n)"
    using fl_mono [OF _ ge] fl_nat_exact [of 1] by simp
qed

lemma f64_lit_100: "f64_lit 100 = F64_Fin False 100"
  by (simp add: f64_eval)


section \<open>Percentages\<close>

text \<open>
  The program computes every percentage as \<open>100.0 * used as f64 / total as f64\<close>.  For 64-bit
  counters with \<open>used \<le> total\<close> the four roundings keep the result within \<open>10^-12\<close> of the
  exact quotient.
\<close>

definition f64_percent :: "nat \<Rightarrow> nat \<Rightarrow> f64" where
  "f64_percent used whole =
     f64_div (f64_mul (f64_lit 100) (f64_of_nat used)) (f64_of_nat whole)"

lemma f64_percent_zero: "0 < t \<Longrightarrow> t < 2 ^ 64 \<Longrightarrow> f64_percent 0 t = F64_Fin False 0"
  using fl_nat_bounds(3) [of t]
  by (simp add: f64_percent_def f64_of_nat_fin f64_lit_100 mk_f64_def)

lemma f64_percent_fin:
  assumes "u \<le> t" "0 < t" "t < 2 ^ 64"
  shows "f64_percent u t = F64_Fin False (fl (fl (100 * fl (of_nat u)) / fl (of_nat t)))"
proof -
  have u: "u < 2 ^ 64" using assms by simp
  have le: "fl (of_nat u) \<le> pow2 64"
  proof -
    have "(of_nat u :: rat) \<le> of_nat (2 ^ 64)" using u by (intro of_nat_mono) simp
    then have "fl (of_nat u) \<le> fl (pow2 64)" by (intro fl_mono) (simp_all add: pow2_def)
    then show ?thesis by (simp add: fl_pow2_exact)
  qed
  have nn: "0 \<le> fl (of_nat u)" by (simp add: fl_nonneg)
  have "100 * fl (of_nat u) \<le> pow2 128"
    using le by (simp add: pow2_def)
  then have p: "100 * fl (of_nat u) \<le> pow2 1023" "fl (100 * fl (of_nat u)) \<le> pow2 128"
    using pow2_64_le fl_mono [of "100 * fl (of_nat u)" "pow2 128"] nn
    by (simp_all add: fl_pow2_exact)
  have t1: "1 \<le> fl (of_nat t)" using fl_nat_bounds(3) [OF assms(2)] .
  have "fl (100 * fl (of_nat u)) / fl (of_nat t) \<le> fl (100 * fl (of_nat u))"
    using t1 fl_nonneg [of "100 * fl (of_nat u)"] nn by (simp add: divide_le_eq mult_le_cancel_left1)
  then have "fl (100 * fl (of_nat u)) / fl (of_nat t) \<le> pow2 1023"
    using p pow2_64_le by linarith
  moreover have "0 \<le> fl (100 * fl (of_nat u)) / fl (of_nat t)"
    using t1 nn by (simp add: fl_nonneg)
  ultimately show ?thesis
    using t1 p(1) nn assms(3) u
    by (simp add: f64_percent_def f64_of_nat_fin f64_lit_100 mk_f64_fin)
qed


text \<open>The error of the four roundings, for a positive counter.\<close>

lemma percent_error_factor:
  fixes e :: rat
  defines "e \<equiv> 1 / 2 ^ 53"
  assumes u: "0 < u" and t: "0 < t"
    and a: "u * (1 - e) \<le> a" "a \<le> u * (1 + e)"
    and p: "100 * a * (1 - e) \<le> p" "p \<le> 100 * a * (1 + e)"
    and b: "t * (1 - e) \<le> b" "b \<le> t * (1 + e)"
    and r: "p / b * (1 - e) \<le> r" "r \<le> p / b * (1 + e)"
  shows "r \<le> 100 * u / t * ((1 + e) ^ 3 / (1 - e))"
    and "100 * u / t * ((1 - e) ^ 3 / (1 + e)) \<le> r"
proof -
  have e: "0 < e" "e < 1" by (simp_all add: e_def)
  have "0 < t * (1 - e)" "0 < u * (1 - e)" using t u e by simp_all
  then have b0: "0 < b" and a0: "0 < a" using a(1) b(1) by linarith+
  have "p \<le> 100 * (u * (1 + e)) * (1 + e)"
    by (rule order_trans [OF p(2)]) (intro mult_right_mono mult_left_mono a(2); use e in simp)
  then have "p / b \<le> 100 * (u * (1 + e)) * (1 + e) / (t * (1 - e))"
    using b(1) t e u by (intro frac_le) simp_all
  then have "r \<le> 100 * (u * (1 + e)) * (1 + e) / (t * (1 - e)) * (1 + e)"
    using r(2) e by (meson mult_right_mono order_trans add_nonneg_nonneg less_imp_le zero_le_one)
  then show "r \<le> 100 * u / t * ((1 + e) ^ 3 / (1 - e))"
    by (simp add: power3_eq_cube mult.assoc mult.commute mult.left_commute)
  have p_lo: "100 * (u * (1 - e)) * (1 - e) \<le> p"
    by (rule order_trans [OF _ p(1)]) (intro mult_right_mono mult_left_mono a(1); use e in simp)
  have "0 \<le> p" by (rule order_trans [OF _ p_lo]) (use u e in simp)
  then have "100 * (u * (1 - e)) * (1 - e) / (t * (1 + e)) \<le> p / b"
    using p_lo b(2) b0 by (intro frac_le)
  then have "100 * (u * (1 - e)) * (1 - e) / (t * (1 + e)) * (1 - e) \<le> r"
    using r(1) e by (meson mult_right_mono order_trans diff_ge_0_iff_ge less_imp_le)
  then show "100 * u / t * ((1 - e) ^ 3 / (1 + e)) \<le> r"
    by (simp add: power3_eq_cube mult.assoc mult.commute mult.left_commute)
qed

lemma percent_factor_bounds:
  "((1 + 1 / 2 ^ 53) ^ 3 / (1 - 1 / 2 ^ 53) :: rat) \<le> 1 + 1 / 10 ^ 14"
  "(1 - 1 / 10 ^ 14 :: rat) \<le> (1 - 1 / 2 ^ 53) ^ 3 / (1 + 1 / 2 ^ 53)"
  by (simp_all add: power_divide)

lemma f64_percent_accuracy:
  assumes "u \<le> t" "0 < t" "t < 2 ^ 64"
  obtains m where "f64_percent u t = F64_Fin False m" "0 \<le> m"
    "\<bar>m - 100 * of_nat u / of_nat t\<bar> \<le> 1 / 10 ^ 12"
proof (cases "u = 0")
  case True
  then show thesis using that [of 0] assms by (simp add: f64_percent_zero)
next
  case False
  define a p b r where "a = fl (of_nat u)" and "p = fl (100 * a)" and "b = fl (of_nat t)"
    and "r = fl (p / b)"
  have fin: "f64_percent u t = F64_Fin False r"
    using f64_percent_fin [OF assms] by (simp add: a_def p_def b_def r_def)
  have a1: "1 \<le> a" using fl_nat_bounds(3) [of u] False by (simp add: a_def)
  have b1: "1 \<le> b" using fl_nat_bounds(3) [OF assms(2)] by (simp add: b_def)
  have b64: "b \<le> pow2 64"
  proof -
    have "(of_nat t :: rat) \<le> of_nat (2 ^ 64)" using assms(3) by (intro of_nat_mono) simp
    then have "fl (of_nat t) \<le> fl (pow2 64)" by (intro fl_mono) (simp_all add: pow2_def)
    then show ?thesis by (simp add: fl_pow2_exact b_def)
  qed
  have p_norm: "pow2 (- 1022) \<le> 100 * a" using a1 pow2_min_le_1 by linarith
  have "1 \<le> p" using fl_mono [of 1 "100 * a"] a1 fl_nat_exact [of 1] by (simp add: p_def)
  then have "1 / pow2 64 \<le> p / b" using b1 b64 by (intro frac_le) simp_all
  moreover have "pow2 (- 1022) \<le> 1 / pow2 64"
    using pow2_mono [of "- 1022" "0 - 64"] by (simp only: pow2_diff) (simp add: pow2_def)
  ultimately have q_norm: "pow2 (- 1022) \<le> p / b" by linarith
  note factors = percent_error_factor [of "of_nat u" "of_nat t" a p b r]
  have "r \<le> 100 * of_nat u / of_nat t * ((1 + 1 / 2 ^ 53) ^ 3 / (1 - 1 / 2 ^ 53))"
    and "100 * of_nat u / of_nat t * ((1 - 1 / 2 ^ 53) ^ 3 / (1 + 1 / 2 ^ 53)) \<le> r"
    using factors False assms(2) fl_nat_bounds [of u] fl_nat_bounds [of t]
      fl_bounds [OF p_norm] fl_bounds [OF q_norm]
    by (simp_all add: a_def [symmetric] p_def [symmetric] b_def [symmetric] r_def [symmetric])
  moreover define X :: rat where "X = 100 * of_nat u / of_nat t"
  ultimately have hi: "r \<le> X * ((1 + 1 / 2 ^ 53) ^ 3 / (1 - 1 / 2 ^ 53))"
    and lo: "X * ((1 - 1 / 2 ^ 53) ^ 3 / (1 + 1 / 2 ^ 53)) \<le> r" by simp_all
  have X: "0 \<le> X" "X \<le> 100" using assms by (simp_all add: X_def divide_le_eq)
  have "r \<le> X * (1 + 1 / 10 ^ 14)"
    using order_trans [OF hi mult_left_mono [OF percent_factor_bounds(1) X(1)]] .
  then have "r - X \<le> X / 10 ^ 14" by (simp add: algebra_simps)
  moreover have "X * (1 - 1 / 10 ^ 14) \<le> r"
    using order_trans [OF mult_left_mono [OF percent_factor_bounds(2) X(1)] lo] .
  then have "X - r \<le> X / 10 ^ 14" by (simp add: algebra_simps)
  moreover have "X / 10 ^ 14 \<le> 1 / 10 ^ 12" using X(2) by simp
  ultimately have "\<bar>r - X\<bar> \<le> 1 / 10 ^ 12" by linarith
  moreover have "0 \<le> r" using \<open>1 \<le> p\<close> b1 by (simp add: r_def fl_nonneg)
  ultimately show thesis using that [of r] fin by (simp add: X_def)
qed


section \<open>Facts: parsed numbers\<close>

lemma parse_decimal_nonneg: "parse_decimal s = Some q \<Longrightarrow> 0 \<le> q"
  by (auto simp: parse_decimal_def Let_def split: prod.splits if_splits list.splits)

lemma parse_f64_nonneg: "parse_f64 s = Some (F64_Fin b m) \<Longrightarrow> 0 \<le> m"
  by (auto simp: parse_f64_def Let_def mk_f64_def fl_nonneg parse_decimal_nonneg
      split: prod.splits if_splits)

lemma finite_non_negative_iff:
  "f64_is_finite v \<and> \<not> f64_is_sign_negative v \<longleftrightarrow> (\<exists>m. v = F64_Fin False m)"
  by (cases v) (auto simp: f64_is_finite_def f64_is_sign_negative_def)

lemma f64_is_finite_iff: "f64_is_finite v \<longleftrightarrow> (\<exists>s m. v = F64_Fin s m)"
  by (cases v) (auto simp: f64_is_finite_def)


section \<open>Facts: division by a thousand\<close>

lemma f64_lit_1000: "f64_lit 1000 = F64_Fin False 1000"
  by (simp add: f64_eval)

lemma thousandth_error:
  assumes "0 < n" "n < 2 ^ 64"
  shows "\<bar>fl (fl (of_nat n) / 1000) - of_nat n / 1000\<bar> \<le> of_nat n / 1000 / 2 ^ 51"
    and "fl (of_nat n) / 1000 \<le> pow2 1023"
proof -
  define a where "a = fl (of_nat n)"
  note a = fl_nat_bounds [OF assms(1), folded a_def]
  have norm: "pow2 (- 1022) \<le> a / 1000"
    using a(3) pow2_mono [of "- 1022" "- 10"] by (simp add: pow2_def)
  note q = fl_bounds [OF norm]
  have "fl (a / 1000) \<le> of_nat n * (1 + 1 / 2 ^ 53) / 1000 * (1 + 1 / 2 ^ 53)"
    using q(2) a(2) by (meson divide_right_mono mult_right_mono order_trans zero_le_numeral
        add_nonneg_nonneg zero_le_one zero_le_divide_1_iff zero_le_power)
  moreover have "of_nat n * (1 - 1 / 2 ^ 53) / 1000 * (1 - 1 / 2 ^ 53) \<le> fl (a / 1000)"
    by (rule order_trans [OF _ q(1)]) (intro mult_right_mono divide_right_mono a(1); simp)
  ultimately show "\<bar>fl (fl (of_nat n) / 1000) - of_nat n / 1000\<bar> \<le> of_nat n / 1000 / 2 ^ 51"
    using a(3) assms(1) unfolding a_def [symmetric] abs_le_iff by (simp add: field_simps)
  have "(of_nat n :: rat) \<le> of_nat (2 ^ 64)" using assms(2) by (intro of_nat_mono) simp
  then have "a \<le> fl (pow2 64)" unfolding a_def by (intro fl_mono) (simp_all add: pow2_def)
  then have "a / 1000 \<le> pow2 64" using a(3) pow2_pos [of 64] by (simp add: fl_pow2_exact)
  then show "fl (of_nat n) / 1000 \<le> pow2 1023" using pow2_64_le(1) by (simp add: a_def)
qed

lemma f64_thousandth:
  assumes "\<bar>i\<bar> < 2 ^ 64"
  shows "\<exists>s m. f64_div (f64_of_int i) (f64_lit 1000) = F64_Fin s m \<and>
    \<bar>f64_val (F64_Fin s m) - of_int i / 1000\<bar> \<le> of_int \<bar>i\<bar> / 1000 / 2 ^ 51"
proof (cases "i = 0")
  case True
  then show ?thesis
    by (intro exI [of _ False] exI [of _ 0])
      (simp add: f64_of_int_def f64_of_rat_def f64_lit_1000 mk_f64_def f64_val_def)
next
  case False
  define n where "n = nat \<bar>i\<bar>"
  have n: "0 < n" "n < 2 ^ 64" and abs: "\<bar>of_int i\<bar> = (of_nat n :: rat)"
    using False assms by (simp_all add: n_def)
  have fin: "f64_of_int i = F64_Fin (i < 0) (fl (of_nat n))"
    using f64_of_nat_fin [OF n(2)] False abs
    by (simp add: f64_of_int_def f64_of_rat_def f64_of_nat_def mk_f64_def split: if_splits)
  have "f64_div (f64_of_int i) (f64_lit 1000) = F64_Fin (i < 0) (fl (fl (of_nat n) / 1000))"
    using thousandth_error(2) [OF n] by (simp add: fin f64_lit_1000 mk_f64_fin fl_nonneg)
  moreover have "\<bar>f64_val (F64_Fin (i < 0) (fl (fl (of_nat n) / 1000))) - of_int i / 1000\<bar>
      \<le> of_int \<bar>i\<bar> / 1000 / 2 ^ 51"
    using thousandth_error(1) [OF n] abs by (auto simp: f64_val_def abs_if split: if_splits)
  ultimately show ?thesis by blast
qed


section \<open>Rounding near integers\<close>

lemma rne_le:
  assumes "q \<le> of_int n + 1 / 4"
  shows "rne q \<le> n"
proof -
  have "\<lfloor>of_int n + 1 / 4 :: rat\<rfloor> = n" by (rule floor_unique) simp_all
  then have "rne (of_int n + 1 / 4) = n" by (simp add: rne_def Let_def)
  then show ?thesis using rne_mono [OF assms] by simp
qed

lemma le_rne:
  assumes "of_int n - 1 / 4 \<le> q"
  shows "n \<le> rne q"
proof -
  have "\<lfloor>of_int n - 1 / 4 :: rat\<rfloor> = n - 1" by (rule floor_unique) simp_all
  then have "rne (of_int n - 1 / 4) = n" by (simp add: rne_def Let_def)
  then show ?thesis using rne_mono [OF assms] by simp
qed

text \<open>Each rounding of a number from one thousandth on moves it by less than \<open>10^-15\<close> of it.\<close>

lemma fl_tight:
  assumes "1 / 1000 \<le> x"
  shows "x * (1 - 1 / 10 ^ 15) \<le> fl x" "fl x \<le> x * (1 + 1 / 10 ^ 15)"
proof -
  have "pow2 (- 1022) \<le> pow2 (- 10)" by (simp add: pow2_mono)
  also have "\<dots> \<le> 1 / 1000" by (simp add: pow2_def)
  finally have ge: "pow2 (- 1022) \<le> x" using assms by linarith
  have e: "(1 :: rat) / 2 ^ 53 \<le> 1 / 10 ^ 15" by (simp add: field_simps)
  have "x * (1 - 1 / 10 ^ 15) \<le> x * (1 - 1 / 2 ^ 53)" "x * (1 + 1 / 2 ^ 53) \<le> x * (1 + 1 / 10 ^ 15)"
    using assms e by (intro mult_left_mono; linarith)+
  then show "x * (1 - 1 / 10 ^ 15) \<le> fl x" "fl x \<le> x * (1 + 1 / 10 ^ 15)"
    using fl_bounds [OF ge] by linarith+
qed

end
