(* ===== verification/Mqtt_Protocol.thy ===== *)
theory Mqtt_Protocol
  imports Transitions F64
begin

unbundle bit_operations_syntax

text \<open>
  The pure parts of \<open>src/mqtt.rs\<close>: the bootstrap state machine, the retry delays, the jitter
  generator and the collection request counter.  A method that changes its receiver returns the
  changed machine beside its result.  The abstract contract of the machine is \<open>session_step\<close>, and
  the machine refines it.
\<close>

section \<open>The bootstrap machine\<close>

datatype Phase =
    Disconnected
  | DiscoveryQueued
  | DiscoveryAwaitAck u16
  | OnlineQueued
  | OnlineAwaitAck u16
  | AwaitFreshState
  | StateQueued
  | Online
  | ShutdownAwaitOfflineOutgoing (skip_queued_publish: bool)
  | ShutdownAwaitOfflineAck u16
  | DisconnectQueued
  | Stopped

datatype ProtocolAction =
    PublishDiscovery | PublishOnline | PublishState | PublishOffline | Disconnect

record BootstrapMachine =
  bm_phase :: Phase
  bm_required_request :: u64
  bm_last_state_request :: u64
  bm_bootstrap_state_queued :: bool
  bm_became_online :: bool

definition BootstrapMachine_default :: BootstrapMachine where
  "BootstrapMachine_default =
     \<lparr>bm_phase = Disconnected, bm_required_request = 0, bm_last_state_request = 0,
      bm_bootstrap_state_queued = False, bm_became_online = False\<rparr>"

definition connected :: "u64 \<Rightarrow> BootstrapMachine \<Rightarrow> ProtocolAction \<times> BootstrapMachine" where
  "connected required_request m =
     (PublishDiscovery,
      m\<lparr>bm_required_request := required_request, bm_bootstrap_state_queued := False,
        bm_became_online := False, bm_phase := DiscoveryQueued\<rparr>)"

definition outgoing_publish :: "u16 \<Rightarrow> BootstrapMachine \<Rightarrow> ProtocolAction option \<times> BootstrapMachine" where
  "outgoing_publish packet_id m =
     (None,
      case bm_phase m of
        DiscoveryQueued \<Rightarrow>
          if packet_id \<noteq> 0 then m\<lparr>bm_phase := DiscoveryAwaitAck packet_id\<rparr> else m
      | OnlineQueued \<Rightarrow>
          if packet_id \<noteq> 0 then m\<lparr>bm_phase := OnlineAwaitAck packet_id\<rparr> else m
      | StateQueued \<Rightarrow>
          if packet_id = 0
          then m\<lparr>bm_phase := Online, bm_became_online := bm_bootstrap_state_queued m,
                 bm_bootstrap_state_queued := False\<rparr>
          else m
      | ShutdownAwaitOfflineOutgoing skip \<Rightarrow>
          if skip then m\<lparr>bm_phase := ShutdownAwaitOfflineOutgoing False\<rparr>
          else if packet_id \<noteq> 0 then m\<lparr>bm_phase := ShutdownAwaitOfflineAck packet_id\<rparr>
          else m
      | _ \<Rightarrow> m)"

definition publish_acknowledged ::
  "u16 \<Rightarrow> BootstrapMachine \<Rightarrow> ProtocolAction option \<times> BootstrapMachine" where
  "publish_acknowledged packet_id m =
     (case bm_phase m of
        DiscoveryAwaitAck expected \<Rightarrow>
          if expected = packet_id then (Some PublishOnline, m\<lparr>bm_phase := OnlineQueued\<rparr>)
          else (None, m)
      | OnlineAwaitAck expected \<Rightarrow>
          if expected = packet_id then (None, m\<lparr>bm_phase := AwaitFreshState\<rparr>) else (None, m)
      | ShutdownAwaitOfflineAck expected \<Rightarrow>
          if expected = packet_id then (Some Disconnect, m\<lparr>bm_phase := DisconnectQueued\<rparr>)
          else (None, m)
      | _ \<Rightarrow> (None, m))"

definition state_available ::
  "u64 \<Rightarrow> BootstrapMachine \<Rightarrow> ProtocolAction option \<times> BootstrapMachine" where
  "state_available request_id m =
     (let allowed =
        (case bm_phase m of
           AwaitFreshState \<Rightarrow> bm_required_request m \<le> request_id
         | Online \<Rightarrow> bm_last_state_request m < request_id
         | _ \<Rightarrow> False)
      in if allowed
         then (Some PublishState,
               m\<lparr>bm_bootstrap_state_queued := (bm_phase m = AwaitFreshState),
                 bm_last_state_request := request_id, bm_became_online := False,
                 bm_phase := StateQueued\<rparr>)
         else (None, m))"

definition shutdown :: "BootstrapMachine \<Rightarrow> ProtocolAction option \<times> BootstrapMachine" where
  "shutdown m =
     (case bm_phase m of
        Disconnected \<Rightarrow> (None, m\<lparr>bm_phase := Stopped\<rparr>)
      | Stopped \<Rightarrow> (None, m\<lparr>bm_phase := Stopped\<rparr>)
      | ShutdownAwaitOfflineOutgoing _ \<Rightarrow> (None, m)
      | ShutdownAwaitOfflineAck _ \<Rightarrow> (None, m)
      | DisconnectQueued \<Rightarrow> (None, m)
      | _ \<Rightarrow>
          (let skip = bm_phase m \<in> {DiscoveryQueued, OnlineQueued, StateQueued}
           in (Some PublishOffline, m\<lparr>bm_phase := ShutdownAwaitOfflineOutgoing skip\<rparr>)))"

definition disconnected :: "BootstrapMachine \<Rightarrow> ProtocolAction option \<times> BootstrapMachine" where
  "disconnected m = (None, m\<lparr>bm_phase := Stopped\<rparr>)"

definition connection_lost :: "BootstrapMachine \<Rightarrow> BootstrapMachine" where
  "connection_lost m =
     m\<lparr>bm_phase := Disconnected, bm_bootstrap_state_queued := False, bm_became_online := False\<rparr>"

definition accepts_state :: "BootstrapMachine \<Rightarrow> bool" where
  "accepts_state m \<longleftrightarrow> bm_phase m = AwaitFreshState \<or> bm_phase m = Online"

definition is_online :: "BootstrapMachine \<Rightarrow> bool" where
  "is_online m \<longleftrightarrow> bm_phase m = Online"

definition just_became_online :: "BootstrapMachine \<Rightarrow> bool \<times> BootstrapMachine" where
  "just_became_online m = (bm_became_online m, m\<lparr>bm_became_online := False\<rparr>)"

definition is_stopped :: "BootstrapMachine \<Rightarrow> bool" where
  "is_stopped m \<longleftrightarrow> bm_phase m = Stopped"


section \<open>Retry delays\<close>

definition RETRY_SECONDS :: "nat list" where
  "RETRY_SECONDS = [1, 2, 4, 8, 16, 30, 60]"

text \<open>\<open>attempt\<close> is a \<open>usize\<close>, 32 bits wide on the ARMv7 target.\<close>

record RetryBackoff =
  rb_attempt :: u32

definition RetryBackoff_new :: RetryBackoff where
  "RetryBackoff_new = \<lparr>rb_attempt = 0\<rparr>"

definition jitter_clamped :: "f64 \<Rightarrow> f64" where
  "jitter_clamped jitter_unit =
     (if f64_is_finite jitter_unit then f64_clamp (f64_lit 0) (f64_lit 1) jitter_unit
      else f64_lit (1 / 2))"

text \<open>\<^term>\<open>None\<close> is the panic of \<open>Duration::from_secs_f64\<close>.\<close>

definition next_delay :: "f64 \<Rightarrow> RetryBackoff \<Rightarrow> duration option \<times> RetryBackoff" where
  "next_delay jitter_unit b =
     (let index = min (unat (rb_attempt b)) (length RETRY_SECONDS - 1)
      in (from_secs_f64
            (f64_mul (f64_of_nat (RETRY_SECONDS ! index))
               (f64_add (f64_lit (8 / 10)) (f64_mul (f64_lit (4 / 10)) (jitter_clamped jitter_unit)))),
          b\<lparr>rb_attempt := saturating_add (rb_attempt b) 1\<rparr>))"

definition reset :: "RetryBackoff \<Rightarrow> RetryBackoff" where
  "reset b = b\<lparr>rb_attempt := 0\<rparr>"

text \<open>
  The connection errors of the MQTT library, as far as the service tells them apart; a refusal
  carries the broker's return code.
\<close>

datatype ConnectReturnCode =
  Success | BadUserNamePassword | NotAuthorized | OtherReturnCode nat

datatype ConnectionError =
    ConnectionRefused ConnectReturnCode
  | NetworkTimeout | FlushTimeout | IoFailure | MqttState | NotConnAck | RequestsDone

datatype RetryReason = AuthenticationRejected | BrokerRejected | Transport

fun retry_reason :: "ConnectionError \<Rightarrow> RetryReason" where
  "retry_reason (ConnectionRefused code) =
     (if code = BadUserNamePassword \<or> code = NotAuthorized then AuthenticationRejected
      else BrokerRejected)"
| "retry_reason _ = Transport"


section \<open>Jitter and requests\<close>

text \<open>\<open>Jitter::new\<close>: the clock reading (a \<open>u128\<close>, \<^term>\<open>None\<close> before the epoch) and the process id.\<close>

definition jitter_seed :: "nat option \<Rightarrow> u32 \<Rightarrow> u64" where
  "jitter_seed since_epoch pid =
     (let nanos = (case since_epoch of None \<Rightarrow> 0 | Some n \<Rightarrow> n);
          seed = (if nanos < 2 ^ 64 then of_nat nanos else - 1) XOR ucast pid
      in max seed 1)"

definition xorshift :: "u64 \<Rightarrow> u64" where
  "xorshift x0 =
     (let x1 = x0 XOR push_bit 13 x0;
          x2 = x1 XOR drop_bit 7 x1
      in x2 XOR push_bit 17 x2)"

definition next_unit :: "u64 \<Rightarrow> f64 \<times> u64" where
  "next_unit x0 =
     (let x = xorshift x0
      in (f64_div (f64_of_nat (unat x)) (f64_of_nat (unat (- 1 :: u64))), x))"

text \<open>The modification that \<open>request_collection\<close> makes inside the request slot.\<close>

definition request_collection :: "u64 \<Rightarrow> u64 \<times> u64" where
  "request_collection current =
     (let request_id = saturating_add current 1 in (request_id, request_id))"


section \<open>Runs of the machine\<close>

text \<open>The calls the supervisor makes on the machine, as events.\<close>

datatype ProtocolEvent =
    Connected u64
  | OutgoingPublish u16
  | PubAck u16
  | StateAvailable u64
  | ShutdownRequested
  | OutgoingDisconnect
  | ConnectionLost

fun protocol_step :: "ProtocolEvent \<Rightarrow> BootstrapMachine \<Rightarrow> ProtocolAction option \<times> BootstrapMachine" where
  "protocol_step (Connected r) m = map_prod Some id (connected r m)"
| "protocol_step (OutgoingPublish p) m = outgoing_publish p m"
| "protocol_step (PubAck p) m = publish_acknowledged p m"
| "protocol_step (StateAvailable i) m = state_available i m"
| "protocol_step ShutdownRequested m = shutdown m"
| "protocol_step OutgoingDisconnect m = disconnected m"
| "protocol_step ConnectionLost m = (None, connection_lost m)"

text \<open>A step of the machine: an event and the action it answers with, or the read of
  \<open>just_became_online\<close>, which is no event.\<close>

type_synonym protocol_label = "ProtocolEvent \<times> ProtocolAction option"

inductive machine_step :: "BootstrapMachine \<Rightarrow> protocol_label \<Rightarrow> BootstrapMachine \<Rightarrow> bool" where
  machine_event: "protocol_step e m = (a, m') \<Longrightarrow> machine_step m (e, a) m'"

inductive_simps machine_step_iff: "machine_step m (e, a) m'"

lemma machine_step_label: "machine_step m l m' \<Longrightarrow> protocol_step (fst l) m = (snd l, m')"
  by (auto elim: machine_step.cases)

lemmas machine_defs =
  connected_def outgoing_publish_def publish_acknowledged_def state_available_def shutdown_def
  disconnected_def connection_lost_def


section \<open>The contract: a session\<close>

text \<open>
  What a connection promises to the subscribers, without packet identifiers and queues: the
  discovery document, then \<open>online\<close>, then a state that answers the request of this connection,
  then newer states, then \<open>offline\<close> and the disconnect.  \<open>r\<close> is the request of the connection and
  \<open>l\<close> the request of the newest published state.  No session allows \<open>SMisplaced\<close>, an action that
  answers the wrong event.
\<close>

datatype Session =
    Down (newest: u64)
  | Announcing u64 (newest: u64)
  | Available u64 (newest: u64)
  | Current (newest: u64)
  | Leaving (newest: u64)
  | Left (newest: u64)

datatype SessionLabel =
    SAnnounce u64 | SOnline | SState u64 | SOffline | SDisconnect | SLost | SMisplaced

inductive session_step :: "Session \<Rightarrow> SessionLabel \<Rightarrow> Session \<Rightarrow> bool" where
  announce: "session_step s (SAnnounce r) (Announcing r (newest s))"
| online: "session_step (Announcing r l) SOnline (Available r l)"
| first_state: "r \<le> i \<Longrightarrow> session_step (Available r l) (SState i) (Current i)"
| next_state: "l < i \<Longrightarrow> session_step (Current l) (SState i) (Current i)"
| offline_announcing: "session_step (Announcing r l) SOffline (Leaving l)"
| offline_available: "session_step (Available r l) SOffline (Leaving l)"
| offline_current: "session_step (Current l) SOffline (Leaving l)"
| leave: "session_step (Leaving l) SDisconnect (Left l)"
| lost: "session_step s SLost (Down (newest s))"

inductive_simps session_simps [simp]:
  "session_step (Down l) x s"
  "session_step (Announcing r l) x s"
  "session_step (Available r l) x s"
  "session_step (Current l) x s"
  "session_step (Leaving l) x s"
  "session_step (Left l) x s"

inductive_cases session_announceE: "session_step s (SAnnounce r) s'"

text \<open>The session a machine is in, and what a step of the machine is to it.\<close>

definition session_of :: "BootstrapMachine \<Rightarrow> Session" where
  "session_of m =
     (let r = bm_required_request m; l = bm_last_state_request m in
      case bm_phase m of
        Disconnected \<Rightarrow> Down l
      | Stopped \<Rightarrow> Down l
      | DiscoveryQueued \<Rightarrow> Announcing r l
      | DiscoveryAwaitAck _ \<Rightarrow> Announcing r l
      | OnlineQueued \<Rightarrow> Available r l
      | OnlineAwaitAck _ \<Rightarrow> Available r l
      | AwaitFreshState \<Rightarrow> Available r l
      | StateQueued \<Rightarrow> Current l
      | Online \<Rightarrow> Current l
      | ShutdownAwaitOfflineOutgoing _ \<Rightarrow> Leaving l
      | ShutdownAwaitOfflineAck _ \<Rightarrow> Leaving l
      | DisconnectQueued \<Rightarrow> Left l)"

fun session_labels :: "protocol_label \<Rightarrow> SessionLabel list" where
  "session_labels (Connected r, Some PublishDiscovery) = [SAnnounce r]"
| "session_labels (PubAck _, Some PublishOnline) = [SOnline]"
| "session_labels (StateAvailable i, Some PublishState) = [SState i]"
| "session_labels (ShutdownRequested, Some PublishOffline) = [SOffline]"
| "session_labels (PubAck _, Some Disconnect) = [SDisconnect]"
| "session_labels (OutgoingDisconnect, None) = [SLost]"
| "session_labels (ConnectionLost, None) = [SLost]"
| "session_labels (Connected _, None) = [SMisplaced]"
| "session_labels (_, None) = []"
| "session_labels (_, Some _) = [SMisplaced]"

lemma machine_step_refines:
  "runs session_step (session_of m) (session_labels (e, fst (protocol_step e m)))
     (session_of (snd (protocol_step e m)))"
  by (cases e; cases "bm_phase m") (auto simp: machine_defs session_of_def Let_def)

text \<open>The machine after a list of events, and the publications it answered with.\<close>

fun protocol_run :: "ProtocolEvent list \<Rightarrow> BootstrapMachine \<Rightarrow> BootstrapMachine" where
  "protocol_run [] m = m"
| "protocol_run (e # es) m = protocol_run es (snd (protocol_step e m))"

fun session_word :: "ProtocolEvent list \<Rightarrow> BootstrapMachine \<Rightarrow> SessionLabel list" where
  "session_word [] m = []"
| "session_word (e # es) m =
     session_labels (e, fst (protocol_step e m)) @ session_word es (snd (protocol_step e m))"

lemma protocol_run_append: "protocol_run (a @ b) m = protocol_run b (protocol_run a m)"
  by (induction a arbitrary: m) auto

lemma machine_run_refines:
  "runs session_step (session_of m) (session_word es m) (session_of (protocol_run es m))"
proof (induction es arbitrary: m)
  case (Cons e es)
  show ?case using runs_append [OF Cons.IH machine_step_refines] by simp
qed simp

text \<open>
  C5. The machine keeps the promise of a session: from any state, under any sequence of broker
  events, collected states, shutdown requests and connection losses, with any packet identifiers and
  request numbers, the actions it answers with form a run of the contract, and it ends in the session
  its phase says.  A new connection is always answered with the discovery document, \<open>online\<close> only
  answers an acknowledgement, a state only the state that is available, \<open>offline\<close> only a shutdown
  request and the disconnect only an acknowledgement.\<close>

theorem machine_refines_session:
  "runs session_step (session_of m) (session_word es m) (session_of (protocol_run es m))"
  by (rule machine_run_refines)


text \<open>
  The sessions of a word of publications: the request of each connection, with what follows up to
  the loss of the connection or the next one.
\<close>

definition same_session :: "SessionLabel \<Rightarrow> bool" where
  "same_session l \<longleftrightarrow> (case l of SAnnounce _ \<Rightarrow> False | SLost \<Rightarrow> False | _ \<Rightarrow> True)"

lemma same_session_simps [simp]:
  "\<not> same_session (SAnnounce r)" "same_session SOnline" "same_session (SState i)"
  "same_session SOffline" "same_session SDisconnect" "\<not> same_session SLost"
  "same_session SMisplaced"
  by (simp_all add: same_session_def)

fun sessions :: "SessionLabel list \<Rightarrow> (u64 \<times> SessionLabel list) list" where
  "sessions [] = []"
| "sessions (l # ls) =
     (case l of SAnnounce r \<Rightarrow> (r, takeWhile same_session ls) # sessions ls | _ \<Rightarrow> sessions ls)"

text \<open>
  The order of a session after its discovery document: \<open>online\<close> at most once and before any state,
  states with ascending request numbers from \<open>r\<close> on, then at most \<open>offline\<close> and the disconnect.
\<close>

definition closing :: "SessionLabel list \<Rightarrow> bool" where
  "closing w \<longleftrightarrow> w \<in> {[], [SOffline], [SOffline, SDisconnect]}"

definition ascending_states :: "(u64 \<Rightarrow> bool) \<Rightarrow> SessionLabel list \<Rightarrow> bool" where
  "ascending_states P w \<longleftrightarrow>
     (\<exists>is end. w = map SState is @ end \<and> closing end \<and> sorted_wrt (<) is \<and> list_all P is)"

definition in_order :: "u64 \<Rightarrow> SessionLabel list \<Rightarrow> bool" where
  "in_order r w \<longleftrightarrow>
     closing w \<or> (\<exists>w'. w = SOnline # w' \<and> ascending_states (\<lambda>i. r \<le> i) w')"

lemma ascending_states_closing: "closing w \<Longrightarrow> ascending_states P w"
proof -
  assume "closing w"
  then have "w = map SState [] @ w \<and> closing w \<and> sorted_wrt (<) ([] :: u64 list) \<and> list_all P []"
    by simp
  then show ?thesis unfolding ascending_states_def by blast
qed

lemma ascending_states_Cons:
  assumes "ascending_states (\<lambda>j. i < j) w" "P i" "\<And>j. i < j \<Longrightarrow> P j"
  shows "ascending_states P (SState i # w)"
proof -
  from assms(1) obtain "is" "end" where
    w: "w = map SState is @ end" "closing end" "sorted_wrt (<) is" "list_all (\<lambda>j. i < j) is"
    unfolding ascending_states_def by blast
  then have "SState i # w = map SState (i # is) @ end \<and> closing end \<and> sorted_wrt (<) (i # is) \<and>
      list_all P (i # is)"
    using assms(2,3) by (simp add: list_all_iff)
  then show ?thesis unfolding ascending_states_def by blast
qed

lemma session_left_closing:
  "runs session_step (Left l) ls s' \<Longrightarrow> takeWhile same_session ls = []"
  by (cases ls) auto

lemma session_leaving_closing:
  "runs session_step (Leaving l) ls s' \<Longrightarrow> closing (SOffline # takeWhile same_session ls)"
  by (cases ls) (auto simp: closing_def dest: session_left_closing)

lemma session_current_order:
  "runs session_step (Current l) ls s' \<Longrightarrow> ascending_states (\<lambda>i. l < i) (takeWhile same_session ls)"
proof (induction ls arbitrary: l)
  case (Cons x ls)
  consider i where "x = SState i" "l < i" "runs session_step (Current i) ls s'"
    | "x = SOffline" "runs session_step (Leaving l) ls s'"
    | "\<not> same_session x"
    using Cons.prems by auto
  then show ?case
  proof cases
    case (1 i)
    then show ?thesis using Cons.IH [OF 1(3)] by (auto intro: ascending_states_Cons)
  next
    case 2
    then show ?thesis using session_leaving_closing by (simp add: ascending_states_closing)
  qed (simp add: ascending_states_closing closing_def)
qed (simp add: ascending_states_closing closing_def)

lemma session_available_order:
  assumes "runs session_step (Available r l) ls s'"
  shows "ascending_states (\<lambda>i. r \<le> i) (takeWhile same_session ls)"
proof (cases ls)
  case (Cons x xs)
  consider i where "x = SState i" "r \<le> i" "runs session_step (Current i) xs s'"
    | "x = SOffline" "runs session_step (Leaving l) xs s'"
    | "\<not> same_session x"
    using assms Cons by auto
  then show ?thesis
  proof cases
    case (1 i)
    then show ?thesis using Cons session_current_order [OF 1(3)] by (auto intro: ascending_states_Cons)
  next
    case 2
    then show ?thesis using Cons session_leaving_closing by (simp add: ascending_states_closing)
  qed (use Cons in \<open>simp add: ascending_states_closing closing_def\<close>)
qed (simp add: ascending_states_closing closing_def)

lemma session_announcing_order:
  assumes "runs session_step (Announcing r l) ls s'"
  shows "in_order r (takeWhile same_session ls)"
proof (cases ls)
  case (Cons x xs)
  consider "x = SOnline" "runs session_step (Available r l) xs s'"
    | "x = SOffline" "runs session_step (Leaving l) xs s'"
    | "\<not> same_session x"
    using assms Cons by auto
  then show ?thesis
  proof cases
    case 1
    then show ?thesis using session_available_order [OF 1(2)] Cons by (simp add: in_order_def)
  next
    case 2
    then show ?thesis using session_leaving_closing [OF 2(2)] Cons by (simp add: in_order_def)
  qed (use Cons in \<open>simp_all add: in_order_def closing_def\<close>)
qed (simp add: in_order_def closing_def)

lemma sessions_in_order:
  "runs session_step s ls s' \<Longrightarrow> list_all (\<lambda>(r, w). in_order r w) (sessions ls)"
proof (induction ls arbitrary: s)
  case (Cons x ls)
  then obtain m where m: "session_step s x m" "runs session_step m ls s'" by auto
  show ?case
  proof (cases x)
    case (SAnnounce r)
    then have "m = Announcing r (newest s)" using m(1) by (auto elim: session_announceE)
    then show ?thesis using Cons.IH [OF m(2)] session_announcing_order m(2) SAnnounce by auto
  qed (use Cons.IH [OF m(2)] in simp_all)
qed simp

text \<open>The publications of a word that belong to no session; \<open>inside\<close> tells that one is open.\<close>

fun stray_labels :: "bool \<Rightarrow> SessionLabel list \<Rightarrow> SessionLabel list" where
  "stray_labels inside [] = []"
| "stray_labels inside (l # ls) =
     (case l of
        SAnnounce _ \<Rightarrow> stray_labels True ls
      | SLost \<Rightarrow> stray_labels False ls
      | _ \<Rightarrow> if inside then stray_labels True ls else l # stray_labels False ls)"

lemma no_stray_labels:
  "runs session_step s ls s' \<Longrightarrow> inside \<or> (\<exists>l. s = Down l) \<Longrightarrow> stray_labels inside ls = []"
proof (induction ls arbitrary: s inside)
  case (Cons l ls)
  then obtain m where m: "session_step s l m" "runs session_step m ls s'" by auto
  show ?case
  proof (cases "l = SLost")
    case True
    then have "m = Down (newest s)" using m(1) by (auto elim: session_step.cases)
    then show ?thesis using Cons.IH [OF m(2), of False] True by auto
  next
    case False
    have "inside \<or> (\<exists>r. l = SAnnounce r)" using Cons.prems(2) m(1) False by auto
    then show ?thesis using Cons.IH [OF m(2), of True] False by (auto split: SessionLabel.split)
  qed
qed simp


section \<open>The machine's own state\<close>

text \<open>
  What every reachable machine satisfies: its two flags mean what their names say, an awaited
  packet identifier is never zero, and a machine that is online has published a state that answers
  the request of its connection.
\<close>

fun closing_phase :: "Phase \<Rightarrow> bool" where
  "closing_phase (ShutdownAwaitOfflineOutgoing _) = True"
| "closing_phase (ShutdownAwaitOfflineAck _) = True"
| "closing_phase DisconnectQueued = True"
| "closing_phase Stopped = True"
| "closing_phase _ = False"

definition machine_ok :: "BootstrapMachine \<Rightarrow> bool" where
  "machine_ok m \<longleftrightarrow>
     (bm_bootstrap_state_queued m \<longrightarrow> bm_phase m = StateQueued \<or> closing_phase (bm_phase m)) \<and>
     (bm_became_online m \<longrightarrow> bm_phase m = Online \<or> closing_phase (bm_phase m)) \<and>
     (bm_phase m = Online \<or> bm_phase m = StateQueued \<longrightarrow>
        bm_required_request m \<le> bm_last_state_request m) \<and>
     (case bm_phase m of
        DiscoveryAwaitAck p \<Rightarrow> p \<noteq> 0
      | OnlineAwaitAck p \<Rightarrow> p \<noteq> 0
      | ShutdownAwaitOfflineAck p \<Rightarrow> p \<noteq> 0
      | _ \<Rightarrow> True)"

lemma machine_ok_step: "machine_ok m \<Longrightarrow> machine_ok (snd (protocol_step e m))"
  by (cases e; cases "bm_phase m")
    (auto simp: machine_ok_def machine_defs Let_def intro: order_trans less_imp_le)

lemma machine_ok_run: "machine_ok m \<Longrightarrow> machine_ok (protocol_run es m)"
  by (induction es arbitrary: m) (auto intro: machine_ok_step)

lemma machine_ok_default: "machine_ok BootstrapMachine_default"
  by (simp add: machine_ok_def BootstrapMachine_default_def)

text \<open>
  C30. In every state the machine can reach, the flag of a queued bootstrap state and the flag of a
  fresh online status are set only where they belong, no phase waits for packet identifier zero (the
  identifier of unacknowledged publications), and being online means having published a state that
  answers the current connection's request.\<close>

theorem reachable_machine_ok:
  "machine_ok (protocol_run es BootstrapMachine_default)"
  by (rule machine_ok_run [OF machine_ok_default])

text \<open>Events that a phase of the bootstrap ignores.\<close>

fun quiet :: "Phase \<Rightarrow> ProtocolEvent \<Rightarrow> bool" where
  "quiet phase (OutgoingPublish p) =
     (case phase of
        DiscoveryQueued \<Rightarrow> p = 0 | OnlineQueued \<Rightarrow> p = 0 | StateQueued \<Rightarrow> p \<noteq> 0
      | DiscoveryAwaitAck _ \<Rightarrow> True | OnlineAwaitAck _ \<Rightarrow> True | AwaitFreshState \<Rightarrow> True
      | Online \<Rightarrow> True | _ \<Rightarrow> False)"
| "quiet phase (PubAck p) =
     (case phase of
        DiscoveryAwaitAck q \<Rightarrow> p \<noteq> q | OnlineAwaitAck q \<Rightarrow> p \<noteq> q | ShutdownAwaitOfflineAck q \<Rightarrow> p \<noteq> q
      | _ \<Rightarrow> True)"
| "quiet phase (StateAvailable i) = (phase \<noteq> AwaitFreshState \<and> phase \<noteq> Online)"
| "quiet phase _ = False"

lemma quiet_run:
  "list_all (quiet (bm_phase m)) es \<Longrightarrow> protocol_run es m = m \<and> session_word es m = []"
proof (induction es)
  case (Cons e es)
  have "protocol_step e m = (None, m)"
    using Cons.prems by (cases e; cases "bm_phase m") (auto simp: machine_defs)
  then show ?case using Cons by (cases e) auto
qed simp

lemma session_word_append:
  "session_word (a @ b) m = session_word a m @ session_word b (protocol_run a m)"
  by (induction a arbitrary: m) auto

text \<open>
  C10. The bootstrap completes: from any state, once the connection is acknowledged, the two
  publications leave and are acknowledged and a state for the connection's request (or a later one)
  is collected and leaves, the machine is online and reports it once, whatever irrelevant traffic
  (other acknowledgements, unacknowledged publications, early states) comes in between; the three
  publications are made exactly once.\<close>

theorem bootstrap_completes:
  "if p \<noteq> 0 \<and> q \<noteq> 0 \<and> r \<le> i \<and>
      list_all (quiet DiscoveryQueued) n1 \<and> list_all (quiet (DiscoveryAwaitAck p)) n2 \<and>
      list_all (quiet OnlineQueued) n3 \<and> list_all (quiet (OnlineAwaitAck q)) n4 \<and>
      list_all (quiet AwaitFreshState) n5 \<and> list_all (quiet StateQueued) n6
   then
     (let es = Connected r # n1 @ OutgoingPublish p # n2 @ PubAck p # n3 @ OutgoingPublish q # n4 @
                 PubAck q # n5 @ StateAvailable i # n6 @ [OutgoingPublish 0];
          m' = protocol_run es m
      in session_word es m = [SAnnounce r, SOnline, SState i] \<and> is_online m' \<and>
         fst (just_became_online m') \<and> \<not> fst (just_became_online (snd (just_became_online m'))))
   else True"
  by (simp add: Let_def protocol_run_append session_word_append quiet_run machine_defs is_online_def
      just_became_online_def)

text \<open>Events that a phase of the shutdown lets pass.\<close>

fun patient :: "Phase \<Rightarrow> ProtocolEvent \<Rightarrow> bool" where
  "patient phase (OutgoingPublish q) =
     (case phase of ShutdownAwaitOfflineOutgoing skip \<Rightarrow> \<not> skip \<and> q = 0 | _ \<Rightarrow> True)"
| "patient phase (PubAck q) = (phase \<noteq> ShutdownAwaitOfflineAck q)"
| "patient phase (StateAvailable i) = True"
| "patient phase ShutdownRequested = True"
| "patient phase _ = False"

lemma patient_run:
  "closing_phase (bm_phase m) \<Longrightarrow> bm_phase m \<noteq> Stopped \<Longrightarrow> list_all (patient (bm_phase m)) es \<Longrightarrow>
   protocol_run es m = m \<and> session_word es m = []"
proof (induction es)
  case (Cons e es)
  have "protocol_step e m = (None, m)"
    using Cons.prems by (cases e; cases "bm_phase m") (auto simp: machine_defs)
  then show ?case using Cons by (cases e) auto
qed simp

text \<open>
  C17. A graceful shutdown takes leave and waits for the broker to confirm it: from every phase of a
  live connection, a shutdown request publishes \<open>offline\<close>; a publication that is still queued leaves
  first; once \<open>offline\<close> has left under the packet identifier \<open>p\<close>, the machine waits for exactly the
  acknowledgement of \<open>p\<close>, whatever other acknowledgements, publications, collected states and repeated
  shutdown requests come in between, and publishes nothing; that acknowledgement requests the
  disconnect, which is requested once, and the disconnect stops the machine.\<close>

theorem shutdown_takes_leave:
  "if p \<noteq> 0 \<and> \<not> closing_phase (bm_phase m) \<and> bm_phase m \<noteq> Disconnected \<and>
      list_all (patient DisconnectQueued) n0 \<and> list_all (\<lambda>e. \<forall>q. e \<noteq> OutgoingPublish q) n0 \<and>
      list_all (patient (ShutdownAwaitOfflineOutgoing False)) n1 \<and>
      list_all (patient (ShutdownAwaitOfflineAck p)) n2 \<and> list_all (patient DisconnectQueued) n3
   then
     (let queued = bm_phase m \<in> {DiscoveryQueued, OnlineQueued, StateQueued};
          before = ShutdownRequested # n0 @ (if queued then [OutgoingPublish x] else []) @ n1 @
                     OutgoingPublish p # n2;
          after = PubAck p # n3 @ [OutgoingDisconnect]
      in session_word before m = [SOffline] \<and>
         bm_phase (protocol_run before m) = ShutdownAwaitOfflineAck p \<and>
         session_word (before @ after) m = [SOffline, SDisconnect, SLost] \<and>
         is_stopped (protocol_run (before @ after) m))
   else True"
proof -
  let ?queued = "bm_phase m \<in> {DiscoveryQueued, OnlineQueued, StateQueued}"
  let ?m = "m\<lparr>bm_phase := ShutdownAwaitOfflineOutgoing ?queued\<rparr>"
  have first: "list_all (patient (ShutdownAwaitOfflineOutgoing b)) n0"
    if "list_all (patient DisconnectQueued) n0" "list_all (\<lambda>e. \<forall>q. e \<noteq> OutgoingPublish q) n0" for b
  proof -
    have "patient (ShutdownAwaitOfflineOutgoing b) e"
      if "patient DisconnectQueued e" "\<forall>q. e \<noteq> OutgoingPublish q" for e
      using that by (cases e) simp_all
    then show ?thesis using that by (simp add: list_all_iff)
  qed
  have request: "shutdown m = (Some PublishOffline, ?m)"
    if "\<not> closing_phase (bm_phase m)" "bm_phase m \<noteq> Disconnected"
    using that by (cases "bm_phase m") (simp_all add: shutdown_def)
  show ?thesis
    by (cases ?queued)
      (simp_all add: Let_def request first protocol_run_append session_word_append patient_run
        outgoing_publish_def publish_acknowledged_def disconnected_def is_stopped_def del: insert_iff)
qed


section \<open>Delays and jitter\<close>

lemma retry_delay_bounds:
  assumes "0 \<le> x" "x \<le> 1" "1 \<le> b" "b \<le> 60"
  shows "int b * 800000000 \<le> rne (fl (of_nat b * fl (fl (4 / 5) + fl (fl (2 / 5) * x))) * 1000000000)"
    and "rne (fl (of_nat b * fl (fl (4 / 5) + fl (fl (2 / 5) * x))) * 1000000000) \<le> int b * 1200000000"
proof -
  let ?y = "fl (fl (2 / 5) * x)" and ?B = "of_nat b :: rat"
  have B: "1 \<le> ?B" "?B \<le> 60" using assms(3,4) of_nat_mono [of b 60] by simp_all
  have a: "fl (4 / 5) \<in> {799999999999999 / 1000000000000000 .. 800000000000001 / 1000000000000000}"
    using fl_tight [of "4 / 5"] by simp
  have c: "fl (2 / 5) \<in> {399999999999999 / 1000000000000000 .. 400000000000001 / 1000000000000000}"
    using fl_tight [of "2 / 5"] by simp
  have "?y \<le> fl (fl (2 / 5))"
    using assms(1,2) c by (intro fl_mono) (auto intro: mult_left_le)
  also have "\<dots> \<le> 400000000000002 / 1000000000000000"
    using fl_tight(2) [of "fl (2 / 5)"] c by simp
  finally have y: "0 \<le> ?y" "?y \<le> 400000000000002 / 1000000000000000"
    using assms(1) c by (auto intro!: fl_nonneg)
  define z where "z = fl (fl (4 / 5) + ?y)"
  have z: "799999999999998 / 1000000000000000 \<le> z" "z \<le> 1200000000000005 / 1000000000000000"
    using fl_tight [of "fl (4 / 5) + ?y"] a y unfolding z_def by auto
  define w where "w = ?B * z"
  have w: "?B * (799999999999998 / 1000000000000000) \<le> w" "w \<le> ?B * (1200000000000005 / 1000000000000000)"
    using z B unfolding w_def by (intro mult_left_mono; simp)+
  then have fw: "?B * (799999999999990 / 1000000000000000) \<le> fl w"
    "fl w \<le> ?B * (1200000000000020 / 1000000000000000)"
    using fl_tight [of w] B by (simp_all add: algebra_simps)
  show "int b * 800000000 \<le> rne (fl (?B * fl (fl (4 / 5) + ?y)) * 1000000000)"
    unfolding z_def [symmetric] w_def [symmetric] using fw(1) B by (intro le_rne) simp
  show "rne (fl (?B * fl (fl (4 / 5) + ?y)) * 1000000000) \<le> int b * 1200000000"
    unfolding z_def [symmetric] w_def [symmetric] using fw(2) B by (intro rne_le) simp
qed

lemma f64_literals:
  "f64_lit 0 = F64_Fin False 0" "f64_lit 1 = F64_Fin False 1"
  "f64_lit (1 / 2) = F64_Fin False (1 / 2)"
  "f64_lit (4 / 5) = F64_Fin False (fl (4 / 5))" "f64_lit (2 / 5) = F64_Fin False (fl (2 / 5))"
proof -
  show "f64_lit 0 = F64_Fin False 0" "f64_lit 1 = F64_Fin False 1"
    "f64_lit (1 / 2) = F64_Fin False (1 / 2)"
    by (simp_all add: f64_eval)
  have "1 \<le> pow2 1023" using pow2_mono [of 0 1023] by (simp add: pow2_def)
  then have "mk_f64 False q = F64_Fin False (fl q)" if "0 \<le> q" "q \<le> 1" for q
    using that by (intro mk_f64_fin) linarith+
  then show "f64_lit (4 / 5) = F64_Fin False (fl (4 / 5))"
    "f64_lit (2 / 5) = F64_Fin False (fl (2 / 5))"
    by (simp_all add: f64_lit_def f64_of_rat_def)
qed

text \<open>A number with a proper magnitude: every \<open>f64\<close> the program computes is one.\<close>

definition f64_wf :: "f64 \<Rightarrow> bool" where
  "f64_wf v \<longleftrightarrow> (case v of F64_Fin _ m \<Rightarrow> 0 \<le> m | _ \<Rightarrow> True)"

text \<open>The unit that enters the delay lies between 0 and 1, NaN and the infinities included.\<close>

lemma jitter_clamped_unit:
  assumes "f64_wf u"
  obtains t x where "jitter_clamped u = F64_Fin t x" "0 \<le> x" "x \<le> 1" "t \<longrightarrow> x = 0"
proof (cases u)
  case (F64_Fin s m)
  with assms have "0 \<le> m" by (simp add: f64_wf_def)
  with F64_Fin show ?thesis using that
    by (cases s; cases "m = 0"; cases "m \<le> 1")
      (auto simp: jitter_clamped_def f64_is_finite_def f64_clamp_def f64_literals f64_val_def)
qed (use that [of False "1 / 2"] in \<open>auto simp: jitter_clamped_def f64_is_finite_def f64_literals\<close>)

lemma retry_duration:
  assumes "0 \<le> x" "x \<le> 1" "t \<longrightarrow> x = 0" "1 \<le> b" "b \<le> 60"
  shows "\<exists>d. from_secs_f64
      (f64_mul (f64_of_nat b) (f64_add (f64_lit (4 / 5)) (f64_mul (f64_lit (2 / 5)) (F64_Fin t x)))) =
      Some d \<and> b * 800000000 \<le> d \<and> d \<le> b * 1200000000"
proof -
  let ?y = "fl (fl (2 / 5) * x)" and ?z = "fl (fl (4 / 5) + fl (fl (2 / 5) * x))"
  let ?w = "of_nat b * ?z"
  have p: "1 \<le> pow2 1023" "100 \<le> pow2 1023"
    using pow2_mono [of 0 1023] pow2_mono [of 7 1023] by (simp_all add: pow2_def)
  have half: "fl (4 / 5) \<in> {1 / 2 .. 1}" "fl (2 / 5) \<in> {0 .. 1}"
    using fl_tight [of "4 / 5"] fl_tight [of "2 / 5"] by auto
  have y1: "0 \<le> fl (2 / 5) * x" "fl (2 / 5) * x \<le> 1"
    using assms(1,2) half(2) mult_mono [of "fl (2 / 5)" 1 x 1] by auto
  have y: "0 \<le> ?y" "?y \<le> 1"
    using fl_nonneg [OF y1(1)] fl_mono [OF y1] fl_nat_exact [of 1] by auto
  have z1: "1 / 2 \<le> fl (4 / 5) + ?y" "fl (4 / 5) + ?y \<le> 2" using half(1) y by auto
  have z: "0 \<le> ?z" "?z \<le> 2"
    using fl_nonneg [of "fl (4 / 5) + ?y"] z1 fl_mono [of "fl (4 / 5) + ?y" 2] fl_nat_exact [of 2]
    by auto
  have b: "(of_nat b :: rat) \<le> 60" using of_nat_mono [OF assms(5)] by simp
  have w: "0 \<le> ?w" "?w \<le> pow2 1023" 
  proof -
    have "?w \<le> 60 * 2" using b z by (intro mult_mono) auto
    also have "\<dots> \<le> pow2 1023" using pow2_mono [of 7 1023] by (simp add: pow2_def)
    finally show "?w \<le> pow2 1023" .
  qed (use z in simp)
  have m1: "f64_mul (f64_lit (2 / 5)) (F64_Fin t x) = F64_Fin t ?y"
    using y1 p by (simp add: f64_literals mk_f64_fin)
  have "f64_val (F64_Fin False (fl (4 / 5))) + f64_val (F64_Fin t ?y) = fl (4 / 5) + ?y"
    using assms(3) by (simp add: f64_val_def)
  then have m2: "f64_add (f64_lit (4 / 5)) (F64_Fin t ?y) = F64_Fin False ?z"
    using z1 p by (simp add: f64_literals f64_of_rat_def mk_f64_fin)
  have m3: "f64_mul (f64_of_nat b) (F64_Fin False ?z) = F64_Fin False (fl ?w)"
    using w assms(5) by (simp add: f64_of_nat_fin fl_nat_exact mk_f64_fin)
  have r: "int b * 800000000 \<le> rne (fl ?w * 1000000000)" "rne (fl ?w * 1000000000) \<le> int b * 1200000000"
    using retry_delay_bounds [OF assms(1,2,4,5)] by auto
  have "rne (fl ?w * 1000000000) < 2 ^ 64 * 1000000000" using r(2) assms(5) by simp
  then have "from_secs_f64 (F64_Fin False (fl ?w)) = Some (nat (rne (fl ?w * 1000000000)))"
    by (simp add: Let_def)
  moreover have "b * 800000000 \<le> nat (rne (fl ?w * 1000000000))"
    "nat (rne (fl ?w * 1000000000)) \<le> b * 1200000000"
    using r by linarith+
  ultimately show ?thesis unfolding m1 m2 m3 by blast
qed

lemma next_delay_bounds:
  "if f64_wf jitter_unit then
     (case next_delay jitter_unit b of
        (None, _) \<Rightarrow> False
      | (Some d, b') \<Rightarrow>
          (let base = RETRY_SECONDS ! min (unat (rb_attempt b)) 6 in
           8 * from_secs base \<le> 10 * d \<and> 10 * d \<le> 12 * from_secs base \<and>
           unat (rb_attempt b') = min (unat (rb_attempt b) + 1) (2 ^ 32 - 1)))
   else True"
proof (cases "f64_wf jitter_unit")
  case True
  then obtain t x where u: "jitter_clamped jitter_unit = F64_Fin t x" "0 \<le> x" "x \<le> 1" "t \<longrightarrow> x = 0"
    by (rule jitter_clamped_unit)
  let ?b = "RETRY_SECONDS ! min (unat (rb_attempt b)) 6"
  have "?b \<in> set RETRY_SECONDS" by (rule nth_mem) (simp add: RETRY_SECONDS_def)
  then have b: "1 \<le> ?b" "?b \<le> 60" by (auto simp: RETRY_SECONDS_def)
  have last: "length RETRY_SECONDS - 1 = 6" by (simp add: RETRY_SECONDS_def)
  obtain d where d: "fst (next_delay jitter_unit b) = Some d" "?b * 800000000 \<le> d" "d \<le> ?b * 1200000000"
    using retry_duration [OF u(2,3,4) b] u(1) unfolding next_delay_def last by (auto simp: Let_def)
  have "unat (rb_attempt (snd (next_delay jitter_unit b))) = min (unat (rb_attempt b) + 1) (2 ^ 32 - 1)"
    by (simp add: next_delay_def Let_def unat_saturating_add)
  then show ?thesis using d True
    by (cases "next_delay jitter_unit b") (auto simp: from_secs_def Let_def)
qed simp

text \<open>
  C20. A reconnection is tried after the scheduled delay give or take a fifth: after any number of
  failures and for any jitter value, infinities and NaN included, the delay lies between 80% and 120%
  of the entry of the schedule (the last one, 60 s, from the seventh failure on), the conversion to a
  duration never panics, and the attempt counter never wraps around to short delays.\<close>

theorem retry_delay_within_fifth:
  "if f64_wf jitter_unit then
     (case next_delay jitter_unit b of
        (None, _) \<Rightarrow> False
      | (Some d, b') \<Rightarrow>
          (let base = RETRY_SECONDS ! min (unat (rb_attempt b)) 6 in
           8 * from_secs base \<le> 10 * d \<and> 10 * d \<le> 12 * from_secs base \<and>
           unat (rb_attempt b') = min (unat (rb_attempt b) + 1) (2 ^ 32 - 1)))
   else True"
  by (rule next_delay_bounds)

text \<open>The generator: no step of \<open>xorshift\<close> maps a non-zero word to zero.\<close>

lemma xor_zero_eq: "x XOR y = (0 :: 'a::len word) \<Longrightarrow> x = y"
  by (simp add: bit_eq_iff bit_xor_iff)

lemma xor_push_zero:
  assumes "x XOR push_bit k x = (0 :: u64)" "0 < k"
  shows "x = 0"
proof -
  have eq: "x = push_bit k x" using xor_zero_eq [OF assms(1)] .
  have "\<not> bit x n" for n
  proof (induction n rule: less_induct)
    case (less n)
    have "bit x n \<longleftrightarrow> bit (push_bit k x) n" using eq by metis
    then show ?case using less [of "n - k"] assms(2) by (auto simp: bit_push_bit_iff)
  qed
  then show ?thesis by (simp add: bit_eq_iff)
qed

lemma xor_drop_zero:
  assumes "x XOR drop_bit k x = (0 :: u64)" "0 < k"
  shows "x = 0"
proof (rule ccontr)
  assume "x \<noteq> 0"
  then have "0 < unat x" by (simp add: unat_gt_0)
  then have "unat x div 2 ^ k < unat x" using assms(2) by (intro div_less_dividend one_less_power) auto
  moreover have "unat x = unat x div 2 ^ k"
    using xor_zero_eq [OF assms(1)] by (metis unat_drop_bit_eq drop_bit_eq_div)
  ultimately show False by simp
qed

lemma xorshift_nonzero: "x \<noteq> 0 \<Longrightarrow> xorshift x \<noteq> 0"
proof -
  assume "x \<noteq> 0"
  then have 1: "x XOR push_bit 13 x \<noteq> 0" using xor_push_zero [of x 13] by auto
  define y where "y = x XOR push_bit 13 x"
  then have 2: "y XOR drop_bit 7 y \<noteq> 0" using 1 xor_drop_zero [of y 7] by auto
  define z where "z = y XOR drop_bit 7 y"
  then have "z XOR push_bit 17 z \<noteq> 0" using 2 xor_push_zero [of z 17] by auto
  then show ?thesis by (simp only: xorshift_def Let_def y_def z_def not_False_eq_True)
qed

lemma jitter_seed_nonzero: "jitter_seed since_epoch pid \<noteq> 0"
proof -
  have "max w 1 \<noteq> 0" for w :: u64 by (auto simp: max_def)
  then show ?thesis by (simp only: jitter_seed_def Let_def not_False_eq_True)
qed

text \<open>
  C18. The jitter source never degenerates: whatever the clock and the process identifier are, the seed
  is not zero, and from any non-zero state the generator moves to a non-zero state (a zero state
  would repeat zero for ever) and yields a unit above 0 and at most 1.\<close>

theorem jitter_never_degenerates:
  "jitter_seed since_epoch pid \<noteq> 0 \<and>
   (if x = 0 then True
    else
      (case next_unit x of
         (F64_Fin sign u, x') \<Rightarrow> \<not> sign \<and> 0 < u \<and> u \<le> 1 \<and> x' \<noteq> 0
       | _ \<Rightarrow> False))"
proof (cases "x = 0")
  case False
  define n where "n = unat (xorshift x)"
  have n: "0 < n" "n < 2 ^ 64"
    using xorshift_nonzero [OF False] unsigned_less [of "xorshift x"] by (simp_all add: n_def unat_gt_0)
  have max: "f64_of_nat (unat (- 1 :: u64)) = F64_Fin False (2 ^ 64)"
    by (simp add: unat_max_word f64_eval)
  have "(of_nat n :: rat) \<le> of_nat (2 ^ 64)" using n(2) by (intro of_nat_mono) simp
  then have "(of_nat n :: rat) \<le> pow2 64" by (simp add: pow2_def)
  then have "fl (of_nat n) \<le> pow2 64" using fl_mono [of "of_nat n" "pow2 64"] by (simp add: fl_pow2_exact)
  then have le: "fl (of_nat n) \<le> 2 ^ 64" by (simp add: pow2_def)
  have ge: "1 \<le> fl (of_nat n)" using fl_nat_bounds(3) [OF n(1)] .
  define q where "q = fl (of_nat n) / 2 ^ 64"
  have q: "pow2 (- 64) \<le> q" "q \<le> 1" using le ge by (simp_all add: q_def pow2_def field_simps)
  have "fl (pow2 (- 64)) \<le> fl q" using q(1) by (intro fl_mono) (auto simp: less_imp_le)
  moreover have "fl (pow2 (- 64)) = pow2 (- 64)" by (simp add: fl_pow2_exact)
  ultimately have "0 < fl q" using pow2_pos [of "- 64"] by linarith
  moreover have "fl q \<le> 1" using fl_mono [of q 1] q fl_nat_exact [of 1] pow2_pos [of "- 64"] by simp
  moreover have "mk_f64 False q = F64_Fin False (fl q)"
    using q pow2_pos [of "- 64"] pow2_mono [of 0 1023] by (intro mk_f64_fin) (simp_all add: pow2_def)
  ultimately show ?thesis
    using n False xorshift_nonzero [OF False]
    by (simp add: next_unit_def Let_def max f64_of_nat_fin q_def n_def jitter_seed_nonzero)
qed (simp add: jitter_seed_nonzero)

lemma mk_f64_wf: "0 \<le> x \<Longrightarrow> f64_wf (mk_f64 s x)"
  by (simp add: mk_f64_def f64_wf_def fl_nonneg)

lemma f64_div_wf: "f64_wf a \<Longrightarrow> f64_wf b \<Longrightarrow> f64_wf (f64_div a b)"
  by (induction a b rule: f64_div.induct) (auto simp: f64_wf_def intro!: mk_f64_wf [unfolded f64_wf_def])

lemma next_unit_wf: "f64_wf (fst (next_unit x))"
  unfolding next_unit_def Let_def f64_of_nat_def fst_conv
  by (intro f64_div_wf mk_f64_wf of_nat_0_le_iff)

lemma next_delay_total: "f64_wf u \<Longrightarrow> fst (next_delay u b) \<noteq> None"
  using next_delay_bounds [of u b] by (auto split: prod.splits option.splits)

text \<open>A request is newer than every earlier one, until the numbers run out.\<close>

lemma request_collection_newer:
  assumes "current \<noteq> - 1"
  shows "current < fst (request_collection current)"
proof -
  have "unat current \<noteq> unat (- 1 :: u64)" using assms by (metis word_unat_eq_iff)
  then have "unat current < 2 ^ 64 - 1"
    using unat_le_max [of current] unat_max_word [where 'a = 64] by simp
  then show ?thesis
    by (simp add: request_collection_def Let_def word_less_nat_alt unat_saturating_add)
qed

end
