(* ===== verification/Telemetry_Model.thy ===== *)
theory Telemetry_Model
  imports F64
begin

text \<open>
  \<open>src/model.rs\<close>: the versioned telemetry payload.  Each struct is a record with the source's
  fields (prefixed, since several structs share field names), each \<open>Serialize\<close> implementation a
  function into the serde data model (\<open>json\<close>) that may fail with serde's custom error text.
  The date-time library (\<open>time\<close>) is not part of the repository: it is the parameter
  \<open>TimeLib\<close>, whose three functions are the calls \<open>OffsetDateTime::parse(_, &Rfc3339)\<close>,
  \<open>to_offset(UtcOffset::UTC)\<close> and \<open>format(&Rfc3339)\<close>; an \<open>Inl\<close> carries the text of the library's error.
\<close>

definition VERSION :: rstr where "VERSION = lit ''0.1.0''"
definition SCHEMA_VERSION :: u32 where "SCHEMA_VERSION = 1"

section \<open>Timestamps\<close>

record 'dt TimeLib =
  tl_parse :: "rstr \<Rightarrow> rstr + 'dt"
  tl_to_utc :: "'dt \<Rightarrow> 'dt"
  tl_format :: "'dt \<Rightarrow> rstr + rstr"

datatype 'dt ObservationTime = ObservationTime (as_datetime: 'dt)

definition ObservationTime_parse :: "'dt TimeLib \<Rightarrow> rstr \<Rightarrow> rstr + 'dt ObservationTime" where
  "ObservationTime_parse lib value =
     map_ok (\<lambda>timestamp. ObservationTime (tl_to_utc lib timestamp)) (tl_parse lib value)"

definition ObservationTime_display :: "'dt TimeLib \<Rightarrow> 'dt ObservationTime \<Rightarrow> unit + rstr" where
  "ObservationTime_display lib t = map_err (\<lambda>_. ()) (tl_format lib (as_datetime t))"


section \<open>Measurements\<close>

record CpuMetrics =
  cpu_usage_percent :: "f64 option"
  cpu_load_1 :: "f64 option"
  cpu_load_5 :: "f64 option"
  cpu_load_15 :: "f64 option"
  cpu_temperature_c :: "f64 option"
  cpu_frequency_mhz :: "f64 option"

definition CpuMetrics_default :: CpuMetrics where
  "CpuMetrics_default =
     \<lparr>cpu_usage_percent = None, cpu_load_1 = None, cpu_load_5 = None, cpu_load_15 = None,
      cpu_temperature_c = None, cpu_frequency_mhz = None\<rparr>"

record MemoryMetrics =
  mem_total_bytes :: "u64 option"
  mem_available_bytes :: "u64 option"
  mem_used_bytes :: "u64 option"
  mem_used_percent :: "f64 option"

definition MemoryMetrics_default :: MemoryMetrics where
  "MemoryMetrics_default =
     \<lparr>mem_total_bytes = None, mem_available_bytes = None, mem_used_bytes = None,
      mem_used_percent = None\<rparr>"

record SwapMetrics =
  swap_total_bytes :: "u64 option"
  swap_used_bytes :: "u64 option"
  swap_used_percent :: "f64 option"

definition SwapMetrics_default :: SwapMetrics where
  "SwapMetrics_default =
     \<lparr>swap_total_bytes = None, swap_used_bytes = None, swap_used_percent = None\<rparr>"

record DiskMetrics =
  disk_mount :: rstr
  disk_total_bytes :: "u64 option"
  disk_available_bytes :: "u64 option"
  disk_used_bytes :: "u64 option"
  disk_used_percent :: "f64 option"

definition DiskMetrics_unavailable :: "rstr \<Rightarrow> DiskMetrics" where
  "DiskMetrics_unavailable mount =
     \<lparr>disk_mount = mount, disk_total_bytes = None, disk_available_bytes = None,
      disk_used_bytes = None, disk_used_percent = None\<rparr>"

record PowerMetrics =
  pw_throttled_raw :: "rstr option"
  pw_undervoltage_now :: "bool option"
  pw_arm_frequency_capped_now :: "bool option"
  pw_throttled_now :: "bool option"
  pw_soft_temperature_limit_now :: "bool option"
  pw_undervoltage_since_boot :: "bool option"
  pw_arm_frequency_capped_since_boot :: "bool option"
  pw_throttled_since_boot :: "bool option"
  pw_soft_temperature_limit_since_boot :: "bool option"

definition PowerMetrics_default :: PowerMetrics where
  "PowerMetrics_default =
     \<lparr>pw_throttled_raw = None, pw_undervoltage_now = None, pw_arm_frequency_capped_now = None,
      pw_throttled_now = None, pw_soft_temperature_limit_now = None,
      pw_undervoltage_since_boot = None, pw_arm_frequency_capped_since_boot = None,
      pw_throttled_since_boot = None, pw_soft_temperature_limit_since_boot = None\<rparr>"

definition has_current_problem :: "PowerMetrics \<Rightarrow> bool" where
  "has_current_problem p =
     list_ex (\<lambda>flag. flag = Some True)
       [pw_undervoltage_now p, pw_arm_frequency_capped_now p, pw_throttled_now p,
        pw_soft_temperature_limit_now p]"

definition has_historical_problem :: "PowerMetrics \<Rightarrow> bool" where
  "has_historical_problem p =
     list_ex (\<lambda>flag. flag = Some True)
       [pw_undervoltage_since_boot p, pw_arm_frequency_capped_since_boot p,
        pw_throttled_since_boot p, pw_soft_temperature_limit_since_boot p]"


section \<open>Health\<close>

record CollectorError =
  ce_metric :: rstr
  ce_message :: rstr

definition CollectorError_new :: "rstr \<Rightarrow> rstr \<Rightarrow> CollectorError" where
  "CollectorError_new metric message = \<lparr>ce_metric = metric, ce_message = message\<rparr>"

datatype HealthStatus = HealthOk | HealthWarning | HealthCritical | HealthDegraded

definition HealthStatus_evaluate :: "PowerMetrics \<Rightarrow> bool \<Rightarrow> HealthStatus" where
  "HealthStatus_evaluate pw has_collector_errors =
     (if has_current_problem pw then HealthCritical
      else if has_collector_errors then HealthDegraded
      else if has_historical_problem pw then HealthWarning
      else HealthOk)"

record Health =
  h_status :: HealthStatus
  h_collector_errors :: "CollectorError list"

definition Health_evaluate :: "PowerMetrics \<Rightarrow> CollectorError list \<Rightarrow> Health" where
  "Health_evaluate pw collector_errors =
     \<lparr>h_status = HealthStatus_evaluate pw (collector_errors \<noteq> []),
      h_collector_errors = collector_errors\<rparr>"

definition refresh_status :: "Health \<Rightarrow> PowerMetrics \<Rightarrow> Health" where
  "refresh_status h pw =
     h\<lparr>h_status := HealthStatus_evaluate pw (h_collector_errors h \<noteq> [])\<rparr>"


section \<open>The payload\<close>

record ServiceMetrics =
  sv_version :: rstr
  sv_collection_duration_ms :: u64

definition ServiceMetrics_new :: "u64 \<Rightarrow> ServiceMetrics" where
  "ServiceMetrics_new ms = \<lparr>sv_version = VERSION, sv_collection_duration_ms = ms\<rparr>"

record TelemetryReadings =
  rd_uptime_seconds :: "u64 option"
  rd_cpu :: CpuMetrics
  rd_memory :: MemoryMetrics
  rd_swap :: SwapMetrics
  rd_disk :: DiskMetrics
  rd_power :: PowerMetrics

definition TelemetryReadings_unavailable :: "rstr \<Rightarrow> TelemetryReadings" where
  "TelemetryReadings_unavailable mount =
     \<lparr>rd_uptime_seconds = None, rd_cpu = CpuMetrics_default, rd_memory = MemoryMetrics_default,
      rd_swap = SwapMetrics_default, rd_disk = DiskMetrics_unavailable mount,
      rd_power = PowerMetrics_default\<rparr>"

record 'dt TelemetryState =
  st_schema_version :: u32
  st_observed_at :: "'dt ObservationTime"
  st_uptime_seconds :: "u64 option"
  st_cpu :: CpuMetrics
  st_memory :: MemoryMetrics
  st_swap :: SwapMetrics
  st_disk :: DiskMetrics
  st_power :: PowerMetrics
  st_health :: Health
  st_service :: ServiceMetrics

definition TelemetryState_new ::
  "'dt ObservationTime \<Rightarrow> TelemetryReadings \<Rightarrow> CollectorError list \<Rightarrow> u64 \<Rightarrow> 'dt TelemetryState"
where
  "TelemetryState_new observed_at readings collector_errors collection_duration_ms =
     \<lparr>st_schema_version = SCHEMA_VERSION,
      st_observed_at = observed_at,
      st_uptime_seconds = rd_uptime_seconds readings,
      st_cpu = rd_cpu readings,
      st_memory = rd_memory readings,
      st_swap = rd_swap readings,
      st_disk = rd_disk readings,
      st_power = rd_power readings,
      st_health = Health_evaluate (rd_power readings) collector_errors,
      st_service = ServiceMetrics_new collection_duration_ms\<rparr>"

definition refresh_health :: "'dt TelemetryState \<Rightarrow> 'dt TelemetryState" where
  "refresh_health st = st\<lparr>st_health := refresh_status (st_health st) (st_power st)\<rparr>"


section \<open>Rounding at the serialization boundary\<close>

definition rounded_metric :: "f64 \<Rightarrow> nat \<Rightarrow> f64 option" where
  "rounded_metric value decimal_places =
     (if \<not> f64_is_finite value then None
      else if 2 ^ 31 \<le> decimal_places then None
      else
        let factor = f64_powi (f64_lit 10) decimal_places in
        if \<not> f64_is_finite factor then None
        else
          let rounded = f64_div (f64_round (f64_mul value factor)) factor in
          if \<not> f64_is_finite rounded then None
          else Some (if f64_eq rounded (f64_lit 0) then f64_lit 0 else rounded))"


section \<open>Serialization\<close>

datatype json =
    JNull | JBool bool | JU64 nat | JF64 f64 | JStr rstr | JArr "json list"
  | JObj "(rstr \<times> json) list"

text \<open>A derived \<open>Serialize\<close>: the fields in order; the first failing field is the error.\<close>

fun serialize_fields :: "(rstr \<times> (rstr + json)) list \<Rightarrow> rstr + (rstr \<times> json) list" where
  "serialize_fields [] = Inr []"
| "serialize_fields ((k, v) # fs) =
     and_then v (\<lambda>j. map_ok (Cons (k, j)) (serialize_fields fs))"

definition serialize_struct :: "(rstr \<times> (rstr + json)) list \<Rightarrow> rstr + json" where
  "serialize_struct fs = map_ok JObj (serialize_fields fs)"

definition json_opt :: "('a \<Rightarrow> json) \<Rightarrow> 'a option \<Rightarrow> json" where
  "json_opt f v = (case v of None \<Rightarrow> JNull | Some x \<Rightarrow> f x)"

definition json_u64 :: "u64 option \<Rightarrow> rstr + json" where
  "json_u64 v = Inr (json_opt (\<lambda>w. JU64 (unat w)) v)"

definition json_bool :: "bool option \<Rightarrow> rstr + json" where
  "json_bool v = Inr (json_opt JBool v)"

definition json_str :: "rstr \<Rightarrow> rstr + json" where
  "json_str s = Inr (JStr s)"

definition serialize_optional_f64 :: "nat \<Rightarrow> f64 option \<Rightarrow> rstr + json" where
  "serialize_optional_f64 decimal_places value =
     (case value of
        None \<Rightarrow> Inr JNull
      | Some v \<Rightarrow>
          and_then (ok_or (rounded_metric v decimal_places) (lit ''measurement must be finite''))
            (\<lambda>rounded. Inr (JF64 rounded)))"

definition serialize_optional_one_decimal :: "f64 option \<Rightarrow> rstr + json" where
  "serialize_optional_one_decimal value = serialize_optional_f64 1 value"

definition serialize_optional_two_decimals :: "f64 option \<Rightarrow> rstr + json" where
  "serialize_optional_two_decimals value = serialize_optional_f64 2 value"

text \<open>\<open>value\<close> is the result of serde's own \<open>Option::<f64>::deserialize\<close>.\<close>

definition deserialize_optional_finite :: "rstr + f64 option \<Rightarrow> rstr + f64 option" where
  "deserialize_optional_finite value =
     and_then value
       (\<lambda>v. case v of
              Some x \<Rightarrow> if \<not> f64_is_finite x then Inl (lit ''measurement must be finite'') else Inr v
            | None \<Rightarrow> Inr v)"

definition ObservationTime_serialize :: "'dt TimeLib \<Rightarrow> 'dt ObservationTime \<Rightarrow> rstr + json" where
  "ObservationTime_serialize lib t =
     and_then (tl_format lib (as_datetime t)) (\<lambda>value. Inr (JStr value))"

definition ObservationTime_deserialize ::
  "'dt TimeLib \<Rightarrow> rstr + rstr \<Rightarrow> rstr + 'dt ObservationTime" where
  "ObservationTime_deserialize lib value =
     and_then value (ObservationTime_parse lib)"

definition CpuMetrics_serialize :: "CpuMetrics \<Rightarrow> rstr + json" where
  "CpuMetrics_serialize m =
     serialize_struct
       [(lit ''usage_percent'', serialize_optional_one_decimal (cpu_usage_percent m)),
        (lit ''load_1'', serialize_optional_two_decimals (cpu_load_1 m)),
        (lit ''load_5'', serialize_optional_two_decimals (cpu_load_5 m)),
        (lit ''load_15'', serialize_optional_two_decimals (cpu_load_15 m)),
        (lit ''temperature_c'', serialize_optional_one_decimal (cpu_temperature_c m)),
        (lit ''frequency_mhz'', serialize_optional_one_decimal (cpu_frequency_mhz m))]"

definition MemoryMetrics_serialize :: "MemoryMetrics \<Rightarrow> rstr + json" where
  "MemoryMetrics_serialize m =
     serialize_struct
       [(lit ''total_bytes'', json_u64 (mem_total_bytes m)),
        (lit ''available_bytes'', json_u64 (mem_available_bytes m)),
        (lit ''used_bytes'', json_u64 (mem_used_bytes m)),
        (lit ''used_percent'', serialize_optional_one_decimal (mem_used_percent m))]"

definition SwapMetrics_serialize :: "SwapMetrics \<Rightarrow> rstr + json" where
  "SwapMetrics_serialize m =
     serialize_struct
       [(lit ''total_bytes'', json_u64 (swap_total_bytes m)),
        (lit ''used_bytes'', json_u64 (swap_used_bytes m)),
        (lit ''used_percent'', serialize_optional_one_decimal (swap_used_percent m))]"

definition DiskMetrics_serialize :: "DiskMetrics \<Rightarrow> rstr + json" where
  "DiskMetrics_serialize m =
     serialize_struct
       [(lit ''mount'', json_str (disk_mount m)),
        (lit ''total_bytes'', json_u64 (disk_total_bytes m)),
        (lit ''available_bytes'', json_u64 (disk_available_bytes m)),
        (lit ''used_bytes'', json_u64 (disk_used_bytes m)),
        (lit ''used_percent'', serialize_optional_one_decimal (disk_used_percent m))]"

definition PowerMetrics_serialize :: "PowerMetrics \<Rightarrow> rstr + json" where
  "PowerMetrics_serialize p =
     serialize_struct
       [(lit ''throttled_raw'', Inr (json_opt JStr (pw_throttled_raw p))),
        (lit ''undervoltage_now'', json_bool (pw_undervoltage_now p)),
        (lit ''arm_frequency_capped_now'', json_bool (pw_arm_frequency_capped_now p)),
        (lit ''throttled_now'', json_bool (pw_throttled_now p)),
        (lit ''soft_temperature_limit_now'', json_bool (pw_soft_temperature_limit_now p)),
        (lit ''undervoltage_since_boot'', json_bool (pw_undervoltage_since_boot p)),
        (lit ''arm_frequency_capped_since_boot'', json_bool (pw_arm_frequency_capped_since_boot p)),
        (lit ''throttled_since_boot'', json_bool (pw_throttled_since_boot p)),
        (lit ''soft_temperature_limit_since_boot'',
           json_bool (pw_soft_temperature_limit_since_boot p))]"

fun HealthStatus_name :: "HealthStatus \<Rightarrow> rstr" where
  "HealthStatus_name HealthOk = lit ''ok''"
| "HealthStatus_name HealthWarning = lit ''warning''"
| "HealthStatus_name HealthCritical = lit ''critical''"
| "HealthStatus_name HealthDegraded = lit ''degraded''"

definition CollectorError_json :: "CollectorError \<Rightarrow> json" where
  "CollectorError_json e =
     JObj [(lit ''metric'', JStr (ce_metric e)), (lit ''message'', JStr (ce_message e))]"

definition Health_serialize :: "Health \<Rightarrow> rstr + json" where
  "Health_serialize h =
     serialize_struct
       [(lit ''status'', json_str (HealthStatus_name (h_status h))),
        (lit ''collector_errors'', Inr (JArr (map CollectorError_json (h_collector_errors h))))]"

definition ServiceMetrics_serialize :: "ServiceMetrics \<Rightarrow> rstr + json" where
  "ServiceMetrics_serialize s =
     serialize_struct
       [(lit ''version'', json_str (sv_version s)),
        (lit ''collection_duration_ms'', Inr (JU64 (unat (sv_collection_duration_ms s))))]"

definition TelemetryState_serialize :: "'dt TimeLib \<Rightarrow> 'dt TelemetryState \<Rightarrow> rstr + json" where
  "TelemetryState_serialize lib st =
     serialize_struct
       [(lit ''schema_version'', Inr (JU64 (unat (st_schema_version st)))),
        (lit ''observed_at'', ObservationTime_serialize lib (st_observed_at st)),
        (lit ''uptime_seconds'', json_u64 (st_uptime_seconds st)),
        (lit ''cpu'', CpuMetrics_serialize (st_cpu st)),
        (lit ''memory'', MemoryMetrics_serialize (st_memory st)),
        (lit ''swap'', SwapMetrics_serialize (st_swap st)),
        (lit ''disk'', DiskMetrics_serialize (st_disk st)),
        (lit ''power'', PowerMetrics_serialize (st_power st)),
        (lit ''health'', Health_serialize (st_health st)),
        (lit ''service'', ServiceMetrics_serialize (st_service st))]"


section \<open>Facts: serialization\<close>

lemma serialize_fields_eq_Inr:
  "serialize_fields fs = Inr kvs \<longleftrightarrow>
     list_all2 (\<lambda>(k, v) (k', j). k = k' \<and> v = Inr j) fs kvs"
proof (induction fs arbitrary: kvs)
  case (Cons f fs)
  then show ?case by (cases f; cases kvs) (auto simp: result_iff)
qed auto

lemma serialize_struct_eq_Inr:
  "serialize_struct fs = Inr j \<longleftrightarrow>
     (\<exists>kvs. j = JObj kvs \<and> list_all2 (\<lambda>(k, v) (k', j). k = k' \<and> v = Inr j) fs kvs)"
  by (auto simp: serialize_struct_def result_iff serialize_fields_eq_Inr)

text \<open>The names of an object's fields, in order.\<close>

fun json_keys :: "json \<Rightarrow> rstr list" where
  "json_keys (JObj kvs) = map fst kvs"
| "json_keys _ = []"

lemma serialize_struct_keys:
  assumes "serialize_struct fs = Inr j"
  shows "json_keys j = map fst fs"
proof -
  obtain kvs where j: "j = JObj kvs"
    and all: "list_all2 (\<lambda>(k, v) (k', j). k = k' \<and> v = Inr j) fs kvs"
    using assms unfolding serialize_struct_eq_Inr by blast
  from all have "map fst fs = map fst kvs" by (induction rule: list_all2_induct) auto
  with j show ?thesis by simp
qed

text \<open>The value of a field of an object.\<close>

fun json_get :: "json \<Rightarrow> rstr \<Rightarrow> json option" where
  "json_get (JObj kvs) k = map_of kvs k"
| "json_get _ k = None"

text \<open>The value at the end of a path of field names.\<close>

fun json_at :: "json \<Rightarrow> rstr list \<Rightarrow> json option" where
  "json_at j [] = Some j"
| "json_at j (k # ks) = (case json_get j k of None \<Rightarrow> None | Some j' \<Rightarrow> json_at j' ks)"

lemma serialize_struct_cases:
  assumes "list_all (\<lambda>(k, v). \<exists>j. v = Inr j) fs"
  shows "\<exists>j. serialize_struct fs = Inr j"
  using assms
proof (induction fs)
  case (Cons f fs)
  then show ?case by (cases f) (auto simp: serialize_struct_def result_iff)
qed (simp add: serialize_struct_def)


section \<open>Facts: rounding\<close>

lemma powi_10: "f64_powi (f64_lit 10) 1 = F64_Fin False 10" "f64_powi (f64_lit 10) 2 = F64_Fin False 100"
proof -
  have ten: "f64_lit 10 = F64_Fin False 10" and one: "f64_lit 1 = F64_Fin False 1"
    by (simp_all add: f64_eval)
  show "f64_powi (f64_lit 10) 1 = F64_Fin False 10"
    unfolding f64_powi_def ten one by (subst powi_loop.simps) (simp add: f64_eval)
  show "f64_powi (f64_lit 10) 2 = F64_Fin False 100"
    unfolding f64_powi_def ten one
    by (subst powi_loop.simps, simp, subst powi_loop.simps) (simp add: f64_eval)
qed

text \<open>The two factors the payload uses.\<close>

definition metric_factor :: "nat \<Rightarrow> rat" where
  "metric_factor decimal_places = 10 ^ decimal_places"

definition rounded_magnitude :: "rat \<Rightarrow> nat \<Rightarrow> rat" where
  "rounded_magnitude m d =
     fl (of_int \<lfloor>fl (m * metric_factor d) + 1 / 2\<rfloor> / metric_factor d)"

lemma fl_subnormal_error:
  assumes "0 \<le> x"
  shows "\<bar>fl x - x\<bar> \<le> x / 2 ^ 53 + pow2 (- 1075)"
proof (cases "x = 0")
  case False
  have pos: "0 < x" using assms False by simp
  show ?thesis
  proof (cases "pow2 (- 1022) \<le> x")
    case True
    then show ?thesis using fl_rel_error [OF True] pow2_pos [of "- 1075"] by linarith
  next
    case sub: False
    have "pow2 (rexp x) < pow2 (- 1022)" using sub rexp_bounds(1) [OF pos] by linarith
    then have "ulp_exp x = - 1074" by (simp add: pow2_less_iff ulp_exp_def)
    moreover have "pow2 (- 1074) / 2 = pow2 (- 1075)"
      using pow2_Suc [of "- 1075"] by simp
    ultimately show ?thesis using fl_abs_error [OF pos] pos by simp
  qed
qed (simp add: less_imp_le)

lemma rounded_magnitude_bounds:
  assumes "0 \<le> m" "m \<le> pow2 1000" and d: "d = 1 \<or> d = 2"
  shows "fl (m * metric_factor d) \<le> pow2 1007"
    and "of_int \<lfloor>fl (m * metric_factor d) + 1 / 2\<rfloor> / metric_factor d \<le> pow2 1008"
    and "0 \<le> \<lfloor>fl (m * metric_factor d) + 1 / 2\<rfloor>"
proof -
  have f: "1 \<le> metric_factor d" "metric_factor d \<le> 128" using d by (auto simp: metric_factor_def)
  have "m * metric_factor d \<le> pow2 1000 * 128" using assms f by (intro mult_mono) auto
  also have "\<dots> = pow2 1007" using pow2_add [of 1000 7] by (simp add: pow2_def)
  finally show p: "fl (m * metric_factor d) \<le> pow2 1007"
    using fl_mono [of "m * metric_factor d" "pow2 1007"] assms f by (simp add: fl_pow2_exact)
  have nn: "0 \<le> fl (m * metric_factor d)" using assms f by (simp add: fl_nonneg)
  then show "0 \<le> \<lfloor>fl (m * metric_factor d) + 1 / 2\<rfloor>" by simp
  then have k: "(0 :: rat) \<le> of_int \<lfloor>fl (m * metric_factor d) + 1 / 2\<rfloor>" by linarith
  have "of_int \<lfloor>fl (m * metric_factor d) + 1 / 2\<rfloor> / metric_factor d
      \<le> of_int \<lfloor>fl (m * metric_factor d) + 1 / 2\<rfloor>"
    using f k by (simp add: divide_le_eq mult_le_cancel_left1)
  also have "\<dots> \<le> pow2 1007 + 1 / 2" using p of_int_floor_le [of "fl (m * metric_factor d) + 1 / 2"] by linarith
  also have "\<dots> \<le> pow2 1008"
    using pow2_Suc [of 1007] pow2_mono [of 0 1007] by (simp add: pow2_def)
  finally show "of_int \<lfloor>fl (m * metric_factor d) + 1 / 2\<rfloor> / metric_factor d \<le> pow2 1008" .
qed

lemma rounded_metric_fin:
  assumes "0 \<le> m" "m \<le> pow2 1000" and d: "d = 1 \<or> d = 2"
  shows "rounded_metric (F64_Fin s m) d =
    Some (F64_Fin (s \<and> rounded_magnitude m d \<noteq> 0) (rounded_magnitude m d))"
proof -
  have factor: "f64_powi (f64_lit 10) d = F64_Fin False (metric_factor d)"
    using d powi_10 by (auto simp: metric_factor_def)
  have f: "0 < metric_factor d" by (simp add: metric_factor_def)
  note b = rounded_magnitude_bounds [OF assms]
  have big: "pow2 1008 \<le> pow2 1023" "pow2 1007 < 2 ^ 1024"
    using pow2_mono [of 1008 1023] pow2_less_iff [of 1007 1024] by (simp_all add: pow2_def)
  have "f64_mul (F64_Fin s m) (F64_Fin False (metric_factor d)) = F64_Fin s (fl (m * metric_factor d))"
    using b(1) big(2) by (simp add: mk_f64_def)
  moreover have "mk_f64 s (of_int \<lfloor>fl (m * metric_factor d) + 1 / 2\<rfloor> / metric_factor d)
      = F64_Fin s (rounded_magnitude m d)"
    unfolding rounded_magnitude_def using b(2,3) big(1) f by (intro mk_f64_fin) simp_all
  moreover have "f64_lit 0 = F64_Fin False 0" by (simp add: f64_lit_def f64_of_rat_def)
  moreover have "d < 2 ^ 31" using d by auto
  ultimately show ?thesis
    using f unfolding rounded_metric_def factor
    by (simp add: f64_is_finite_def Let_def f64_val_def)
qed


lemma pow2_values:
  "(2 :: rat) ^ 51 = 2251799813685248" "(2 :: rat) ^ 53 = 9007199254740992"
  "(2 :: rat) ^ 60 = 1152921504606846976"
  by simp_all

text \<open>Distance between a measurement and its published value.\<close>

lemma rounded_magnitude_error:
  assumes "0 \<le> m" and d: "d = 1 \<or> d = 2"
  shows "\<bar>rounded_magnitude m d - m\<bar> \<le> 1 / (2 * metric_factor d) + (m + 1) / 2 ^ 51"
proof -
  define f where "f = metric_factor d"
  have f: "1 \<le> f" "0 < f" using d by (auto simp: f_def metric_factor_def)
  define p where "p = fl (m * f)"
  define k :: rat where "k = of_int \<lfloor>p + 1 / 2\<rfloor>"
  define r where "r = fl (k / f)"
  have tiny: "pow2 (- 1075) \<le> 1 / 2 ^ 60"
    using pow2_mono [of "- 1075" "- 60"] by (simp add: pow2_def)
  have p: "\<bar>p - m * f\<bar> \<le> m * f / 2 ^ 53 + 1 / 2 ^ 60"
    using fl_subnormal_error [of "m * f"] assms f tiny by (simp add: p_def)
  have k: "\<bar>k - p\<bar> \<le> 1 / 2" unfolding k_def abs_le_iff
    using floor_correct [of "p + 1 / 2"] by linarith
  have "0 \<le> p" using assms f by (simp add: p_def fl_nonneg)
  then have k0: "0 \<le> k" by (simp add: k_def)
  have r: "\<bar>r - k / f\<bar> \<le> k / f / 2 ^ 53 + 1 / 2 ^ 60"
    using fl_subnormal_error [of "k / f"] k0 f tiny by (simp add: r_def)
  have kf: "\<bar>k - m * f\<bar> \<le> 1 / 2 + m * f / 2 ^ 53 + 1 / 2 ^ 60" using p k by linarith
  have "k / f - m = (k - m * f) / f" using f by (simp add: field_simps)
  then have "\<bar>k / f - m\<bar> = \<bar>k - m * f\<bar> / f" using f by simp
  also have "\<dots> \<le> (1 / 2 + m * f / 2 ^ 53 + 1 / 2 ^ 60) / f"
    using kf f by (intro divide_right_mono) simp_all
  also have "\<dots> = 1 / (2 * f) + m / 2 ^ 53 + 1 / 2 ^ 60 / f"
    using f by (simp add: add_divide_distrib)
  also have "\<dots> \<le> 1 / (2 * f) + m / 2 ^ 53 + 1 / 2 ^ 60"
    by (intro add_mono order_refl) (use f in \<open>simp add: divide_le_eq\<close>)
  finally have km: "\<bar>k / f - m\<bar> \<le> 1 / (2 * f) + m / 2 ^ 53 + 1 / 2 ^ 60" .
  have "1 / (2 * f) \<le> 1" using f by (simp add: divide_le_eq)
  with km assms have kf2: "k / f \<le> 2 * m + 2" unfolding pow2_values by linarith
  have "\<bar>r - m\<bar> \<le> 1 / (2 * f) + (m + 1) / 2 ^ 51"
  proof -
    define x h where "x = k / f" and "h = 1 / (2 * f)"
    show ?thesis
      using r km kf2 assms(1)
      unfolding x_def [symmetric] h_def [symmetric] pow2_values abs_le_iff add_divide_distrib
      by simp
  qed
  then show ?thesis by (simp add: r_def k_def p_def f_def rounded_magnitude_def)
qed

lemma fl_quotient_back:
  assumes "0 \<le> k" "k < 2 ^ 49" "1 \<le> f" "f \<le> 128"
  shows "\<lfloor>fl (fl (of_int k / f) * f) + 1 / 2\<rfloor> = k"
proof -
  define q where "q = fl (of_int k / f)"
  have kf: "0 \<le> of_int k / f" using assms by simp
  have tiny: "pow2 (- 1075) \<le> 1 / 2 ^ 60"
    using pow2_mono [of "- 1075" "- 60"] by (simp add: pow2_def)
  have "of_int k < (of_int (2 ^ 49) :: rat)" using assms(2) by (simp only: of_int_less_iff)
  then have K: "(of_int k :: rat) < 2 ^ 49" by simp
  have q0: "0 \<le> q" using kf by (simp add: q_def fl_nonneg)
  have "\<bar>q - of_int k / f\<bar> \<le> of_int k / f / 2 ^ 53 + 1 / 2 ^ 60"
    using fl_subnormal_error [OF kf] tiny by (simp add: q_def)
  then have "\<bar>q - of_int k / f\<bar> * f \<le> (of_int k / f / 2 ^ 53 + 1 / 2 ^ 60) * f"
    using assms by (intro mult_right_mono) simp_all
  moreover have "\<bar>q - of_int k / f\<bar> * f = \<bar>q * f - of_int k\<bar>"
  proof -
    have "q * f - of_int k = (q - of_int k / f) * f" using assms by (simp add: field_simps)
    then show ?thesis using assms by (simp add: abs_mult)
  qed
  moreover have "(of_int k / f / 2 ^ 53 + 1 / 2 ^ 60) * f = of_int k / 2 ^ 53 + f / 2 ^ 60"
    using assms by (simp add: distrib_right)
  ultimately have "\<bar>q * f - of_int k\<bar> \<le> of_int k / 2 ^ 53 + f / 2 ^ 60" by linarith
  moreover have "of_int k / 2 ^ 53 \<le> (1 / 16 :: rat)" "f / 2 ^ 60 \<le> 1 / 16"
    using K assms(4) by simp_all
  ultimately have a: "\<bar>q * f - of_int k\<bar> \<le> 1 / 8" by linarith
  have qf: "0 \<le> q * f" using q0 assms by simp
  have "\<bar>fl (q * f) - q * f\<bar> \<le> q * f / 2 ^ 53 + 1 / 2 ^ 60"
    using fl_subnormal_error [OF qf] tiny by linarith
  moreover have "q * f / 2 ^ 53 \<le> 1 / 8"
  proof -
    have "q * f \<le> of_int k + 1 / 8" using a by linarith
    moreover have "of_int k / 2 ^ 53 \<le> (1 / 16 :: rat)" using K by simp
    ultimately show ?thesis unfolding pow2_values by linarith
  qed
  ultimately have "\<bar>fl (q * f) - of_int k\<bar> \<le> 3 / 8" using a unfolding pow2_values by linarith
  then have "of_int k \<le> fl (q * f) + 1 / 2" "fl (q * f) + 1 / 2 < of_int k + 1" by linarith+
  then show ?thesis by (simp add: q_def floor_unique)
qed

lemma rounded_magnitude_idem:
  assumes "0 \<le> m" "m \<le> 2 ^ 40" and d: "d = 1 \<or> d = 2"
  shows "rounded_magnitude (rounded_magnitude m d) d = rounded_magnitude m d"
proof -
  define f where "f = metric_factor d"
  have f: "1 \<le> f" "f \<le> 128" using d by (auto simp: f_def metric_factor_def)
  define k where "k = \<lfloor>fl (m * f) + 1 / 2\<rfloor>"
  have "m * f \<le> 2 ^ 40 * 128" using assms f by (intro mult_mono) simp_all
  then have "fl (m * f) \<le> fl (pow2 47)"
    using assms f by (intro fl_mono) (simp_all add: pow2_def)
  then have "fl (m * f) \<le> 2 ^ 47" by (simp only: fl_pow2_exact) (simp add: pow2_def)
  then have "fl (m * f) + 1 / 2 < of_int (2 ^ 49)" by simp
  then have k1: "k < 2 ^ 49" unfolding k_def floor_less_iff .
  have k0: "0 \<le> k" using assms f by (simp add: k_def fl_nonneg)
  have "rounded_magnitude m d = fl (of_int k / f)"
    by (simp add: rounded_magnitude_def k_def f_def)
  moreover have "rounded_magnitude (fl (of_int k / f)) d = fl (of_int k / f)"
    unfolding rounded_magnitude_def f_def [symmetric]
    by (simp only: fl_quotient_back [OF k0 k1 f])
  ultimately show ?thesis by simp
qed

lemma rounded_percentage:
  assumes "0 \<le> m" "m \<le> 100 + 1 / 10 ^ 12"
  shows "rounded_magnitude m 1 \<le> 100"
proof -
  have "fl (m * 10) \<le> fl (of_nat 4001 * pow2 (- 2))"
    using assms by (intro fl_mono) (simp_all add: pow2_def)
  also have "\<dots> = of_nat 4001 * pow2 (- 2)" by (rule fl_exact) simp_all
  also have "\<dots> = 1000 + 1 / 4" by (simp add: pow2_def)
  finally have "fl (m * 10) + 1 / 2 < of_int 1001" by simp
  then have "\<lfloor>fl (m * 10) + 1 / 2\<rfloor> < 1001" unfolding floor_less_iff .
  then have "\<lfloor>fl (m * 10) + 1 / 2\<rfloor> \<le> 1000" by simp
  then have "of_int \<lfloor>fl (m * 10) + 1 / 2\<rfloor> \<le> (of_int 1000 :: rat)" by (simp only: of_int_le_iff)
  then have le: "of_int \<lfloor>fl (m * 10) + 1 / 2\<rfloor> / 10 \<le> (100 :: rat)" by simp
  have "0 \<le> of_int \<lfloor>fl (m * 10) + 1 / 2\<rfloor> / (10 :: rat)" using assms by (simp add: fl_nonneg)
  from fl_mono [OF this le] show ?thesis
    by (simp add: rounded_magnitude_def metric_factor_def fl_numeral_exact)
qed


lemma serialize_percentage:
  assumes "u \<le> t" "0 < t" "t < 2 ^ 64"
  shows "\<exists>r. serialize_optional_one_decimal (Some (f64_percent u t)) = Inr (JF64 (F64_Fin False r)) \<and>
    0 \<le> r \<and> r \<le> 100 \<and> \<bar>r - 100 * of_nat u / of_nat t\<bar> \<le> 1 / 20 + 1 / 10 ^ 11"
proof -
  obtain m where m: "f64_percent u t = F64_Fin False m" "0 \<le> m"
    "\<bar>m - 100 * of_nat u / of_nat t\<bar> \<le> 1 / 10 ^ 12"
    by (rule f64_percent_accuracy [OF assms])
  have "100 * of_nat u / of_nat t \<le> (100 :: rat)" using assms by (simp add: divide_le_eq)
  then have le: "m \<le> 100 + 1 / 10 ^ 12" using m(3) by linarith
  have "(101 :: rat) \<le> 2 ^ 7" by simp
  also have "(2 :: rat) ^ 7 \<le> pow2 1000" using pow2_mono [of 7 1000] by (simp add: pow2_def)
  finally have big: "m \<le> pow2 1000" using le by simp
  define r where "r = rounded_magnitude m 1"
  have ser: "serialize_optional_one_decimal (Some (f64_percent u t)) = Inr (JF64 (F64_Fin False r))"
    using rounded_metric_fin [OF m(2) big, of 1 False]
    by (simp add: serialize_optional_one_decimal_def serialize_optional_f64_def m(1) r_def)
  have r0: "0 \<le> r" using m(2)
    by (simp add: r_def rounded_magnitude_def metric_factor_def fl_nonneg)
  have "\<bar>r - m\<bar> \<le> 1 / 20 + (m + 1) / 2 ^ 51"
    using rounded_magnitude_error [OF m(2), of 1] by (simp add: metric_factor_def r_def)
  moreover have "(m + 1) / 2 ^ 51 \<le> 9 / 10 ^ 12" using le by simp
  ultimately have "\<bar>r - 100 * of_nat u / of_nat t\<bar> \<le> 1 / 20 + 1 / 10 ^ 11"
  proof -
    have "(9 / 10 ^ 12 + 1 / 10 ^ 12 :: rat) = 1 / 10 ^ 11" by simp
    with \<open>\<bar>r - m\<bar> \<le> 1 / 20 + (m + 1) / 2 ^ 51\<close> \<open>(m + 1) / 2 ^ 51 \<le> 9 / 10 ^ 12\<close> m(3)
    show ?thesis by linarith
  qed
  then show ?thesis using ser r0 rounded_percentage [OF m(2) le] by (auto simp: r_def)
qed


section \<open>Properties\<close>

text \<open>The precedence rules of the health classification, as the state contract words them.\<close>

definition health_consistent :: "'dt TelemetryState \<Rightarrow> bool" where
  "health_consistent st \<longleftrightarrow>
     (let p = st_power st; es = h_collector_errors (st_health st);
          current = Some True \<in> {pw_undervoltage_now p, pw_arm_frequency_capped_now p,
                                 pw_throttled_now p, pw_soft_temperature_limit_now p};
          historical = Some True \<in> {pw_undervoltage_since_boot p,
                                    pw_arm_frequency_capped_since_boot p,
                                    pw_throttled_since_boot p,
                                    pw_soft_temperature_limit_since_boot p}
      in (case h_status (st_health st) of
            HealthCritical \<Rightarrow> current
          | HealthDegraded \<Rightarrow> \<not> current \<and> es \<noteq> []
          | HealthWarning \<Rightarrow> \<not> current \<and> es = [] \<and> historical
          | HealthOk \<Rightarrow> \<not> current \<and> es = [] \<and> \<not> historical))"

lemma has_problem_iff:
  "has_current_problem p \<longleftrightarrow>
     Some True \<in> {pw_undervoltage_now p, pw_arm_frequency_capped_now p, pw_throttled_now p,
                  pw_soft_temperature_limit_now p}"
  "has_historical_problem p \<longleftrightarrow>
     Some True \<in> {pw_undervoltage_since_boot p, pw_arm_frequency_capped_since_boot p,
                  pw_throttled_since_boot p, pw_soft_temperature_limit_since_boot p}"
  by (auto simp: has_current_problem_def has_historical_problem_def)

lemma health_consistent_iff:
  "health_consistent st \<longleftrightarrow>
     h_status (st_health st) =
       HealthStatus_evaluate (st_power st) (h_collector_errors (st_health st) \<noteq> [])"
  unfolding health_consistent_def HealthStatus_evaluate_def Let_def has_problem_iff [symmetric]
  by (cases "h_status (st_health st)") simp_all

text \<open>
  C15. Every state built by \<open>TelemetryState::new\<close> satisfies the health precedence rules (a known
  current problem is critical, otherwise a collection failure is degraded, otherwise a
  historical flag is a warning, otherwise ok), \<open>refresh_health\<close> restores them after any edit of
  the public fields, changes nothing but the status, and is the identity exactly on the states
  that satisfy them.\<close>

theorem health_precedence:
  "health_consistent (TelemetryState_new t r es ms) \<and>
   health_consistent (refresh_health st) \<and>
   (refresh_health st = st \<longleftrightarrow> health_consistent st) \<and>
   (\<exists>status. refresh_health st = st\<lparr>st_health := (st_health st)\<lparr>h_status := status\<rparr>\<rparr>)"
proof (intro conjI)
  show "health_consistent (TelemetryState_new t r es ms)"
    by (simp add: health_consistent_iff TelemetryState_new_def Health_evaluate_def)
  show "health_consistent (refresh_health st)"
    by (simp add: health_consistent_iff refresh_health_def refresh_status_def)
  show "refresh_health st = st \<longleftrightarrow> health_consistent st"
  proof
    assume "refresh_health st = st"
    then have "h_status (st_health (refresh_health st)) = h_status (st_health st)" by simp
    then show "health_consistent st"
      by (simp add: refresh_health_def refresh_status_def health_consistent_iff)
  next
    assume "health_consistent st"
    then have "refresh_status (st_health st) (st_power st) = st_health st"
      by (simp add: refresh_status_def health_consistent_iff)
    then show "refresh_health st = st" by (simp add: refresh_health_def)
  qed
  show "\<exists>status. refresh_health st = st\<lparr>st_health := (st_health st)\<lparr>h_status := status\<rparr>\<rparr>"
    by (auto simp: refresh_health_def refresh_status_def)
qed

text \<open>
  C26. A finite measurement of magnitude up to \<open>2^1000\<close> is published, and within half a unit of the
  last published decimal (plus a relative rounding error of \<open>2^-51\<close>) of its value; the published
  number is finite and never a negative zero.\<close>

theorem rounded_metric_accurate:
  assumes "0 \<le> m" "m \<le> pow2 1000" "d = 1 \<or> d = 2"
  shows "\<exists>s' r. rounded_metric (F64_Fin s m) d = Some (F64_Fin s' r) \<and> 0 \<le> r \<and>
    (s', r) \<noteq> (True, 0) \<and>
    \<bar>f64_val (F64_Fin s' r) - f64_val (F64_Fin s m)\<bar> \<le> 1 / (2 * 10 ^ d) + (m + 1) / 2 ^ 51"
proof -
  define r where "r = rounded_magnitude m d"
  have "0 \<le> r" using assms rounded_magnitude_bounds(3) [OF assms]
    by (simp add: r_def rounded_magnitude_def metric_factor_def fl_nonneg)
  moreover have "\<bar>r - m\<bar> \<le> 1 / (2 * 10 ^ d) + (m + 1) / 2 ^ 51"
    using rounded_magnitude_error [OF assms(1,3)] by (simp add: r_def metric_factor_def)
  then have "\<bar>f64_val (F64_Fin (s \<and> r \<noteq> 0) r) - f64_val (F64_Fin s m)\<bar> \<le> 1 / (2 * 10 ^ d) + (m + 1) / 2 ^ 51"
    by (cases s) (auto simp: f64_val_def)
  ultimately show ?thesis
    using rounded_metric_fin [OF assms, of s, folded r_def]
    by (intro exI [of _ "s \<and> r \<noteq> 0"] exI [of _ r]) auto
qed

theorem rounded_metric_accurate_witness:
  "\<exists>s' r. rounded_metric (F64_Fin True (1 / 8)) 1 = Some (F64_Fin s' r) \<and> 0 \<le> r \<and>
    (s', r) \<noteq> (True, 0) \<and>
    \<bar>f64_val (F64_Fin s' r) - f64_val (F64_Fin True (1 / 8))\<bar> \<le> 1 / (2 * 10 ^ 1) + (1 / 8 + 1) / 2 ^ 51"
  using rounded_metric_accurate [of "1 / 8" 1 True] pow2_mono [of 0 1000] by (simp add: pow2_def)

lemma rounded_metric_finite: "rounded_metric x d = Some r \<Longrightarrow> f64_is_finite r"
  by (auto simp: rounded_metric_def Let_def f64_eval split: if_splits)

lemma rounded_again:
  assumes "0 \<le> m" "m \<le> 2 ^ 40" "d = 1 \<or> d = 2"
  shows "\<exists>v. rounded_metric (F64_Fin s m) d = Some v \<and> rounded_metric v d = Some v"
proof -
  define r where "r = rounded_magnitude m d"
  have p40: "(2 :: rat) ^ 40 \<le> pow2 1000" "(2 :: rat) ^ 42 \<le> pow2 1000"
    using pow2_mono [of 40 1000] pow2_mono [of 42 1000] by (simp_all add: pow2_def)
  have m: "m \<le> pow2 1000" using assms(2) p40(1) by linarith
  have r0: "0 \<le> r" using assms rounded_magnitude_bounds(3) [OF assms(1) m assms(3)]
    by (simp add: r_def rounded_magnitude_def metric_factor_def fl_nonneg)
  have "1 / (2 * metric_factor d) \<le> 1" using assms(3) by (auto simp: metric_factor_def)
  moreover have "(m + 1) / 2 ^ 51 \<le> 1" using assms(2) by simp
  ultimately have "r \<le> m + 2"
    using rounded_magnitude_error [OF assms(1,3)] unfolding r_def by linarith
  then have "r \<le> 2 ^ 42" using assms(2) by simp
  then have r: "r \<le> pow2 1000" using p40(2) by linarith
  show ?thesis
    using rounded_metric_fin [OF assms(1) m assms(3), of s, folded r_def]
      rounded_metric_fin [OF r0 r assms(3), of "s \<and> r \<noteq> 0"]
      rounded_magnitude_idem [OF assms, folded r_def]
    by simp
qed

text \<open>
  Rounding is stable: a published measurement of magnitude up to \<open>2^40\<close>, read back and
  published again, is published as the same number.\<close>

theorem publish_stable:
  assumes "0 \<le> m" "m \<le> 2 ^ 40" "d = 1 \<or> d = 2"
  shows "\<exists>v. serialize_optional_f64 d (Some (F64_Fin s m)) = Inr (JF64 v) \<and>
    deserialize_optional_finite (Inr (Some v)) = Inr (Some v) \<and>
    serialize_optional_f64 d (Some v) = Inr (JF64 v)"
proof -
  obtain v where v: "rounded_metric (F64_Fin s m) d = Some v" "rounded_metric v d = Some v"
    using rounded_again [OF assms] by blast
  then show ?thesis using rounded_metric_finite [OF v(1)]
    by (simp add: serialize_optional_f64_def deserialize_optional_finite_def)
qed

theorem publish_stable_witness:
  "\<exists>v. serialize_optional_f64 2 (Some (F64_Fin False (1 / 3))) = Inr (JF64 v) \<and>
    deserialize_optional_finite (Inr (Some v)) = Inr (Some v) \<and>
    serialize_optional_f64 2 (Some v) = Inr (JF64 v)"
  using publish_stable [of "1 / 3" 2 False] by simp


text \<open>The floating-point measurements of a state, each with its published precision.\<close>

definition payload_floats :: "'dt TelemetryState \<Rightarrow> (f64 option \<times> nat) list" where
  "payload_floats st =
     [(cpu_usage_percent (st_cpu st), 1), (cpu_load_1 (st_cpu st), 2),
      (cpu_load_5 (st_cpu st), 2), (cpu_load_15 (st_cpu st), 2),
      (cpu_temperature_c (st_cpu st), 1), (cpu_frequency_mhz (st_cpu st), 1),
      (mem_used_percent (st_memory st), 1), (swap_used_percent (st_swap st), 1),
      (disk_used_percent (st_disk st), 1)]"

definition publishable :: "f64 option \<times> nat \<Rightarrow> bool" where
  "publishable = (\<lambda>(v, d). case v of None \<Rightarrow> True | Some x \<Rightarrow> rounded_metric x d \<noteq> None)"

lemma serialize_struct_ok_iff:
  "(\<exists>j. serialize_struct fs = Inr j) \<longleftrightarrow> list_all (\<lambda>(k, v). \<exists>j. v = Inr j) fs"
  using serialize_struct_cases
proof (induction fs)
  case (Cons f fs)
  then show ?case by (cases f) (auto simp: serialize_struct_def result_iff)
qed (simp add: serialize_struct_def)

lemma serialize_optional_ok_iff:
  "(\<exists>j. serialize_optional_f64 d v = Inr j) \<longleftrightarrow> publishable (v, d)"
  by (auto simp: serialize_optional_f64_def publishable_def ok_or_def split: option.splits)

lemmas serialize_ok_iff =
  serialize_struct_ok_iff serialize_optional_ok_iff serialize_optional_one_decimal_def
  serialize_optional_two_decimals_def json_u64_def json_bool_def json_str_def

lemma section_serialize_ok:
  "(\<exists>j. CpuMetrics_serialize c = Inr j) \<longleftrightarrow>
     publishable (cpu_usage_percent c, 1) \<and> publishable (cpu_load_1 c, 2) \<and>
     publishable (cpu_load_5 c, 2) \<and> publishable (cpu_load_15 c, 2) \<and>
     publishable (cpu_temperature_c c, 1) \<and> publishable (cpu_frequency_mhz c, 1)"
  "(\<exists>j. MemoryMetrics_serialize m = Inr j) \<longleftrightarrow> publishable (mem_used_percent m, 1)"
  "(\<exists>j. SwapMetrics_serialize s = Inr j) \<longleftrightarrow> publishable (swap_used_percent s, 1)"
  "(\<exists>j. DiskMetrics_serialize d = Inr j) \<longleftrightarrow> publishable (disk_used_percent d, 1)"
  "(\<exists>j. PowerMetrics_serialize p = Inr j)"
  "(\<exists>j. Health_serialize h = Inr j)"
  "(\<exists>j. ServiceMetrics_serialize v = Inr j)"
  unfolding CpuMetrics_serialize_def MemoryMetrics_serialize_def SwapMetrics_serialize_def
    DiskMetrics_serialize_def PowerMetrics_serialize_def Health_serialize_def
    ServiceMetrics_serialize_def
  by (simp_all add: serialize_ok_iff)

lemma payload_ok_iff:
  "(\<exists>j. TelemetryState_serialize lib st = Inr j) \<longleftrightarrow>
     (\<exists>text. tl_format lib (as_datetime (st_observed_at st)) = Inr text) \<and>
     list_all publishable (payload_floats st)"
  by (simp add: TelemetryState_serialize_def serialize_struct_ok_iff section_serialize_ok
      payload_floats_def json_u64_def ObservationTime_serialize_def result_iff)

lemma section_keys:
  "CpuMetrics_serialize c = Inr j \<Longrightarrow>
     json_keys j = [lit ''usage_percent'', lit ''load_1'', lit ''load_5'', lit ''load_15'',
                    lit ''temperature_c'', lit ''frequency_mhz'']"
  "MemoryMetrics_serialize m = Inr j \<Longrightarrow>
     json_keys j = [lit ''total_bytes'', lit ''available_bytes'', lit ''used_bytes'',
                    lit ''used_percent'']"
  "SwapMetrics_serialize s = Inr j \<Longrightarrow>
     json_keys j = [lit ''total_bytes'', lit ''used_bytes'', lit ''used_percent'']"
  "DiskMetrics_serialize d = Inr j \<Longrightarrow>
     json_keys j = [lit ''mount'', lit ''total_bytes'', lit ''available_bytes'',
                    lit ''used_bytes'', lit ''used_percent'']"
  "PowerMetrics_serialize p = Inr j \<Longrightarrow>
     json_keys j = [lit ''throttled_raw'', lit ''undervoltage_now'',
                    lit ''arm_frequency_capped_now'', lit ''throttled_now'',
                    lit ''soft_temperature_limit_now'', lit ''undervoltage_since_boot'',
                    lit ''arm_frequency_capped_since_boot'', lit ''throttled_since_boot'',
                    lit ''soft_temperature_limit_since_boot'']"
  "Health_serialize h = Inr j \<Longrightarrow> json_keys j = [lit ''status'', lit ''collector_errors'']"
  "ServiceMetrics_serialize v = Inr j \<Longrightarrow>
     json_keys j = [lit ''version'', lit ''collection_duration_ms'']"
  unfolding CpuMetrics_serialize_def MemoryMetrics_serialize_def SwapMetrics_serialize_def
    DiskMetrics_serialize_def PowerMetrics_serialize_def Health_serialize_def
    ServiceMetrics_serialize_def
  by (drule serialize_struct_keys; simp)+

text \<open>A payload with the sections it is made of.\<close>

lemma payload_parts:
  assumes "TelemetryState_serialize lib st = Inr j"
  obtains schema obs uptime cpu mem swap disk pow h sv where
    "j = JObj [(lit ''schema_version'', schema), (lit ''observed_at'', obs),
       (lit ''uptime_seconds'', uptime), (lit ''cpu'', cpu), (lit ''memory'', mem),
       (lit ''swap'', swap), (lit ''disk'', disk), (lit ''power'', pow), (lit ''health'', h),
       (lit ''service'', sv)]"
    "CpuMetrics_serialize (st_cpu st) = Inr cpu"
    "MemoryMetrics_serialize (st_memory st) = Inr mem"
    "SwapMetrics_serialize (st_swap st) = Inr swap"
    "DiskMetrics_serialize (st_disk st) = Inr disk"
    "PowerMetrics_serialize (st_power st) = Inr pow"
    "Health_serialize (st_health st) = Inr h"
    "ServiceMetrics_serialize (st_service st) = Inr sv"
  using assms unfolding TelemetryState_serialize_def serialize_struct_eq_Inr
  by (auto simp: list_all2_Cons1)

text \<open>Unavailable is \<open>null\<close>, and only that.\<close>

lemma optional_null_iff:
  "serialize_optional_f64 d v = Inr JNull \<longleftrightarrow> v = None"
  "json_u64 w = Inr JNull \<longleftrightarrow> w = None"
  "json_bool b = Inr JNull \<longleftrightarrow> b = None"
  by (auto simp: serialize_optional_f64_def json_u64_def json_bool_def json_opt_def ok_or_def
      split: option.splits)


section \<open>The schema of the payload\<close>

text \<open>
  The contract of the state topic, as the documentation of the payload words it: which fields an object
  has, in which order, of which type and range, and which of them may be \<open>null\<close>.
\<close>

datatype schema =
    SUint nat
  | SFinite
  | SBool
  | SText
  | SEnum "rstr list"
  | SNullable schema
  | SArray schema
  | SObject "(rstr \<times> schema) list"

fun conforms :: "schema \<Rightarrow> json \<Rightarrow> bool"
  and conforms_fields :: "(rstr \<times> schema) list \<Rightarrow> (rstr \<times> json) list \<Rightarrow> bool" where
  "conforms (SUint w) j = (case j of JU64 n \<Rightarrow> n < 2 ^ w | _ \<Rightarrow> False)"
| "conforms SFinite j = (case j of JF64 x \<Rightarrow> f64_is_finite x | _ \<Rightarrow> False)"
| "conforms SBool j = (case j of JBool _ \<Rightarrow> True | _ \<Rightarrow> False)"
| "conforms SText j = (case j of JStr _ \<Rightarrow> True | _ \<Rightarrow> False)"
| "conforms (SEnum names) j = (case j of JStr name \<Rightarrow> name \<in> set names | _ \<Rightarrow> False)"
| "conforms (SNullable sc) j = (j = JNull \<or> conforms sc j)"
| "conforms (SArray sc) j = (case j of JArr js \<Rightarrow> list_all (\<lambda>e. conforms sc e) js | _ \<Rightarrow> False)"
| "conforms (SObject fs) j = (case j of JObj kvs \<Rightarrow> conforms_fields fs kvs | _ \<Rightarrow> False)"
| "conforms_fields [] kvs = (kvs = [])"
| "conforms_fields ((k, sc) # fs) kvs =
     (case kvs of [] \<Rightarrow> False | (k', j) # rest \<Rightarrow> k' = k \<and> conforms sc j \<and> conforms_fields fs rest)"

definition cpu_schema :: schema where
  "cpu_schema = SObject (map (\<lambda>k. (lit k, SNullable SFinite))
     [''usage_percent'', ''load_1'', ''load_5'', ''load_15'', ''temperature_c'', ''frequency_mhz''])"

definition memory_schema :: schema where
  "memory_schema = SObject
     [(lit ''total_bytes'', SNullable (SUint 64)), (lit ''available_bytes'', SNullable (SUint 64)),
      (lit ''used_bytes'', SNullable (SUint 64)), (lit ''used_percent'', SNullable SFinite)]"

definition swap_schema :: schema where
  "swap_schema = SObject
     [(lit ''total_bytes'', SNullable (SUint 64)), (lit ''used_bytes'', SNullable (SUint 64)),
      (lit ''used_percent'', SNullable SFinite)]"

definition disk_schema :: schema where
  "disk_schema = SObject
     [(lit ''mount'', SText), (lit ''total_bytes'', SNullable (SUint 64)),
      (lit ''available_bytes'', SNullable (SUint 64)), (lit ''used_bytes'', SNullable (SUint 64)),
      (lit ''used_percent'', SNullable SFinite)]"

definition power_schema :: schema where
  "power_schema = SObject ((lit ''throttled_raw'', SNullable SText) #
     map (\<lambda>k. (lit k, SNullable SBool))
       [''undervoltage_now'', ''arm_frequency_capped_now'', ''throttled_now'',
        ''soft_temperature_limit_now'', ''undervoltage_since_boot'', ''arm_frequency_capped_since_boot'',
        ''throttled_since_boot'', ''soft_temperature_limit_since_boot''])"

definition health_schema :: schema where
  "health_schema = SObject
     [(lit ''status'', SEnum (map lit [''ok'', ''warning'', ''critical'', ''degraded''])),
      (lit ''collector_errors'', SArray (SObject [(lit ''metric'', SText), (lit ''message'', SText)]))]"

definition service_schema :: schema where
  "service_schema = SObject [(lit ''version'', SText), (lit ''collection_duration_ms'', SUint 64)]"

definition payload_schema :: schema where
  "payload_schema = SObject
     [(lit ''schema_version'', SUint 32), (lit ''observed_at'', SText),
      (lit ''uptime_seconds'', SNullable (SUint 64)), (lit ''cpu'', cpu_schema),
      (lit ''memory'', memory_schema), (lit ''swap'', swap_schema), (lit ''disk'', disk_schema),
      (lit ''power'', power_schema), (lit ''health'', health_schema), (lit ''service'', service_schema)]"

text \<open>The fields that may be \<open>null\<close>, and whether the state has no value for them.\<close>

definition cpu_gaps :: "CpuMetrics \<Rightarrow> (rstr \<times> bool) list" where
  "cpu_gaps m =
     [(lit ''usage_percent'', cpu_usage_percent m = None), (lit ''load_1'', cpu_load_1 m = None),
      (lit ''load_5'', cpu_load_5 m = None), (lit ''load_15'', cpu_load_15 m = None),
      (lit ''temperature_c'', cpu_temperature_c m = None), (lit ''frequency_mhz'', cpu_frequency_mhz m = None)]"

definition memory_gaps :: "MemoryMetrics \<Rightarrow> (rstr \<times> bool) list" where
  "memory_gaps m =
     [(lit ''total_bytes'', mem_total_bytes m = None), (lit ''available_bytes'', mem_available_bytes m = None),
      (lit ''used_bytes'', mem_used_bytes m = None), (lit ''used_percent'', mem_used_percent m = None)]"

definition swap_gaps :: "SwapMetrics \<Rightarrow> (rstr \<times> bool) list" where
  "swap_gaps m =
     [(lit ''total_bytes'', swap_total_bytes m = None), (lit ''used_bytes'', swap_used_bytes m = None),
      (lit ''used_percent'', swap_used_percent m = None)]"

definition disk_gaps :: "DiskMetrics \<Rightarrow> (rstr \<times> bool) list" where
  "disk_gaps m =
     [(lit ''mount'', False), (lit ''total_bytes'', disk_total_bytes m = None),
      (lit ''available_bytes'', disk_available_bytes m = None), (lit ''used_bytes'', disk_used_bytes m = None),
      (lit ''used_percent'', disk_used_percent m = None)]"

definition power_gaps :: "PowerMetrics \<Rightarrow> (rstr \<times> bool) list" where
  "power_gaps p =
     [(lit ''throttled_raw'', pw_throttled_raw p = None), (lit ''undervoltage_now'', pw_undervoltage_now p = None),
      (lit ''arm_frequency_capped_now'', pw_arm_frequency_capped_now p = None),
      (lit ''throttled_now'', pw_throttled_now p = None),
      (lit ''soft_temperature_limit_now'', pw_soft_temperature_limit_now p = None),
      (lit ''undervoltage_since_boot'', pw_undervoltage_since_boot p = None),
      (lit ''arm_frequency_capped_since_boot'', pw_arm_frequency_capped_since_boot p = None),
      (lit ''throttled_since_boot'', pw_throttled_since_boot p = None),
      (lit ''soft_temperature_limit_since_boot'', pw_soft_temperature_limit_since_boot p = None)]"

definition payload_gaps :: "'dt TelemetryState \<Rightarrow> (rstr list \<times> bool) list" where
  "payload_gaps st =
     ([lit ''uptime_seconds''], st_uptime_seconds st = None) #
     map (\<lambda>(k, gap). ([lit ''cpu'', k], gap)) (cpu_gaps (st_cpu st)) @
     map (\<lambda>(k, gap). ([lit ''memory'', k], gap)) (memory_gaps (st_memory st)) @
     map (\<lambda>(k, gap). ([lit ''swap'', k], gap)) (swap_gaps (st_swap st)) @
     map (\<lambda>(k, gap). ([lit ''disk'', k], gap)) (disk_gaps (st_disk st)) @
     map (\<lambda>(k, gap). ([lit ''power'', k], gap)) (power_gaps (st_power st))"

definition gaps_shown :: "json \<Rightarrow> (rstr \<times> bool) list \<Rightarrow> bool" where
  "gaps_shown j gaps \<longleftrightarrow> list_all (\<lambda>(k, gap). (json_get j k = Some JNull) = gap) gaps"

text \<open>A serialized value fits its schema and is \<open>null\<close> exactly when it is missing.\<close>

definition fits :: "schema \<Rightarrow> rstr + json \<Rightarrow> bool" where
  "fits sc v \<longleftrightarrow> (\<forall>x. v = Inr x \<longrightarrow> conforms sc x)"

definition null_if :: "bool \<Rightarrow> rstr + json \<Rightarrow> bool" where
  "null_if gap v \<longleftrightarrow> (\<forall>x. v = Inr x \<longrightarrow> (x = JNull) = gap)"

lemma word_bounds: "unat (u :: u64) < 18446744073709551616" "unat (v :: u32) < 4294967296"
  using u64_bound [of u] unsigned_less [where 'a = nat, of v] by simp_all

lemma fits_field [simp]:
  "fits (SNullable SFinite) (serialize_optional_f64 d v)"
  "fits (SNullable (SUint 64)) (json_u64 w)"
  "fits (SNullable SBool) (json_bool b)"
  "fits (SNullable SText) (Inr (json_opt JStr t))"
  "fits SText (json_str r)"
  "fits (SUint 64) (Inr (JU64 (unat (u :: u64))))"
  "fits (SUint 32) (Inr (JU64 (unat (v32 :: u32))))"
  by (auto simp: fits_def serialize_optional_f64_def json_u64_def json_bool_def json_opt_def json_str_def
      result_iff word_bounds split: option.splits dest: rounded_metric_finite)

lemma fits_health [simp]:
  "fits (SEnum [lit ''ok'', lit ''warning'', lit ''critical'', lit ''degraded''])
     (json_str (HealthStatus_name status))"
  "fits (SArray (SObject [(lit ''metric'', SText), (lit ''message'', SText)]))
     (Inr (JArr (map CollectorError_json errors)))"
  by (cases status) (simp_all add: fits_def json_str_def CollectorError_json_def list_all_iff)

lemma null_if_field [simp]:
  "null_if (v = None) (serialize_optional_f64 d v)"
  "null_if (w = None) (json_u64 w)"
  "null_if (b = None) (json_bool b)"
  "null_if (t = None) (Inr (json_opt JStr t))"
  "null_if False (json_str r)"
  by (auto simp: null_if_def serialize_optional_f64_def json_u64_def json_bool_def json_opt_def json_str_def
      result_iff split: option.splits)

lemma serialize_conforms:
  assumes "serialize_struct fs = Inr j" "map fst fs = map fst scs"
    and "list_all2 (\<lambda>f sc. fits (snd sc) (snd f)) fs scs"
  shows "conforms (SObject scs) j"
proof -
  obtain kvs where j: "j = JObj kvs"
    and all: "list_all2 (\<lambda>(k, v) (k', j). k = k' \<and> v = Inr j) fs kvs"
    using assms(1) unfolding serialize_struct_eq_Inr by blast
  from all assms(2,3) have "conforms_fields scs kvs"
  proof (induction arbitrary: scs rule: list_all2_induct)
    case (Cons f fs kv kvs)
    then obtain sc scs' where "scs = sc # scs'" by (cases scs) auto
    with Cons show ?case by (cases f; cases sc; cases kv) (auto simp: fits_def)
  qed simp
  then show ?thesis by (simp add: j)
qed

lemma serialize_gaps:
  assumes "serialize_struct fs = Inr j" "map fst fs = map fst gaps" "distinct (map fst gaps)"
    and "list_all2 (\<lambda>f g. null_if (snd g) (snd f)) fs gaps"
  shows "gaps_shown j gaps"
proof -
  obtain kvs where j: "j = JObj kvs"
    and all: "list_all2 (\<lambda>(k, v) (k', j). k = k' \<and> v = Inr j) fs kvs"
    using assms(1) unfolding serialize_struct_eq_Inr by blast
  from all assms(2,4) have rows: "list_all2 (\<lambda>(k, x) (k', gap). k = k' \<and> (x = JNull) = gap) kvs gaps"
  proof (induction arbitrary: gaps rule: list_all2_induct)
    case (Cons f fs kv kvs)
    then obtain g gaps' where "gaps = g # gaps'" by (cases gaps) auto
    with Cons show ?case by (cases f; cases g; cases kv) (auto simp: null_if_def)
  qed simp
  have keys: "map fst kvs = map fst gaps"
    using rows by (induction rule: list_all2_induct) auto
  have "list_all (\<lambda>(k, gap). (map_of kvs k = Some JNull) = gap) gaps"
    unfolding list_all_length
  proof (intro allI impI)
    fix i assume i: "i < length gaps"
    have len: "length kvs = length gaps" using rows by (rule list_all2_lengthD)
    have "map_of kvs (fst (kvs ! i)) = Some (snd (kvs ! i))"
      using assms(3) i len by (intro map_of_is_SomeI) (simp_all add: keys)
    then show "case gaps ! i of (k, gap) \<Rightarrow> (map_of kvs k = Some JNull) = gap"
      using list_all2_nthD2 [OF rows i] by (auto split: prod.splits)
  qed
  then show ?thesis by (simp add: j gaps_shown_def)
qed

lemma section_conforms:
  "CpuMetrics_serialize c = Inr j \<Longrightarrow> conforms cpu_schema j \<and> gaps_shown j (cpu_gaps c)"
  "MemoryMetrics_serialize m = Inr j \<Longrightarrow> conforms memory_schema j \<and> gaps_shown j (memory_gaps m)"
  "SwapMetrics_serialize s = Inr j \<Longrightarrow> conforms swap_schema j \<and> gaps_shown j (swap_gaps s)"
  "DiskMetrics_serialize d = Inr j \<Longrightarrow> conforms disk_schema j \<and> gaps_shown j (disk_gaps d)"
  "PowerMetrics_serialize p = Inr j \<Longrightarrow> conforms power_schema j \<and> gaps_shown j (power_gaps p)"
  "Health_serialize h = Inr j \<Longrightarrow> conforms health_schema j"
  "ServiceMetrics_serialize v = Inr j \<Longrightarrow> conforms service_schema j"
  unfolding CpuMetrics_serialize_def MemoryMetrics_serialize_def SwapMetrics_serialize_def
    DiskMetrics_serialize_def PowerMetrics_serialize_def Health_serialize_def ServiceMetrics_serialize_def
    serialize_optional_one_decimal_def serialize_optional_two_decimals_def
    cpu_schema_def memory_schema_def swap_schema_def disk_schema_def power_schema_def health_schema_def
    service_schema_def cpu_gaps_def memory_gaps_def swap_gaps_def disk_gaps_def power_gaps_def
  by ((intro conjI)?, (erule serialize_conforms serialize_gaps; simp),
      ((erule serialize_conforms serialize_gaps; simp)?))+

lemma gaps_shown_at:
  "gaps_shown j gaps \<Longrightarrow> json_get whole k = Some j \<Longrightarrow>
   list_all (\<lambda>(path, gap). (json_at whole path = Some JNull) = gap) (map (\<lambda>(k', gap). ([k, k'], gap)) gaps)"
  by (auto simp: gaps_shown_def list_all_iff split: option.splits)

text \<open>
  C36. Every payload that is published conforms to the documented schema, whatever measurements are
  missing: all ten top-level keys and all keys of the seven sections are present, in this order and with
  values of the documented type and range; a measurement is \<open>null\<close> exactly when the state has none; the
  collector errors are listed one by one, an empty list when there are none.  Serialization fails only
  on a timestamp that cannot be formatted or a measurement that cannot be rounded.\<close>

theorem payload_schema_fixed:
  "case TelemetryState_serialize lib st of
     Inl _ \<Rightarrow> (\<exists>e. tl_format lib (as_datetime (st_observed_at st)) = Inl e) \<or>
       list_ex (Not \<circ> publishable) (payload_floats st)
   | Inr j \<Rightarrow>
       conforms payload_schema j \<and>
       list_all (\<lambda>(path, gap). (json_at j path = Some JNull) = gap) (payload_gaps st) \<and>
       json_at j [lit ''health'', lit ''collector_errors''] =
         Some (JArr (map (\<lambda>e. JObj [(lit ''metric'', JStr (ce_metric e)),
           (lit ''message'', JStr (ce_message e))]) (h_collector_errors (st_health st))))"
proof (cases "TelemetryState_serialize lib st")
  case (Inl e)
  then have "\<not> ((\<exists>text. tl_format lib (as_datetime (st_observed_at st)) = Inr text) \<and>
      list_all publishable (payload_floats st))"
    unfolding payload_ok_iff [symmetric] by simp
  then show ?thesis
    using Inl by (cases "tl_format lib (as_datetime (st_observed_at st))") (auto simp: list_ex_iff list_all_iff)
next
  case (Inr j)
  have serialized: "TelemetryState_serialize lib st = Inr j" by (rule Inr)
  from payload_parts [OF this] obtain schema obs uptime cpu mem swap disk pow h sv where
    j: "j = JObj [(lit ''schema_version'', schema), (lit ''observed_at'', obs),
       (lit ''uptime_seconds'', uptime), (lit ''cpu'', cpu), (lit ''memory'', mem),
       (lit ''swap'', swap), (lit ''disk'', disk), (lit ''power'', pow), (lit ''health'', h),
       (lit ''service'', sv)]"
    and parts: "CpuMetrics_serialize (st_cpu st) = Inr cpu"
      "MemoryMetrics_serialize (st_memory st) = Inr mem"
      "SwapMetrics_serialize (st_swap st) = Inr swap"
      "DiskMetrics_serialize (st_disk st) = Inr disk"
      "PowerMetrics_serialize (st_power st) = Inr pow"
      "Health_serialize (st_health st) = Inr h"
      "ServiceMetrics_serialize (st_service st) = Inr sv" by blast
  note sections = section_conforms(1) [OF parts(1)] section_conforms(2) [OF parts(2)]
    section_conforms(3) [OF parts(3)] section_conforms(4) [OF parts(4)] section_conforms(5) [OF parts(5)]
    section_conforms(6) [OF parts(6)] section_conforms(7) [OF parts(7)]
  have head: "schema = JU64 (unat (st_schema_version st))" "\<exists>t. obs = JStr t"
      "json_u64 (st_uptime_seconds st) = Inr uptime"
    using serialized unfolding TelemetryState_serialize_def serialize_struct_eq_Inr j
    by (auto simp: ObservationTime_serialize_def result_iff)
  have uptime: "conforms (SNullable (SUint 64)) uptime" "(uptime = JNull) = (st_uptime_seconds st = None)"
    using head(3) fits_field(2) [of "st_uptime_seconds st"] null_if_field(2) [of "st_uptime_seconds st"]
    unfolding fits_def null_if_def by blast+
  have "conforms payload_schema j"
    using sections uptime(1) head(2) by (auto simp: payload_schema_def j head(1) word_bounds)
  moreover have "list_all (\<lambda>(path, gap). (json_at j path = Some JNull) = gap) (payload_gaps st)"
  proof -
    have get: "json_get j (lit ''cpu'') = Some cpu" "json_get j (lit ''memory'') = Some mem"
        "json_get j (lit ''swap'') = Some swap" "json_get j (lit ''disk'') = Some disk"
        "json_get j (lit ''power'') = Some pow" "json_at j [lit ''uptime_seconds''] = Some uptime"
      by (simp_all add: j)
    show ?thesis
      unfolding payload_gaps_def list_all_append list.pred_inject prod.case get option.inject
      using sections by (intro conjI gaps_shown_at [OF _ get(1)] gaps_shown_at [OF _ get(2)] gaps_shown_at [OF _ get(3)]
          gaps_shown_at [OF _ get(4)] gaps_shown_at [OF _ get(5)] uptime(2)) simp_all
  qed
  moreover have "json_get h (lit ''collector_errors'') =
      Some (JArr (map CollectorError_json (h_collector_errors (st_health st))))"
    using parts(6) unfolding Health_serialize_def serialize_struct_eq_Inr
    by (auto simp: list_all2_Cons1 json_str_def)
  ultimately show ?thesis by (simp add: Inr j CollectorError_json_def [abs_def])
qed

end
