(* ===== verification/Service_Config.thy ===== *)
theory Service_Config
  imports Telemetry_Model
begin

text \<open>
  \<open>src/config.rs\<close>: the validated configuration and the credential file.  The file system and the
  TOML reader are not part of the repository: \<open>FsLib\<close> holds the results of the calls
  \<open>fs::metadata\<close>, \<open>fs::read_to_string\<close> and \<open>fs::read\<close> (an error is its text), and \<open>toml_from_str\<close> yields
  the document with the fields the text contains; the \<open>#[serde(default)]\<close> values are applied here.
  A path is the text of its TOML string.
\<close>

type_synonym path = rstr

definition MAX_CONFIG_BYTES :: nat where "MAX_CONFIG_BYTES = 65536"
definition MAX_PASSWORD_BYTES :: nat where "MAX_PASSWORD_BYTES = 65536"

section \<open>The validated configuration\<close>

record DeviceConfig =
  dc_id :: rstr
  dc_name :: rstr

record MqttConfig =
  mc_host :: rstr
  mc_port :: u16
  mc_client_id :: rstr
  mc_username :: rstr
  mc_password_file :: path
  mc_base_topic :: rstr
  mc_discovery_prefix :: rstr
  mc_keep_alive :: duration

record CollectorConfig =
  cc_interval :: duration
  cc_root_filesystem :: path
  cc_vcgencmd_path :: path
  cc_command_timeout :: duration

record Config =
  cfg_device :: DeviceConfig
  cfg_mqtt :: MqttConfig
  cfg_collector :: CollectorConfig

definition state_topic :: "MqttConfig \<Rightarrow> rstr" where
  "state_topic c = mc_base_topic c @ lit ''/state''"

definition availability_topic :: "MqttConfig \<Rightarrow> rstr" where
  "availability_topic c = mc_base_topic c @ lit ''/availability''"

definition discovery_topic :: "MqttConfig \<Rightarrow> rstr \<Rightarrow> rstr" where
  "discovery_topic c device_id =
     mc_discovery_prefix c @ lit ''/device/'' @ device_id @ lit ''/config''"


section \<open>Errors\<close>

datatype ConfigError =
    CfgRead path rstr
  | NotAFile path
  | TooLarge path
  | SourceTooLarge
  | Toml rstr
  | InvalidField rstr rstr
  | CredentialRead path rstr
  | CredentialNotAFile path
  | CredentialTooLarge path
  | CredentialEncoding path
  | CredentialEmpty path
  | CredentialTooLong path
  | CredentialPermissions path

fun ConfigError_display :: "ConfigError \<Rightarrow> rstr" where
  "ConfigError_display (CfgRead p source) =
     lit ''cannot read configuration file '' @ p @ lit '': '' @ source"
| "ConfigError_display (NotAFile p) = lit ''configuration path is not a regular file: '' @ p"
| "ConfigError_display (TooLarge p) = lit ''configuration file exceeds 64 KiB: '' @ p"
| "ConfigError_display SourceTooLarge = lit ''configuration source exceeds 64 KiB''"
| "ConfigError_display (Toml message) = lit ''invalid TOML: '' @ message"
| "ConfigError_display (InvalidField field reason) = lit ''invalid '' @ field @ lit '': '' @ reason"
| "ConfigError_display (CredentialRead p source) =
     lit ''cannot read credential file '' @ p @ lit '': '' @ source"
| "ConfigError_display (CredentialNotAFile p) =
     lit ''credential path is not a regular file: '' @ p"
| "ConfigError_display (CredentialTooLarge p) = lit ''credential file exceeds 64 KiB: '' @ p"
| "ConfigError_display (CredentialEncoding p) = lit ''credential file is not valid UTF-8: '' @ p"
| "ConfigError_display (CredentialEmpty p) = lit ''credential file is empty: '' @ p"
| "ConfigError_display (CredentialTooLong p) =
     lit ''credential exceeds the MQTT 65535-byte UTF-8 field limit: '' @ p"
| "ConfigError_display (CredentialPermissions p) =
     lit ''credential file permissions are too broad: '' @ p"


section \<open>Validators\<close>

definition validate_identifier :: "rstr \<Rightarrow> rstr \<Rightarrow> nat \<Rightarrow> rstr \<Rightarrow> ConfigError + unit" where
  "validate_identifier field value maximum punctuation =
     (if value = [] \<or> maximum < str_len value \<or> \<not> list_all (\<lambda>b. b < 128) (str_bytes value) \<or>
         \<not> list_all (\<lambda>b. is_ascii_alphanumeric b \<or> b \<in> set punctuation) (str_bytes value)
      then Inl (InvalidField field
                  (lit ''contains unsupported characters or has an invalid length''))
      else Inr ())"

definition validate_text :: "rstr \<Rightarrow> rstr \<Rightarrow> nat \<Rightarrow> ConfigError + unit" where
  "validate_text field value maximum =
     (if value = [] \<or> maximum < str_len value \<or> trim value \<noteq> value \<or> list_ex is_control value
      then Inl (InvalidField field
                  (lit ''must be non-empty, trimmed, and free of control characters''))
      else Inr ())"

definition validate_host :: "rstr \<Rightarrow> ConfigError + unit" where
  "validate_host value =
     (if value = [] \<or> 253 < str_len value \<or> list_ex is_whitespace value \<or>
         list_ex is_control value \<or> list_ex (\<lambda>c. c \<in> set (lit ''/@?#'')) value \<or>
         str_contains value (lit ''://'')
      then Inl (InvalidField (lit ''mqtt.host'')
                  (lit ''must be a host name or address without credentials or a URI scheme''))
      else Inr ())"

definition validate_topic :: "rstr \<Rightarrow> rstr \<Rightarrow> ConfigError + unit" where
  "validate_topic field value =
     (if value = [] \<or> 65535 < str_len value \<or> trim value \<noteq> value \<or>
         starts_with value (lit ''/'') \<or> ends_with value (lit ''/'') \<or>
         str_contains value (lit ''//'') \<or> list_ex (\<lambda>c. c \<in> set (lit ''+#'')) value \<or>
         list_ex is_control value
      then Inl (InvalidField field
                  (lit ''must be a concrete MQTT topic without empty levels or wildcards''))
      else Inr ())"

definition validate_seconds :: "rstr \<Rightarrow> u64 \<Rightarrow> u64 \<Rightarrow> u64 \<Rightarrow> ConfigError + unit" where
  "validate_seconds field value minimum maximum =
     (if \<not> (minimum \<le> value \<and> value \<le> maximum)
      then Inl (InvalidField field (lit ''is outside the allowed range'')) else Inr ())"

definition is_absolute :: "path \<Rightarrow> bool" where
  "is_absolute p \<longleftrightarrow> starts_with p (lit ''/'')"

definition validate_absolute :: "rstr \<Rightarrow> path \<Rightarrow> ConfigError + unit" where
  "validate_absolute field value =
     (if \<not> is_absolute value then Inl (InvalidField field (lit ''must be an absolute path''))
      else Inr ())"


section \<open>The raw document\<close>

record RawDevice =
  rw_id :: rstr
  rw_name :: rstr

record RawMqtt =
  rm_host :: rstr
  rm_port :: u16
  rm_client_id :: rstr
  rm_username :: rstr
  rm_password_file :: path
  rm_base_topic :: rstr
  rm_discovery_prefix :: rstr
  rm_keep_alive_seconds :: u64

record RawCollector =
  rc_interval_seconds :: u64
  rc_root_filesystem :: path
  rc_vcgencmd_path :: path
  rc_command_timeout_seconds :: u64

record RawConfig =
  raw_device :: RawDevice
  raw_mqtt :: RawMqtt
  raw_collector :: RawCollector

definition default_host :: rstr where "default_host = lit ''127.0.0.1''"
definition default_port :: u16 where "default_port = 1883"
definition default_discovery_prefix :: rstr where "default_discovery_prefix = lit ''homeassistant''"
definition default_keep_alive :: u64 where "default_keep_alive = 30"
definition default_interval :: u64 where "default_interval = 30"
definition default_root :: path where "default_root = lit ''/''"
definition default_vcgencmd :: path where "default_vcgencmd = lit ''/usr/bin/vcgencmd''"
definition default_command_timeout :: u64 where "default_command_timeout = 2"

definition RawCollector_default :: RawCollector where
  "RawCollector_default =
     \<lparr>rc_interval_seconds = default_interval, rc_root_filesystem = default_root,
      rc_vcgencmd_path = default_vcgencmd, rc_command_timeout_seconds = default_command_timeout\<rparr>"

text \<open>The fields a document contains; those with a serde default may be absent.\<close>

record MqttTable =
  tm_host :: "rstr option"
  tm_port :: "u16 option"
  tm_client_id :: rstr
  tm_username :: rstr
  tm_password_file :: path
  tm_base_topic :: rstr
  tm_discovery_prefix :: "rstr option"
  tm_keep_alive_seconds :: "u64 option"

record CollectorTable =
  tc_interval_seconds :: "u64 option"
  tc_root_filesystem :: "path option"
  tc_vcgencmd_path :: "path option"
  tc_command_timeout_seconds :: "u64 option"

record TomlDocument =
  td_device :: RawDevice
  td_mqtt :: MqttTable
  td_collector :: "CollectorTable option"

definition or_default :: "'a option \<Rightarrow> 'a \<Rightarrow> 'a" where
  "or_default x d = (case x of None \<Rightarrow> d | Some v \<Rightarrow> v)"

definition RawMqtt_of :: "MqttTable \<Rightarrow> RawMqtt" where
  "RawMqtt_of t =
     \<lparr>rm_host = or_default (tm_host t) default_host,
      rm_port = or_default (tm_port t) default_port,
      rm_client_id = tm_client_id t, rm_username = tm_username t,
      rm_password_file = tm_password_file t, rm_base_topic = tm_base_topic t,
      rm_discovery_prefix = or_default (tm_discovery_prefix t) default_discovery_prefix,
      rm_keep_alive_seconds = or_default (tm_keep_alive_seconds t) default_keep_alive\<rparr>"

definition RawCollector_of :: "CollectorTable \<Rightarrow> RawCollector" where
  "RawCollector_of t =
     \<lparr>rc_interval_seconds = or_default (tc_interval_seconds t) default_interval,
      rc_root_filesystem = or_default (tc_root_filesystem t) default_root,
      rc_vcgencmd_path = or_default (tc_vcgencmd_path t) default_vcgencmd,
      rc_command_timeout_seconds =
        or_default (tc_command_timeout_seconds t) default_command_timeout\<rparr>"

definition RawConfig_of :: "TomlDocument \<Rightarrow> RawConfig" where
  "RawConfig_of d =
     \<lparr>raw_device = td_device d, raw_mqtt = RawMqtt_of (td_mqtt d),
      raw_collector =
        (case td_collector d of None \<Rightarrow> RawCollector_default | Some t \<Rightarrow> RawCollector_of t)\<rparr>"


section \<open>Validation\<close>

definition config_of :: "RawConfig \<Rightarrow> Config" where
  "config_of r =
     \<lparr>cfg_device = \<lparr>dc_id = rw_id (raw_device r), dc_name = rw_name (raw_device r)\<rparr>,
      cfg_mqtt =
        \<lparr>mc_host = rm_host (raw_mqtt r), mc_port = rm_port (raw_mqtt r),
         mc_client_id = rm_client_id (raw_mqtt r), mc_username = rm_username (raw_mqtt r),
         mc_password_file = rm_password_file (raw_mqtt r),
         mc_base_topic = rm_base_topic (raw_mqtt r),
         mc_discovery_prefix = rm_discovery_prefix (raw_mqtt r),
         mc_keep_alive = from_secs (unat (rm_keep_alive_seconds (raw_mqtt r)))\<rparr>,
      cfg_collector =
        \<lparr>cc_interval = from_secs (unat (rc_interval_seconds (raw_collector r))),
         cc_root_filesystem = rc_root_filesystem (raw_collector r),
         cc_vcgencmd_path = rc_vcgencmd_path (raw_collector r),
         cc_command_timeout = from_secs (unat (rc_command_timeout_seconds (raw_collector r)))\<rparr>\<rparr>"

text \<open>\<open>RawConfig::validate\<close>: the checks in the source's order, each with an early return.\<close>

definition RawConfig_validate :: "RawConfig \<Rightarrow> ConfigError + Config" where
  "RawConfig_validate r =
     (let d = raw_device r; m = raw_mqtt r; c = raw_collector r in
      and_then (validate_identifier (lit ''device.id'') (rw_id d) 64 (lit ''_-'')) (\<lambda>_.
      and_then (validate_text (lit ''device.name'') (rw_name d) 128) (\<lambda>_.
      and_then (validate_host (rm_host m)) (\<lambda>_.
      and_then (if rm_port m = 0
                then Inl (InvalidField (lit ''mqtt.port'') (lit ''must be between 1 and 65535''))
                else Inr (rm_port m)) (\<lambda>port.
      and_then (validate_identifier (lit ''mqtt.client_id'') (rm_client_id m) 128 (lit ''._-'')) (\<lambda>_.
      and_then (validate_text (lit ''mqtt.username'') (rm_username m) 256) (\<lambda>_.
      and_then (validate_absolute (lit ''mqtt.password_file'') (rm_password_file m)) (\<lambda>_.
      and_then (validate_topic (lit ''mqtt.base_topic'') (rm_base_topic m)) (\<lambda>_.
      and_then (validate_topic (lit ''mqtt.discovery_prefix'') (rm_discovery_prefix m)) (\<lambda>_.
      and_then (validate_seconds (lit ''mqtt.keep_alive_seconds'') (rm_keep_alive_seconds m) 5 3600) (\<lambda>_.
      and_then (validate_seconds (lit ''collector.interval_seconds'') (rc_interval_seconds c) 5 86400) (\<lambda>_.
      and_then (validate_seconds (lit ''collector.command_timeout_seconds'')
                  (rc_command_timeout_seconds c) 1 30) (\<lambda>_.
      if rc_interval_seconds c \<le> rc_command_timeout_seconds c
      then Inl (InvalidField (lit ''collector.command_timeout_seconds'')
                  (lit ''must be shorter than collector.interval_seconds''))
      else
      and_then (validate_absolute (lit ''collector.root_filesystem'') (rc_root_filesystem c)) (\<lambda>_.
      and_then (validate_absolute (lit ''collector.vcgencmd_path'') (rc_vcgencmd_path c)) (\<lambda>_.
      let derived =
        [rm_base_topic m @ lit ''/state'', rm_base_topic m @ lit ''/availability'',
         rm_discovery_prefix m @ lit ''/device/'' @ rw_id d @ lit ''/config''] in
      if list_ex (\<lambda>topic. 65535 < str_len topic) derived
      then Inl (InvalidField (lit ''mqtt topics'') (lit ''a derived topic exceeds 65535 bytes''))
      else Inr (config_of r))))))))))))))))"


section \<open>Loading\<close>

record Metadata =
  md_is_file :: bool
  md_len :: u64
  md_mode :: u32

text \<open>The file system the process sees; reading a file may fail with an error text.\<close>

record FsLib =
  fs_metadata :: "path \<Rightarrow> rstr + Metadata"
  fs_read_to_string :: "path \<Rightarrow> rstr + rstr"
  fs_read :: "path \<Rightarrow> rstr + nat list"

record TomlError =
  te_message :: rstr
  te_span_start :: "nat option"

type_synonym toml_lib = "rstr \<Rightarrow> TomlError + TomlDocument"

definition sanitize_toml_error :: "TomlError \<Rightarrow> rstr" where
  "sanitize_toml_error e =
     (case te_span_start e of
        Some start \<Rightarrow> te_message e @ lit '' at byte '' @ show_nat start
      | None \<Rightarrow> te_message e)"

definition Config_parse :: "toml_lib \<Rightarrow> rstr \<Rightarrow> ConfigError + Config" where
  "Config_parse toml_from_str source =
     (if MAX_CONFIG_BYTES < str_len source then Inl SourceTooLarge
      else
        and_then (map_err (\<lambda>e. Toml (sanitize_toml_error e)) (toml_from_str source))
          (\<lambda>doc. RawConfig_validate (RawConfig_of doc)))"

definition Config_load :: "FsLib \<Rightarrow> toml_lib \<Rightarrow> path \<Rightarrow> ConfigError + Config" where
  "Config_load fs toml_from_str p =
     and_then (map_err (CfgRead p) (fs_metadata fs p)) (\<lambda>metadata.
       if \<not> md_is_file metadata then Inl (NotAFile p)
       else if MAX_CONFIG_BYTES < unat (md_len metadata) then Inl (TooLarge p)
       else
         and_then (map_err (CfgRead p) (fs_read_to_string fs p)) (\<lambda>source.
           Config_parse toml_from_str source))"

unbundle bit_operations_syntax

text \<open>\<open>0o027\<close>: group write and every permission of others.\<close>

definition validate_secret_permissions :: "path \<Rightarrow> Metadata \<Rightarrow> ConfigError + unit" where
  "validate_secret_permissions p metadata =
     (if md_mode metadata AND 23 \<noteq> 0 then Inl (CredentialPermissions p) else Inr ())"

record MqttCredentials =
  cr_username :: rstr
  cr_password :: rstr

text \<open>The removal of one final line ending.\<close>

definition strip_final_newline :: "rstr \<Rightarrow> rstr" where
  "strip_final_newline password =
     (if ends_with password [13, 10] then take (length password - 2) password
      else if ends_with password [10] then butlast password
      else password)"

definition MqttCredentials_load :: "FsLib \<Rightarrow> MqttConfig \<Rightarrow> ConfigError + MqttCredentials" where
  "MqttCredentials_load fs config =
     (let p = mc_password_file config in
      and_then (map_err (CredentialRead p) (fs_metadata fs p)) (\<lambda>metadata.
        if \<not> md_is_file metadata then Inl (CredentialNotAFile p)
        else if MAX_PASSWORD_BYTES < unat (md_len metadata) then Inl (CredentialTooLarge p)
        else
          and_then (validate_secret_permissions p metadata) (\<lambda>_.
          and_then (map_err (CredentialRead p) (fs_read fs p)) (\<lambda>bytes.
          and_then (ok_or (from_utf8 bytes) (CredentialEncoding p)) (\<lambda>text.
          let password = strip_final_newline text in
          if password = [] then Inl (CredentialEmpty p)
          else if 65535 < str_len password then Inl (CredentialTooLong p)
          else Inr \<lparr>cr_username = mc_username config, cr_password = password\<rparr>)))))"

definition MqttCredentials_debug :: "MqttCredentials \<Rightarrow> (rstr \<times> rstr) list" where
  "MqttCredentials_debug c =
     [(lit ''username'', cr_username c), (lit ''password'', lit ''[REDACTED]'')]"



section \<open>Facts: topics\<close>

definition topic_levels :: "rstr \<Rightarrow> rstr list" where
  "topic_levels t = split_on (\<lambda>c. c = 47) t"

lemma hd_split_on_Nil: "hd (split_on p s) = [] \<longleftrightarrow> s = [] \<or> p (hd s)"
  by (cases s) (auto split: list.split)

lemma double_Cons:
  "(\<exists>a b. c # cs = a @ [x, x] @ b) \<longleftrightarrow> (c = x \<and> (\<exists>b. cs = x # b)) \<or> (\<exists>a b. cs = a @ [x, x] @ b)"
proof
  assume "\<exists>a b. c # cs = a @ [x, x] @ b"
  then obtain a b where "c # cs = a @ [x, x] @ b" by blast
  then show "(c = x \<and> (\<exists>b. cs = x # b)) \<or> (\<exists>a b. cs = a @ [x, x] @ b)"
    by (cases a) auto
next
  assume "(c = x \<and> (\<exists>b. cs = x # b)) \<or> (\<exists>a b. cs = a @ [x, x] @ b)"
  then show "\<exists>a b. c # cs = a @ [x, x] @ b"
  proof
    assume "c = x \<and> (\<exists>b. cs = x # b)"
    then obtain b where "c # cs = [] @ [x, x] @ b" by auto
    then show ?thesis by blast
  next
    assume "\<exists>a b. cs = a @ [x, x] @ b"
    then obtain a b where "cs = a @ [x, x] @ b" by blast
    then show ?thesis by (intro exI [of _ "c # a"] exI [of _ b]) simp
  qed
qed

lemma empty_later_level:
  "[] \<in> set (tl (split_on (\<lambda>c. c = x) s)) \<longleftrightarrow>
     (s \<noteq> [] \<and> last s = x) \<or> (\<exists>a b. s = a @ [x, x] @ b)"
proof (induction s)
  case (Cons c cs)
  let ?p = "\<lambda>c. c = x"
  have mem: "[] \<in> set (split_on ?p cs) \<longleftrightarrow> hd (split_on ?p cs) = [] \<or> [] \<in> set (tl (split_on ?p cs))"
    by (cases "split_on ?p cs") auto
  have step: "tl (split_on ?p (c # cs)) = (if c = x then split_on ?p cs else tl (split_on ?p cs))"
    by (auto split: list.split)
  have hd: "hd (split_on ?p cs) = [] \<longleftrightarrow> cs = [] \<or> hd cs = x"
    by (simp add: hd_split_on_Nil)
  have ex: "(\<exists>b. cs = x # b) \<longleftrightarrow> cs \<noteq> [] \<and> hd cs = x" by (cases cs) auto
  show ?case
    unfolding step double_Cons ex using mem Cons hd
    by (cases "c = x"; cases "cs = []") auto
qed auto

lemma no_empty_level_iff:
  "[] \<notin> set (topic_levels t) \<longleftrightarrow>
     t \<noteq> [] \<and> \<not> starts_with t (lit ''/'') \<and> \<not> ends_with t (lit ''/'') \<and> \<not> str_contains t (lit ''//'')"
proof -
  have slash: "lit ''/'' = [47]" "lit ''//'' = [47, 47]" by (simp_all add: lit_Cons)
  have "[] \<in> set (topic_levels t) \<longleftrightarrow>
      hd (topic_levels t) = [] \<or> [] \<in> set (tl (topic_levels t))"
    by (cases "topic_levels t") (auto simp: topic_levels_def)
  moreover have "(t \<noteq> [] \<and> last t = 47) \<longleftrightarrow> ends_with t [47]"
    by (cases t rule: rev_cases) (auto simp: ends_with_iff)
  moreover have "t \<noteq> [] \<and> hd t = 47 \<longleftrightarrow> starts_with t [47]"
    by (cases t) (auto simp: starts_with_iff)
  ultimately show ?thesis
    unfolding slash str_contains_iff
    by (auto simp: topic_levels_def hd_split_on_Nil empty_later_level)
qed

text \<open>
  A concrete MQTT topic name: between 1 and 65535 bytes of UTF-8, every level between two
  slashes non-empty, no wildcard and no control character.
\<close>

definition concrete_topic :: "rstr \<Rightarrow> bool" where
  "concrete_topic t \<longleftrightarrow>
     str_len t \<le> 65535 \<and> [] \<notin> set (topic_levels t) \<and> 43 \<notin> set t \<and> 35 \<notin> set t \<and>
     (\<forall>c \<in> set t. \<not> is_control c)"

lemma validate_topic_iff:
  "validate_topic field t = Inr () \<longleftrightarrow> concrete_topic t \<and> trim t = t"
proof -
  have "list_ex (\<lambda>c. c \<in> set (lit ''+#'')) t \<longleftrightarrow> 43 \<in> set t \<or> 35 \<in> set t"
    by (auto simp: list_ex_iff lit_Cons)
  then show ?thesis
    unfolding validate_topic_def concrete_topic_def no_empty_level_iff
    by (auto simp: list_ex_iff)
qed

lemma topic_levels_append:
  "topic_levels (a @ 47 # b) = topic_levels a @ topic_levels b"
  by (simp add: topic_levels_def split_on_sep)

lemma concrete_topic_append:
  "concrete_topic (a @ 47 # b) \<longleftrightarrow>
     str_len (a @ 47 # b) \<le> 65535 \<and> concrete_topic a \<and> concrete_topic b"
proof -
  have "str_len a \<le> str_len (a @ 47 # b)" "str_len b \<le> str_len (a @ 47 # b)"
    by (simp_all add: str_len_def)
  moreover have "\<not> is_control 47" by (simp add: is_control_def)
  ultimately show ?thesis
    by (auto simp: concrete_topic_def topic_levels_append)
qed


section \<open>Facts: identifiers, text and hosts\<close>

definition identifier_ok :: "nat \<Rightarrow> rstr \<Rightarrow> rstr \<Rightarrow> bool" where
  "identifier_ok maximum punctuation s \<longleftrightarrow>
     s \<noteq> [] \<and> length s \<le> maximum \<and>
     (\<forall>c \<in> set s. is_ascii_alphanumeric c \<or> c \<in> set punctuation)"

lemma list_all_str_bytes_ascii:
  "list_all (\<lambda>b. b < 128) (str_bytes s) \<longleftrightarrow> list_all (\<lambda>c. c < 128) s"
proof (induction s)
  case (Cons c s)
  have "list_all (\<lambda>b. b < 128) (utf8_encode_char c) \<longleftrightarrow> c < 128"
    by (simp add: utf8_encode_char_def)
  with Cons show ?case by simp
qed simp

lemma validate_identifier_iff:
  assumes "list_all (\<lambda>c. c < 128) punctuation"
  shows "validate_identifier field s maximum punctuation = Inr () \<longleftrightarrow>
    identifier_ok maximum punctuation s"
proof (cases "list_all (\<lambda>c. c < 128) s")
  case True
  then show ?thesis
    by (auto simp: validate_identifier_def identifier_ok_def list_all_str_bytes_ascii
        str_bytes_ascii str_len_ascii list_all_iff)
next
  case False
  then have "\<not> identifier_ok maximum punctuation s"
    using assms alphanumeric_facts(2) by (auto simp: identifier_ok_def list_all_iff)
  with False show ?thesis by (simp add: validate_identifier_def list_all_str_bytes_ascii)
qed

definition text_ok :: "nat \<Rightarrow> rstr \<Rightarrow> bool" where
  "text_ok maximum s \<longleftrightarrow>
     s \<noteq> [] \<and> str_len s \<le> maximum \<and> \<not> is_whitespace (hd s) \<and> \<not> is_whitespace (last s) \<and>
     (\<forall>c \<in> set s. \<not> is_control c)"

lemma validate_text_iff: "validate_text field s maximum = Inr () \<longleftrightarrow> text_ok maximum s"
  by (auto simp: validate_text_def text_ok_def trim_eq_id_iff list_ex_iff)

definition host_ok :: "rstr \<Rightarrow> bool" where
  "host_ok s \<longleftrightarrow>
     s \<noteq> [] \<and> str_len s \<le> 253 \<and>
     (\<forall>c \<in> set s. \<not> is_whitespace c \<and> \<not> is_control c \<and> c \<notin> {47, 64, 63, 35})"

text \<open>The test for \<open>://\<close> is implied by the test for a slash.\<close>

lemma validate_host_iff: "validate_host s = Inr () \<longleftrightarrow> host_ok s"
proof -
  have "str_contains s (lit ''://'') \<Longrightarrow> 47 \<in> set s"
    by (auto simp: str_contains_iff lit_Cons)
  then show ?thesis
    by (auto simp: validate_host_def host_ok_def list_ex_iff lit_Cons)
qed

definition raw_ok :: "RawConfig \<Rightarrow> bool" where
  "raw_ok r \<longleftrightarrow>
     (let d = raw_device r; m = raw_mqtt r; c = raw_collector r in
      identifier_ok 64 (lit ''_-'') (rw_id d) \<and> text_ok 128 (rw_name d) \<and>
      host_ok (rm_host m) \<and> rm_port m \<noteq> 0 \<and>
      identifier_ok 128 (lit ''._-'') (rm_client_id m) \<and> text_ok 256 (rm_username m) \<and>
      is_absolute (rm_password_file m) \<and>
      concrete_topic (rm_base_topic m) \<and> trim (rm_base_topic m) = rm_base_topic m \<and>
      concrete_topic (rm_discovery_prefix m) \<and> trim (rm_discovery_prefix m) = rm_discovery_prefix m \<and>
      unat (rm_keep_alive_seconds m) \<in> {5..3600} \<and>
      unat (rc_interval_seconds c) \<in> {5..86400} \<and>
      unat (rc_command_timeout_seconds c) \<in> {1..30} \<and>
      unat (rc_command_timeout_seconds c) < unat (rc_interval_seconds c) \<and>
      is_absolute (rc_root_filesystem c) \<and> is_absolute (rc_vcgencmd_path c) \<and>
      str_len (rm_base_topic m) + 13 \<le> 65535 \<and>
      str_len (rm_discovery_prefix m) + length (rw_id d) + 15 \<le> 65535)"

lemma validate_seconds_iff:
  "validate_seconds field v lo hi = Inr () \<longleftrightarrow> unat v \<in> {unat lo..unat hi}"
  by (auto simp: validate_seconds_def word_le_nat_alt)

lemma validate_absolute_iff: "validate_absolute field p = Inr () \<longleftrightarrow> is_absolute p"
  by (simp add: validate_absolute_def)

lemma guard_eq_Inr: "(if p then Inl e else r) = Inr w \<longleftrightarrow> \<not> p \<and> r = Inr w"
  by simp

lemma and_then_unit_eq_Inr: "and_then r f = Inr w \<longleftrightarrow> r = Inr () \<and> f () = Inr w"
  by (auto simp: and_then_eq_Inr)

lemma validate_iff: "RawConfig_validate r = Inr c \<longleftrightarrow> raw_ok r \<and> c = config_of r"
proof -
  have ascii: "list_all (\<lambda>c. c < 128) (lit ''_-'')" "list_all (\<lambda>c. c < 128) (lit ''._-'')"
    by (simp_all add: lit_Cons)
  have len: "str_len (lit ''/state'') = 6" "str_len (lit ''/availability'') = 13"
      "str_len (lit ''/device/'') = 8" "str_len (lit ''/config'') = 7"
    by (simp_all add: lit_Cons str_len_ascii)
  have id: "identifier_ok n p i \<Longrightarrow> list_all (\<lambda>c. c < 128) p \<Longrightarrow> str_len i = length i" for n p i
    using alphanumeric_facts(2) by (intro str_len_ascii) (auto simp: identifier_ok_def list_all_iff)
  have port: "(if (p :: u16) = 0 then Inl e else Inr p) = Inr q \<longleftrightarrow> p \<noteq> 0 \<and> q = p"
    for p q and e :: ConfigError by auto
  show ?thesis
    unfolding RawConfig_validate_def raw_ok_def Let_def and_then_unit_eq_Inr
      validate_identifier_iff [OF ascii(1)] validate_identifier_iff [OF ascii(2)]
      validate_text_iff validate_host_iff validate_absolute_iff validate_topic_iff
      validate_seconds_iff guard_eq_Inr and_then_eq_Inr port
    using id [OF _ ascii(1), of 64 "rw_id (raw_device r)"]
    by (auto simp: len word_le_nat_alt not_le)
qed


text \<open>The only error of validation is \<open>InvalidField\<close>.\<close>

definition field_error :: "ConfigError + 'a \<Rightarrow> bool" where
  "field_error r =
     (case r of Inr _ \<Rightarrow> True | Inl e \<Rightarrow> (case e of InvalidField _ _ \<Rightarrow> True | _ \<Rightarrow> False))"

lemma field_error_simps [simp]:
  "field_error (Inr v)"
  "field_error (Inl (InvalidField field reason))"
  by (simp_all add: field_error_def)

lemma field_error_and_then: "field_error r \<Longrightarrow> (\<And>v. field_error (f v)) \<Longrightarrow> field_error (and_then r f)"
  by (cases r) (auto simp: field_error_def)

lemma validate_field_error: "field_error (RawConfig_validate r)"
  unfolding RawConfig_validate_def Let_def validate_identifier_def validate_text_def
    validate_host_def validate_topic_def validate_seconds_def validate_absolute_def
  by (auto intro!: field_error_and_then)


section \<open>Properties\<close>

text \<open>
  C11. Validation is sound and complete: \<open>RawConfig::validate\<close> accepts exactly the documents whose
  identifiers, texts, host, port, topics, paths and durations obey the stated rules (\<open>raw_ok\<close>; a
  topic is split into levels, none of them empty), and the result carries the document's values.\<close>

theorem validate_sound_complete:
  "(RawConfig_validate r = Inr c \<longleftrightarrow> raw_ok r \<and> c = config_of r) \<and>
   (\<not> raw_ok r \<longleftrightarrow> (\<exists>field reason. RawConfig_validate r = Inl (InvalidField field reason)))"
proof
  show "RawConfig_validate r = Inr c \<longleftrightarrow> raw_ok r \<and> c = config_of r" by (rule validate_iff)
  have "(\<exists>c. RawConfig_validate r = Inr c) \<or>
      (\<exists>field reason. RawConfig_validate r = Inl (InvalidField field reason))"
    using validate_field_error [of r]
    by (cases "RawConfig_validate r") (auto simp: field_error_def split: ConfigError.splits)
  then show "\<not> raw_ok r \<longleftrightarrow> (\<exists>field reason. RawConfig_validate r = Inl (InvalidField field reason))"
    using validate_iff [of r] by force
qed

text \<open>
  C31. The three topics derived from an accepted configuration are pairwise distinct concrete MQTT
  topics (no empty level, no wildcard, no control character, at most 65535 bytes), so a published
  message can never be delivered to a wildcard or to the wrong one of the three topics.\<close>

theorem config_topics_distinct:
  "case RawConfig_validate r of
     Inl _ \<Rightarrow> True
   | Inr c \<Rightarrow>
       (let topics = [state_topic (cfg_mqtt c), availability_topic (cfg_mqtt c),
                      discovery_topic (cfg_mqtt c) (dc_id (cfg_device c))]
        in distinct topics \<and> list_all concrete_topic topics)"
proof (cases "RawConfig_validate r")
  case (Inr c)
  define b p i where "b = rm_base_topic (raw_mqtt r)" and "p = rm_discovery_prefix (raw_mqtt r)"
    and "i = rw_id (raw_device r)"
  have ok: "raw_ok r" and c: "c = config_of r" using Inr by (simp_all add: validate_iff)
  have facts: "concrete_topic b" "concrete_topic p" "identifier_ok 64 (lit ''_-'') i"
      "str_len b + 13 \<le> 65535" "str_len p + length i + 15 \<le> 65535"
    using ok by (simp_all add: raw_ok_def Let_def b_def p_def i_def)
  have chars: "x \<in> set i \<Longrightarrow> is_ascii_alphanumeric x \<or> x = 95 \<or> x = 45" for x
    using facts(3) by (auto simp: identifier_ok_def lit_Cons)
  have id_chars: "x < 128 \<and> x \<noteq> 47 \<and> x \<noteq> 43 \<and> x \<noteq> 35 \<and> \<not> is_control x" if "x \<in> set i" for x
    using chars [OF that] by (auto simp: is_ascii_alphanumeric_def is_ascii_digit_def
        is_ascii_uppercase_def is_ascii_lowercase_def is_control_def)
  have ilen: "str_len i = length i" and i: "i \<noteq> []"
    using id_chars facts(3) by (auto simp: identifier_ok_def list_all_iff intro: str_len_ascii)
  have id_levels: "split_on (\<lambda>c. c = 47) i = [i]"
    using id_chars by (intro split_on_none) (auto simp: list_all_iff)
  have "length i \<le> 64" using facts(3) by (simp add: identifier_ok_def)
  then have id_topic: "concrete_topic i"
    using id_chars ilen i by (auto simp: concrete_topic_def topic_levels_def id_levels)
  have words: "concrete_topic (lit ''state'')" "concrete_topic (lit ''availability'')"
      "concrete_topic (lit ''device'')" "concrete_topic (lit ''config'')"
    by (simp_all add: concrete_topic_def topic_levels_def str_eval)
  have split: "lit ''/state'' = 47 # lit ''state''" "lit ''/availability'' = 47 # lit ''availability''"
      "lit ''/device/'' = 47 # lit ''device'' @ [47]" "lit ''/config'' = 47 # lit ''config''"
    by (simp_all add: lit_Cons)
  have lens: "str_len (b @ 47 # lit ''state'') = str_len b + 6"
      "str_len (b @ 47 # lit ''availability'') = str_len b + 13"
      "str_len (lit ''device'' @ 47 # i @ 47 # lit ''config'') = length i + 14"
      "str_len (i @ 47 # lit ''config'') = length i + 7"
      "str_len (p @ 47 # lit ''device'' @ 47 # i @ 47 # lit ''config'') = str_len p + length i + 15"
    using ilen by (simp_all add: str_len_def lit_Cons utf8_encode_char_def)
  have "concrete_topic (b @ 47 # lit ''state'')" "concrete_topic (b @ 47 # lit ''availability'')"
    "concrete_topic (p @ 47 # lit ''device'' @ 47 # i @ 47 # lit ''config'')"
    unfolding concrete_topic_append using facts id_topic words lens by simp_all
  moreover have "b @ lit ''/state'' \<noteq> b @ lit ''/availability''" by simp
  moreover have "last (b @ lit ''/state'') \<noteq> last (p @ lit ''/device/'' @ i @ lit ''/config'')"
    "last (b @ lit ''/availability'') \<noteq> last (p @ lit ''/device/'' @ i @ lit ''/config'')"
    by (simp_all add: lit_Cons)
  then have "b @ lit ''/state'' \<noteq> p @ lit ''/device/'' @ i @ lit ''/config''"
    "b @ lit ''/availability'' \<noteq> p @ lit ''/device/'' @ i @ lit ''/config''" by fastforce+
  ultimately show ?thesis
    using Inr c
    by (auto simp: state_topic_def availability_topic_def discovery_topic_def config_of_def
        b_def [symmetric] p_def [symmetric] i_def [symmetric] Let_def split)
qed simp

text \<open>
  Every accepted configuration, whatever the file contains, has a non-zero port, a keep-alive of
  5 s to 1 h, a collection interval of 5 s to 24 h and a command timeout of 1 s to 30 s that is
  shorter than the interval.\<close>

theorem config_durations_bounded:
  "case Config_load fs toml p of
     Inl _ \<Rightarrow> True
   | Inr c \<Rightarrow>
       mc_port (cfg_mqtt c) \<noteq> 0 \<and>
       mc_keep_alive (cfg_mqtt c) \<in> {from_secs 5..from_secs 3600} \<and>
       cc_interval (cfg_collector c) \<in> {from_secs 5..from_secs 86400} \<and>
       cc_command_timeout (cfg_collector c) \<in> {from_secs 1..from_secs 30} \<and>
       cc_command_timeout (cfg_collector c) < cc_interval (cfg_collector c)"
proof (cases "Config_load fs toml p")
  case (Inr c)
  then obtain r where "RawConfig_validate r = Inr c"
    by (auto simp: Config_load_def Config_parse_def result_iff split: if_splits)
  then have "raw_ok r" "c = config_of r" by (simp_all add: validate_iff)
  with Inr show ?thesis by (simp add: raw_ok_def config_of_def Let_def from_secs_def)
qed simp

lemma strip_final_newline_split:
  "content = strip_final_newline content @
     (if ends_with content [13, 10] then [13, 10] else if ends_with content [10] then [10] else [])"
proof -
  have "ends_with content [13, 10] \<Longrightarrow> \<exists>t. content = t @ [13, 10]" by (simp add: ends_with_iff)
  moreover have "ends_with content [10] \<Longrightarrow> \<exists>t. content = t @ [10]" by (simp add: ends_with_iff)
  ultimately show ?thesis by (auto simp: strip_final_newline_def)
qed

text \<open>
  C32. Loaded credentials come from a regular file of at most 64 KiB that the group cannot write and
  others cannot access; the password is the file's text less exactly one final LF or CRLF (if any),
  and has between 1 and 65535 bytes.\<close>

theorem credentials_load_sound:
  "case MqttCredentials_load fs config of
     Inl _ \<Rightarrow> True
   | Inr cr \<Rightarrow>
       cr_username cr = mc_username config \<and>
       (\<exists>md bytes text nl.
          fs_metadata fs (mc_password_file config) = Inr md \<and>
          md_is_file md \<and> unat (md_len md) \<le> 65536 \<and> md_mode md AND 23 = 0 \<and>
          fs_read fs (mc_password_file config) = Inr bytes \<and> from_utf8 bytes = Some text \<and>
          text = cr_password cr @ nl \<and>
          nl = (if ends_with text [13, 10] then [13, 10]
                else if ends_with text [10] then [10] else [])) \<and>
       1 \<le> str_len (cr_password cr) \<and> str_len (cr_password cr) \<le> 65535"
proof (cases "MqttCredentials_load fs config")
  case (Inr cr)
  then obtain md bytes content where parts: "fs_metadata fs (mc_password_file config) = Inr md"
      "md_is_file md" "unat (md_len md) \<le> 65536" "md_mode md AND 23 = 0"
      "fs_read fs (mc_password_file config) = Inr bytes" "from_utf8 bytes = Some content"
      "strip_final_newline content \<noteq> []" "str_len (strip_final_newline content) \<le> 65535"
    and cr: "cr = \<lparr>cr_username = mc_username config, cr_password = strip_final_newline content\<rparr>"
    by (auto simp: MqttCredentials_load_def validate_secret_permissions_def result_iff Let_def
        MAX_PASSWORD_BYTES_def not_less split: if_splits)
  have "1 \<le> length (strip_final_newline content)" using parts(7) by (simp add: Suc_le_eq)
  then have "1 \<le> str_len (strip_final_newline content)"
    using length_le_str_len [of "strip_final_newline content"] by linarith
  with Inr parts cr strip_final_newline_split [of content] show ?thesis by simp
qed simp

end
