(* ===== verification/Metrics_Error.thy ===== *)
theory Metrics_Error
  imports F64
begin

text \<open>
  The error type of the metric parsers (\<open>src/metrics/mod.rs\<close>): a static source name and a
  detail text.  Every parser of \<open>src/metrics\<close> is a function into \<open>ParseError + 'a\<close>.
\<close>

record ParseError =
  pe_source_name :: rstr
  pe_detail :: rstr

definition ParseError_new :: "rstr \<Rightarrow> rstr \<Rightarrow> ParseError" where
  "ParseError_new source_name detail = \<lparr>pe_source_name = source_name, pe_detail = detail\<rparr>"

definition ParseError_display :: "ParseError \<Rightarrow> rstr" where
  "ParseError_display e =
     lit ''could not parse '' @ pe_source_name e @ lit '': '' @ pe_detail e"

lemma ParseError_new_sel [simp]:
  "pe_source_name (ParseError_new s d) = s"
  "pe_detail (ParseError_new s d) = d"
  by (simp_all add: ParseError_new_def)

lemma ParseError_new_eq [simp]:
  "ParseError_new s d = ParseError_new s' d' \<longleftrightarrow> s = s' \<and> d = d'"
  by (simp add: ParseError_new_def)


section \<open>Where an error comes from\<close>

text \<open>A result whose error, if it is one, names the given source.\<close>

definition errors_from :: "rstr \<Rightarrow> ParseError + 'a \<Rightarrow> bool" where
  "errors_from s r = (case r of Inl e \<Rightarrow> pe_source_name e = s | Inr _ \<Rightarrow> True)"

lemma errors_from_basic [simp]:
  "errors_from s (Inr v)"
  "errors_from s (Inl e) \<longleftrightarrow> pe_source_name e = s"
  "errors_from s (ok_or x (ParseError_new s d))"
  by (simp_all add: errors_from_def ok_or_def split: option.split)

lemma errors_from_and_then [intro]:
  "errors_from s r \<Longrightarrow> (\<And>v. errors_from s (f v)) \<Longrightarrow> errors_from s (and_then r f)"
  by (cases r) auto

lemma errors_from_map_ok [simp]: "errors_from s (map_ok f r) \<longleftrightarrow> errors_from s r"
  by (cases r) auto

lemma errors_from_try_fold:
  "(\<And>a x. errors_from s (f a x)) \<Longrightarrow> errors_from s (try_fold f a xs)"
  by (induction xs arbitrary: a) auto

end
