(* ===== verification/Metrics_Temperature.thy ===== *)
theory Metrics_Temperature
  imports Metrics_Error
begin

text \<open>
  \<open>src/metrics/temperature.rs\<close>: the CPU temperature from sysfs (thousandths of a degree) and
  from the firmware command.
\<close>

definition SYSFS_TEMPERATURE :: rstr where "SYSFS_TEMPERATURE = lit ''CPU thermal zone''"
definition FIRMWARE_TEMPERATURE :: rstr where "FIRMWARE_TEMPERATURE = lit ''firmware temperature''"

definition parse_millidegrees_celsius :: "rstr \<Rightarrow> ParseError + f64" where
  "parse_millidegrees_celsius input =
     (let flds = split_whitespace input in
      and_then (ok_or (nth_opt flds 0)
                  (ParseError_new SYSFS_TEMPERATURE (lit ''the value is missing'')))
        (\<lambda>raw.
          if nth_opt flds 1 \<noteq> None
          then Inl (ParseError_new SYSFS_TEMPERATURE (lit ''the value contains unexpected fields''))
          else
            and_then (ok_or (parse_i64 raw)
                        (ParseError_new SYSFS_TEMPERATURE (lit ''the value is not a signed integer'')))
              (\<lambda>millidegrees. Inr (f64_div (f64_of_int millidegrees) (f64_lit 1000)))))"

text \<open>The suffixes \<open>'C\<close> and (degree sign) \<open>C\<close>.\<close>

definition quote_C :: rstr where "quote_C = [39, 67]"
definition degree_C :: rstr where "degree_C = [176, 67]"

definition parse_vcgencmd_temperature :: "rstr \<Rightarrow> ParseError + f64" where
  "parse_vcgencmd_temperature input =
     and_then (ok_or (split_once 61 (trim input))
                 (ParseError_new FIRMWARE_TEMPERATURE (lit ''the assignment is missing'')))
       (\<lambda>(key, raw_value).
         if trim key \<noteq> lit ''temp''
         then Inl (ParseError_new FIRMWARE_TEMPERATURE (lit ''the expected temp key is missing''))
         else
           let raw_value = trim raw_value in
           and_then (ok_or (or_else (strip_suffix quote_C raw_value)
                                    (strip_suffix degree_C raw_value))
                       (ParseError_new FIRMWARE_TEMPERATURE
                          (lit ''the Celsius unit suffix is missing'')))
             (\<lambda>numeric.
               and_then (ok_or (parse_f64 (trim numeric))
                           (ParseError_new FIRMWARE_TEMPERATURE (lit ''the value is not a number'')))
                 (\<lambda>value.
                   if \<not> f64_is_finite value
                   then Inl (ParseError_new FIRMWARE_TEMPERATURE (lit ''the value must be finite''))
                   else Inr value)))"


section \<open>Properties\<close>

text \<open>
  For every signed 64-bit number of thousandths of a degree, the sysfs text (the number and a
  line feed) is accepted and the result is finite and within a relative error of \<open>2^-51\<close> of the
  exact temperature; sub-zero readings keep their sign.
\<close>

theorem parse_millidegrees_accurate:
  assumes "- (2 ^ 63) \<le> i" "i < 2 ^ 63"
  shows "\<exists>s m. parse_millidegrees_celsius (show_int i @ [10]) = Inr (F64_Fin s m) \<and>
    \<bar>f64_val (F64_Fin s m) - of_int i / 1000\<bar> \<le> of_int \<bar>i\<bar> / 1000 / 2 ^ 51"
proof -
  have "\<bar>i\<bar> < 2 ^ 64" using assms by auto
  then obtain s m where "f64_div (f64_of_int i) (f64_lit 1000) = F64_Fin s m"
    and err: "\<bar>f64_val (F64_Fin s m) - of_int i / 1000\<bar> \<le> of_int \<bar>i\<bar> / 1000 / 2 ^ 51"
    using f64_thousandth [of i] by blast
  moreover have "split_whitespace (show_int i @ [10]) = [show_int i]"
    using split_whitespace_append [of 10 "show_int i" "[]"]
    by (simp add: split_whitespace_single is_word_show_int)
  ultimately have "parse_millidegrees_celsius (show_int i @ [10]) = Inr (F64_Fin s m)"
    using parse_i64_show_int [OF assms] by (simp add: parse_millidegrees_celsius_def)
  with err show ?thesis by blast
qed

theorem parse_millidegrees_accurate_witness:
  "\<exists>s m. parse_millidegrees_celsius (show_int (- 5250) @ [10]) = Inr (F64_Fin s m) \<and>
    \<bar>f64_val (F64_Fin s m) - of_int (- 5250) / 1000\<bar> \<le> of_int \<bar>- 5250\<bar> / 1000 / 2 ^ 51"
  by (rule parse_millidegrees_accurate) simp_all

text \<open>
  The firmware answer \<open>temp=<number>'C\<close>, with a trailing line feed, parses to the number
  whenever it is a finite \<open>f64\<close>; the degree-sign suffix is accepted in the same way.
\<close>

theorem parse_vcgencmd_temperature_accepts:
  assumes "is_word num" "parse_f64 num = Some v" "f64_is_finite v"
    and "suffix = quote_C \<or> suffix = degree_C"
  shows "parse_vcgencmd_temperature (lit ''temp='' @ num @ suffix @ [10]) = Inr v"
proof -
  have num: "num \<noteq> []" "\<not> is_whitespace (hd num)" "trim num = num"
    using assms(1) by (auto simp: is_word_def list_all_iff trim_word)
  have "trim (lit ''temp='' @ num @ suffix) = lit ''temp='' @ num @ suffix"
    using assms(4) by (intro trim_id) (auto simp: lit_Cons quote_C_def degree_C_def)
  then have line: "trim (lit ''temp='' @ num @ suffix @ [10]) = lit ''temp='' @ num @ suffix"
    using trim_snoc [of 10 "lit ''temp='' @ num @ suffix"] by simp
  have key: "split_once 61 (lit ''temp='' @ num @ suffix) = Some (lit ''temp'', num @ suffix)"
    by (subst split_once_iff) (simp add: lit_Cons)
  have temp: "trim (lit ''temp'') = lit ''temp''" by (rule trim_id) (simp add: lit_Cons)
  have "trim (num @ suffix) = num @ suffix"
    using num assms(4) by (intro trim_id) (auto simp: quote_C_def degree_C_def)
  moreover have "or_else (strip_suffix quote_C (num @ suffix)) (strip_suffix degree_C (num @ suffix))
      = Some num"
    using assms(4) by (auto simp: or_else_eq_Some strip_suffix_iff)
      (simp add: strip_suffix_def quote_C_def degree_C_def)
  ultimately show ?thesis
    using assms(2,3) num by (simp add: parse_vcgencmd_temperature_def line key temp)
qed

theorem parse_vcgencmd_temperature_accepts_witness:
  "parse_vcgencmd_temperature (lit ''temp='' @ lit ''42.5'' @ degree_C @ [10]) =
     Inr (F64_Fin False (85 / 2))"
proof (rule parse_vcgencmd_temperature_accepts)
  show "is_word (lit ''42.5'')" by (simp add: is_word_def lit_Cons)
  show "parse_f64 (lit ''42.5'') = Some (F64_Fin False (85 / 2))" by (simp add: f64_eval)
qed (simp_all add: f64_is_finite_def)

end
