(* ===== verification/Discovery.thy ===== *)
theory Discovery
  imports Service_Config Metrics_Temperature
begin

text \<open>
  \<open>src/discovery.rs\<close>: the Home Assistant Device Discovery document.  The document is a value of the
  serde data model (\<open>json\<close>, fields in order, absent optional fields skipped); turning it into text
  is \<open>serde_json::to_string\<close>, the parameter \<open>to_string\<close>, which may fail with an error text.  A
  \<open>BTreeMap\<close> is the list of its entries sorted by key.
\<close>

definition ORIGIN_NAME :: rstr where "ORIGIN_NAME = lit ''rpi-health-mqtt''"
definition SOFTWARE_VERSION :: rstr where "SOFTWARE_VERSION = VERSION"
definition MANUFACTURER :: rstr where "MANUFACTURER = lit ''Raspberry Pi''"
definition ONLINE_PAYLOAD :: rstr where "ONLINE_PAYLOAD = lit ''online''"
definition OFFLINE_PAYLOAD :: rstr where "OFFLINE_PAYLOAD = lit ''offline''"
definition MINIMUM_EXPIRE_AFTER_SECONDS :: u64 where "MINIMUM_EXPIRE_AFTER_SECONDS = 90"
definition HEALTH_OPTIONS :: "rstr list" where
  "HEALTH_OPTIONS = [lit ''ok'', lit ''warning'', lit ''critical'', lit ''degraded'']"


section \<open>Settings and topics\<close>

record DiscoverySettings =
  ds_device_id :: rstr
  ds_name :: rstr
  ds_base_topic :: rstr
  ds_discovery_prefix :: rstr
  ds_interval :: duration
  ds_model :: "rstr option"
  ds_serial_number :: "rstr option"
  ds_hardware_version :: "rstr option"

definition DiscoverySettings_new ::
  "rstr \<Rightarrow> rstr \<Rightarrow> rstr \<Rightarrow> rstr \<Rightarrow> duration \<Rightarrow> DiscoverySettings" where
  "DiscoverySettings_new device_id name base_topic discovery_prefix interval =
     \<lparr>ds_device_id = device_id, ds_name = name, ds_base_topic = base_topic,
      ds_discovery_prefix = discovery_prefix, ds_interval = interval, ds_model = None,
      ds_serial_number = None, ds_hardware_version = None\<rparr>"

definition with_model :: "rstr \<Rightarrow> DiscoverySettings \<Rightarrow> DiscoverySettings" where
  "with_model model s = s\<lparr>ds_model := Some model\<rparr>"

definition with_serial_number :: "rstr \<Rightarrow> DiscoverySettings \<Rightarrow> DiscoverySettings" where
  "with_serial_number n s = s\<lparr>ds_serial_number := Some n\<rparr>"

definition with_hardware_version :: "rstr \<Rightarrow> DiscoverySettings \<Rightarrow> DiscoverySettings" where
  "with_hardware_version v s = s\<lparr>ds_hardware_version := Some v\<rparr>"

definition trim_slashes :: "rstr \<Rightarrow> rstr" where
  "trim_slashes t = trim_end_matches (\<lambda>c. c = 47) t"

definition child_topic :: "rstr \<Rightarrow> rstr \<Rightarrow> rstr" where
  "child_topic base_topic child = trim_slashes base_topic @ lit ''/'' @ child"

definition ds_discovery_topic :: "DiscoverySettings \<Rightarrow> rstr" where
  "ds_discovery_topic s =
     trim_slashes (ds_discovery_prefix s) @ lit ''/device/'' @ ds_device_id s @ lit ''/config''"

definition ds_state_topic :: "DiscoverySettings \<Rightarrow> rstr" where
  "ds_state_topic s = child_topic (ds_base_topic s) (lit ''state'')"

definition ds_availability_topic :: "DiscoverySettings \<Rightarrow> rstr" where
  "ds_availability_topic s = child_topic (ds_base_topic s) (lit ''availability'')"

definition expire_after_seconds :: "DiscoverySettings \<Rightarrow> u64" where
  "expire_after_seconds s =
     max (saturating_mul (of_nat (as_secs (ds_interval s))) 3) MINIMUM_EXPIRE_AFTER_SECONDS"


section \<open>Components\<close>

datatype Platform = Sensor | BinarySensor

fun Platform_as_str :: "Platform \<Rightarrow> rstr" where
  "Platform_as_str Sensor = lit ''sensor''"
| "Platform_as_str BinarySensor = lit ''binary_sensor''"

record ComponentDefinition =
  cd_key :: rstr
  cd_platform :: Platform
  cd_name :: rstr
  cd_enabled_by_default :: bool
  cd_device_class :: "rstr option"
  cd_state_class :: "rstr option"
  cd_unit_of_measurement :: "rstr option"
  cd_suggested_display_precision :: "nat option"
  cd_options :: "rstr list option"
  cd_payload_on :: "rstr option"
  cd_payload_off :: "rstr option"
  cd_value_template :: rstr

record ComponentConfig =
  co_platform :: rstr
  co_name :: rstr
  co_unique_id :: rstr
  co_default_entity_id :: rstr
  co_enabled_by_default :: bool
  co_entity_category :: rstr
  co_expire_after :: u64
  co_device_class :: "rstr option"
  co_state_class :: "rstr option"
  co_unit_of_measurement :: "rstr option"
  co_suggested_display_precision :: "nat option"
  co_options :: "rstr list option"
  co_payload_on :: "rstr option"
  co_payload_off :: "rstr option"
  co_value_template :: rstr

definition to_config :: "ComponentDefinition \<Rightarrow> DiscoverySettings \<Rightarrow> rstr \<Rightarrow> ComponentConfig" where
  "to_config d settings device_slug =
     \<lparr>co_platform = Platform_as_str (cd_platform d),
      co_name = cd_name d,
      co_unique_id = ds_device_id settings @ lit ''_'' @ cd_key d,
      co_default_entity_id =
        Platform_as_str (cd_platform d) @ lit ''.'' @ device_slug @ lit ''_'' @ cd_key d,
      co_enabled_by_default = cd_enabled_by_default d,
      co_entity_category = lit ''diagnostic'',
      co_expire_after = expire_after_seconds settings,
      co_device_class = cd_device_class d,
      co_state_class = cd_state_class d,
      co_unit_of_measurement = cd_unit_of_measurement d,
      co_suggested_display_precision = cd_suggested_display_precision d,
      co_options = cd_options d,
      co_payload_on = cd_payload_on d,
      co_payload_off = cd_payload_off d,
      co_value_template = cd_value_template d\<rparr>"

definition normalize_device_slug :: "rstr \<Rightarrow> rstr" where
  "normalize_device_slug device_id =
     map (\<lambda>c. if c = 45 then 95 else to_ascii_lowercase c) device_id"

definition sensor ::
  "rstr \<Rightarrow> rstr \<Rightarrow> bool \<Rightarrow> rstr option \<Rightarrow> rstr option \<Rightarrow> rstr option \<Rightarrow> nat option \<Rightarrow>
   rstr list option \<Rightarrow> rstr \<Rightarrow> ComponentDefinition" where
  "sensor key name enabled_by_default device_class state_class unit_of_measurement
     suggested_display_precision options value_template =
     \<lparr>cd_key = key, cd_platform = Sensor, cd_name = name,
      cd_enabled_by_default = enabled_by_default, cd_device_class = device_class,
      cd_state_class = state_class, cd_unit_of_measurement = unit_of_measurement,
      cd_suggested_display_precision = suggested_display_precision, cd_options = options,
      cd_payload_on = None, cd_payload_off = None, cd_value_template = value_template\<rparr>"

definition binary_sensor :: "rstr \<Rightarrow> rstr \<Rightarrow> bool \<Rightarrow> rstr \<Rightarrow> ComponentDefinition" where
  "binary_sensor key name enabled_by_default value_template =
     \<lparr>cd_key = key, cd_platform = BinarySensor, cd_name = name,
      cd_enabled_by_default = enabled_by_default, cd_device_class = Some (lit ''problem''),
      cd_state_class = None, cd_unit_of_measurement = None,
      cd_suggested_display_precision = None, cd_options = None,
      cd_payload_on = Some (lit ''ON''), cd_payload_off = Some (lit ''OFF''),
      cd_value_template = value_template\<rparr>"

definition degree_celsius :: rstr where "degree_celsius = 176 # lit ''C''"

text \<open>The template of the binary sensors: \<open>ON\<close>, \<open>OFF\<close> or nothing for the flag at a path.\<close>

definition on_off_template :: "string \<Rightarrow> rstr" where
  "on_off_template p =
     lit ''{% set v = value_json.'' @ lit p @
     lit '' %}{{ 'ON' if v is true else ('OFF' if v is false else none) }}''"

definition CPU_COMPONENTS :: "ComponentDefinition list" where
  "CPU_COMPONENTS =
     [sensor (lit ''health_status'') (lit ''Health status'') True (Some (lit ''enum''))
          None None None (Some HEALTH_OPTIONS)
          (lit ''{{ value_json.health.status }}''),
      sensor (lit ''cpu_temperature'') (lit ''CPU temperature'')
          True (Some (lit ''temperature'')) (Some (lit ''measurement'')) (Some degree_celsius)
          (Some 1) None
          (lit ''{{ value_json.cpu.temperature_c if value_json.cpu.temperature_c is'' @
            lit '' not none else none }}''),
      sensor (lit ''cpu_usage'') (lit ''CPU usage'') True None (Some (lit ''measurement''))
          (Some (lit ''%'')) (Some 1) None
          (lit ''{{ value_json.cpu.usage_percent if value_json.cpu.usage_percent is'' @
            lit '' not none else none }}''),
      sensor (lit ''load_1'') (lit ''1-minute load average'')
          False None (Some (lit ''measurement'')) None (Some 2) None
          (lit ''{{ value_json.cpu.load_1 if value_json.cpu.load_1 is not none else none }}''),
      sensor (lit ''load_5'') (lit ''5-minute load average'')
          False None (Some (lit ''measurement'')) None (Some 2) None
          (lit ''{{ value_json.cpu.load_5 if value_json.cpu.load_5 is not none else none }}''),
      sensor (lit ''load_15'') (lit ''15-minute load average'')
          False None (Some (lit ''measurement'')) None (Some 2) None
          (lit ''{{ value_json.cpu.load_15 if value_json.cpu.load_15 is not none else none }}''),
      sensor (lit ''cpu_frequency'') (lit ''CPU frequency'') False (Some (lit ''frequency''))
          (Some (lit ''measurement'')) (Some (lit ''MHz'')) (Some 1) None
          (lit ''{{ value_json.cpu.frequency_mhz if value_json.cpu.frequency_mhz is'' @
            lit '' not none else none }}''),
      sensor (lit ''memory_usage'') (lit ''Memory usage'') True None (Some (lit ''measurement''))
          (Some (lit ''%'')) (Some 1) None
          (lit ''{{ value_json.memory.used_percent if value_json.memory.used_percent'' @
            lit '' is not none else none }}''),
      sensor (lit ''memory_available'') (lit ''Memory available'')
          False (Some (lit ''data_size'')) (Some (lit ''measurement'')) (Some (lit ''GiB''))
          (Some 2) None
          (lit ''{{ ((value_json.memory.available_bytes / 1073741824) | round(2)) if'' @
            lit '' value_json.memory.available_bytes is not none else none }}'')]"

definition RESOURCE_COMPONENTS :: "ComponentDefinition list" where
  "RESOURCE_COMPONENTS =
     [sensor (lit ''swap_usage'') (lit ''Swap usage'') True None (Some (lit ''measurement''))
          (Some (lit ''%'')) (Some 1) None
          (lit ''{{ value_json.swap.used_percent if value_json.swap.used_percent is'' @
            lit '' not none else none }}''),
      sensor (lit ''swap_used'') (lit ''Swap used'') False (Some (lit ''data_size''))
          (Some (lit ''measurement'')) (Some (lit ''MiB'')) (Some 1) None
          (lit ''{{ ((value_json.swap.used_bytes / 1048576) | round(1)) if'' @
            lit '' value_json.swap.used_bytes is not none else none }}''),
      sensor (lit ''disk_usage'') (lit ''Disk usage'') True None (Some (lit ''measurement''))
          (Some (lit ''%'')) (Some 1) None
          (lit ''{{ value_json.disk.used_percent if value_json.disk.used_percent is'' @
            lit '' not none else none }}''),
      sensor (lit ''disk_available'') (lit ''Disk available'') True (Some (lit ''data_size''))
          (Some (lit ''measurement'')) (Some (lit ''GiB'')) (Some 2) None
          (lit ''{{ ((value_json.disk.available_bytes / 1073741824) | round(2)) if'' @
            lit '' value_json.disk.available_bytes is not none else none }}''),
      sensor (lit ''uptime'') (lit ''Uptime'') True (Some (lit ''duration''))
          (Some (lit ''measurement'')) (Some (lit ''s'')) (Some 0) None
          (lit ''{{ value_json.uptime_seconds if value_json.uptime_seconds is not none'' @
            lit '' else none }}''),
      sensor (lit ''last_observation'') (lit ''Last observation'')
          False (Some (lit ''timestamp'')) None None None None
          (lit ''{{ value_json.observed_at }}''),
      sensor (lit ''throttled_raw'') (lit ''Raw throttling flags'') False None None None None None
          (lit ''{{ value_json.power.throttled_raw if value_json.power.throttled_raw'' @
            lit '' is not none else none }}''),
      sensor (lit ''collection_duration'') (lit ''Collection duration'')
          False (Some (lit ''duration'')) (Some (lit ''measurement'')) (Some (lit ''ms''))
          (Some 0) None
          (lit ''{{ value_json.service.collection_duration_ms }}''),
      sensor (lit ''collector_error_count'') (lit ''Collector error count'')
          False None (Some (lit ''measurement'')) None (Some 0) None
          (lit ''{{ value_json.health.collector_errors | count }}'')]"

definition POWER_COMPONENTS :: "ComponentDefinition list" where
  "POWER_COMPONENTS =
     [binary_sensor (lit ''undervoltage_now'') (lit ''Current undervoltage'') True
          (on_off_template ''power.undervoltage_now''),
      binary_sensor (lit ''undervoltage_since_boot'') (lit ''Undervoltage since boot'') True
          (on_off_template ''power.undervoltage_since_boot''),
      binary_sensor (lit ''throttled_now'') (lit ''Current throttling'') True
          (on_off_template ''power.throttled_now''),
      binary_sensor (lit ''throttled_since_boot'') (lit ''Throttling since boot'') True
          (on_off_template ''power.throttled_since_boot''),
      binary_sensor (lit ''arm_frequency_capped_now'') (lit ''ARM frequency capped'') False
          (on_off_template ''power.arm_frequency_capped_now''),
      binary_sensor (lit ''arm_frequency_capped_since_boot'')
          (lit ''ARM frequency capped since boot'') False
          (on_off_template ''power.arm_frequency_capped_since_boot''),
      binary_sensor (lit ''soft_temperature_limit_now'') (lit ''Soft temperature limit'') False
          (on_off_template ''power.soft_temperature_limit_now''),
      binary_sensor (lit ''soft_temperature_limit_since_boot'')
          (lit ''Soft temperature limit since boot'') False
          (on_off_template ''power.soft_temperature_limit_since_boot'')]"

definition COMPONENT_DEFINITIONS :: "ComponentDefinition list" where
  "COMPONENT_DEFINITIONS = CPU_COMPONENTS @ RESOURCE_COMPONENTS @ POWER_COMPONENTS"

definition build_components :: "DiscoverySettings \<Rightarrow> (rstr \<times> ComponentConfig) list" where
  "build_components settings =
     (let device_slug = normalize_device_slug (ds_device_id settings) in
      btree_collect
        (map (\<lambda>d. (cd_key d, to_config d settings device_slug)) COMPONENT_DEFINITIONS))"


section \<open>The document\<close>

text \<open>An optional field with \<open>skip_serializing_if = "Option::is_none"\<close>.\<close>

definition skip_none :: "char list \<Rightarrow> ('a \<Rightarrow> json) \<Rightarrow> 'a option \<Rightarrow> (rstr \<times> json) list" where
  "skip_none name f v = (case v of None \<Rightarrow> [] | Some x \<Rightarrow> [(lit name, f x)])"

definition ComponentConfig_json :: "ComponentConfig \<Rightarrow> json" where
  "ComponentConfig_json c =
     JObj
       ([(lit ''platform'', JStr (co_platform c)), (lit ''name'', JStr (co_name c)),
         (lit ''unique_id'', JStr (co_unique_id c)),
         (lit ''default_entity_id'', JStr (co_default_entity_id c)),
         (lit ''enabled_by_default'', JBool (co_enabled_by_default c)),
         (lit ''entity_category'', JStr (co_entity_category c)),
         (lit ''expire_after'', JU64 (unat (co_expire_after c)))] @
        skip_none ''device_class'' JStr (co_device_class c) @
        skip_none ''state_class'' JStr (co_state_class c) @
        skip_none ''unit_of_measurement'' JStr (co_unit_of_measurement c) @
        skip_none ''suggested_display_precision'' JU64 (co_suggested_display_precision c) @
        skip_none ''options'' (\<lambda>os. JArr (map JStr os)) (co_options c) @
        skip_none ''payload_on'' JStr (co_payload_on c) @
        skip_none ''payload_off'' JStr (co_payload_off c) @
        [(lit ''value_template'', JStr (co_value_template c))])"

definition device_info_json :: "DiscoverySettings \<Rightarrow> json" where
  "device_info_json s =
     JObj
       ([(lit ''identifiers'', JArr [JStr (ds_device_id s)]), (lit ''name'', JStr (ds_name s)),
         (lit ''manufacturer'', JStr MANUFACTURER), (lit ''sw_version'', JStr SOFTWARE_VERSION)] @
        skip_none ''model'' JStr (ds_model s) @
        skip_none ''serial_number'' JStr (ds_serial_number s) @
        skip_none ''hw_version'' JStr (ds_hardware_version s))"

definition discovery_document :: "DiscoverySettings \<Rightarrow> json" where
  "discovery_document s =
     JObj
       [(lit ''device'', device_info_json s),
        (lit ''origin'',
           JObj [(lit ''name'', JStr ORIGIN_NAME), (lit ''sw_version'', JStr SOFTWARE_VERSION)]),
        (lit ''state_topic'', JStr (ds_state_topic s)),
        (lit ''availability_topic'', JStr (ds_availability_topic s)),
        (lit ''payload_available'', JStr ONLINE_PAYLOAD),
        (lit ''payload_not_available'', JStr OFFLINE_PAYLOAD),
        (lit ''qos'', JU64 0),
        (lit ''components'',
           JObj (map (\<lambda>(k, c). (k, ComponentConfig_json c)) (build_components s)))]"

record DiscoveryMessage =
  dm_topic :: rstr
  dm_payload :: rstr

definition build_discovery_message ::
  "(json \<Rightarrow> rstr + rstr) \<Rightarrow> DiscoverySettings \<Rightarrow> rstr + DiscoveryMessage" where
  "build_discovery_message to_string s =
     and_then (to_string (discovery_document s))
       (\<lambda>payload. Inr \<lparr>dm_topic = ds_discovery_topic s, dm_payload = payload\<rparr>)"



section \<open>Facts: the component table\<close>

lemmas component_table = COMPONENT_DEFINITIONS_def CPU_COMPONENTS_def RESOURCE_COMPONENTS_def
  POWER_COMPONENTS_def sensor_def binary_sensor_def

definition component_keys :: "string list" where
  "component_keys =
     [''health_status'', ''cpu_temperature'', ''cpu_usage'', ''load_1'', ''load_5'', ''load_15'',
      ''cpu_frequency'', ''memory_usage'', ''memory_available'', ''swap_usage'', ''swap_used'',
      ''disk_usage'', ''disk_available'', ''uptime'', ''last_observation'', ''throttled_raw'',
      ''collection_duration'', ''collector_error_count'', ''undervoltage_now'',
      ''undervoltage_since_boot'', ''throttled_now'', ''throttled_since_boot'',
      ''arm_frequency_capped_now'', ''arm_frequency_capped_since_boot'',
      ''soft_temperature_limit_now'', ''soft_temperature_limit_since_boot'']"

lemma component_keys: "map cd_key COMPONENT_DEFINITIONS = map lit component_keys"
  by (simp add: component_table component_keys_def)

lemma distinct_component_keys: "distinct component_keys"
  by (simp add: component_keys_def)

lemma distinct_cd_keys: "distinct (map cd_key COMPONENT_DEFINITIONS)"
  unfolding component_keys by (simp add: distinct_map distinct_component_keys inj_on_def)

text \<open>No key is another key preceded by an underscore.\<close>

fun has_suffix :: "string \<Rightarrow> string \<Rightarrow> bool" where
  "has_suffix [] p \<longleftrightarrow> p = []"
| "has_suffix (c # s) p \<longleftrightarrow> c # s = p \<or> has_suffix s p"

lemma has_suffix_append: "has_suffix (a @ p) p"
proof (induction a)
  case Nil
  then show ?case by (cases p) auto
qed simp

lemma no_key_suffix:
  "list_all (\<lambda>a. list_all (\<lambda>b. \<not> has_suffix b (CHR ''_'' # a)) component_keys) component_keys"
  by (simp add: component_keys_def)

lemma lit_append_split:
  assumes "lit b = u @ 95 # lit a"
  shows "has_suffix b (CHR ''_'' # a)"
proof -
  define n where "n = length u"
  have "lit (drop n b) = 95 # lit a"
    using assms by (metis append_eq_conv_conj drop_map lit_def n_def)
  moreover have "lit (CHR ''_'' # a) = 95 # lit a" by (simp add: lit_Cons)
  ultimately have "drop n b = CHR ''_'' # a" by (metis lit_inject)
  then show ?thesis using has_suffix_append by (metis append_take_drop_id)
qed

lemma unique_id_parts:
  assumes "d @ 95 # lit a = d' @ 95 # lit b" "a \<in> set component_keys" "b \<in> set component_keys"
  shows "d = d' \<and> a = b"
proof -
  have no: "lit y \<noteq> u @ 95 # lit x" if "x \<in> set component_keys" "y \<in> set component_keys" for x y u
    using lit_append_split [of y u x] no_key_suffix that by (auto simp: list_all_iff)
  from assms(1) consider u where "d = d' @ u" "u @ 95 # lit a = 95 # lit b"
    | u where "d' = d @ u" "95 # lit a = u @ 95 # lit b"
    by (auto simp: append_eq_append_conv2)
  then show ?thesis
  proof cases
    case 1
    then show ?thesis using no [OF assms(2,3), of "tl u"] by (cases u) auto
  next
    case 2
    then show ?thesis using no [OF assms(3,2), of "tl u"] by (cases u) auto
  qed
qed


section \<open>Facts: the paths the templates read\<close>

text \<open>Every dotted path that follows \<open>value_json.\<close> in a template, up to a blank or parenthesis.\<close>

definition path_char :: "rchar \<Rightarrow> bool" where
  "path_char c \<longleftrightarrow> c \<noteq> 32 \<and> c \<noteq> 41"

fun template_paths :: "rstr \<Rightarrow> rstr list" where
  "template_paths [] = []"
| "template_paths (c # s) =
     (case strip_prefix (lit ''value_json.'') (c # s) of
        None \<Rightarrow> template_paths s
      | Some r \<Rightarrow> takeWhile path_char r # template_paths s)"

fun literal_paths :: "string \<Rightarrow> string list" where
  "literal_paths [] = []"
| "literal_paths (c # s) =
     (if c = CHR ''v''
      then (if take 10 s = ''alue_json.''
            then takeWhile (\<lambda>c. c \<noteq> CHR '' '' \<and> c \<noteq> CHR '')'') (drop 10 s) # literal_paths s
            else literal_paths s)
      else literal_paths s)"

lemma strip_prefix_lit:
  "strip_prefix (lit p) (lit s) =
     (if take (length p) s = p then Some (lit (drop (length p) s)) else None)"
proof (induction p arbitrary: s)
  case (Cons c p)
  then show ?case by (cases s) (auto simp: lit_Cons)
qed (simp add: lit_def)

lemma takeWhile_lit: "takeWhile p (lit s) = lit (takeWhile (\<lambda>c. p (of_char c)) s)"
  by (induction s) (simp_all add: lit_Cons)

lemma path_char_literal: "path_char (of_char c) \<longleftrightarrow> c \<noteq> CHR '' '' \<and> c \<noteq> CHR '')''"
proof -
  have "(32 :: nat) = of_char CHR '' ''" "(41 :: nat) = of_char CHR '')''" by simp_all
  then show ?thesis unfolding path_char_def by (metis of_char_eq_iff)
qed

lemma template_paths_lit: "template_paths (lit s) = map lit (literal_paths s)"
proof (induction s)
  case (Cons c s)
  have "strip_prefix (lit ''value_json.'') (of_char c # lit s) =
      (if take 11 (c # s) = ''value_json.'' then Some (lit (drop 10 s)) else None)"
  proof -
    have "of_char c # lit s = lit (c # s)" "length ''value_json.'' = 11" by (simp_all add: lit_Cons)
    then show ?thesis by (simp only: strip_prefix_lit) (simp add: drop_Cons')
  qed
  then show ?case using Cons by (simp add: lit_Cons takeWhile_lit path_char_literal)
qed simp


definition component_paths :: "string list list" where
  "component_paths =
     [[''health'', ''status''], [''cpu'', ''temperature_c''], [''cpu'', ''usage_percent''],
      [''cpu'', ''load_1''], [''cpu'', ''load_5''], [''cpu'', ''load_15''],
      [''cpu'', ''frequency_mhz''], [''memory'', ''used_percent''],
      [''memory'', ''available_bytes''], [''swap'', ''used_percent''], [''swap'', ''used_bytes''],
      [''disk'', ''used_percent''], [''disk'', ''available_bytes''], [''uptime_seconds''],
      [''observed_at''], [''power'', ''throttled_raw''], [''service'', ''collection_duration_ms''],
      [''health'', ''collector_errors''], [''power'', ''undervoltage_now''],
      [''power'', ''undervoltage_since_boot''], [''power'', ''throttled_now''],
      [''power'', ''throttled_since_boot''], [''power'', ''arm_frequency_capped_now''],
      [''power'', ''arm_frequency_capped_since_boot''],
      [''power'', ''soft_temperature_limit_now''],
      [''power'', ''soft_temperature_limit_since_boot'']]"

fun dotted :: "string list \<Rightarrow> string" where
  "dotted [] = []"
| "dotted [k] = k"
| "dotted (k # ks) = k @ CHR ''.'' # dotted ks"

text \<open>Each template reads one field, some of them twice.\<close>

lemma template_paths_table:
  "map (\<lambda>d. set (template_paths (cd_value_template d))) COMPONENT_DEFINITIONS =
     map (\<lambda>ks. {lit (dotted ks)}) component_paths"
  by (simp add: component_table on_off_template_def component_paths_def
      template_paths_lit lit_append [symmetric] del: lit_append)


lemma json_get_iff: "(\<exists>v. json_get j k = Some v) \<longleftrightarrow> k \<in> set (json_keys j)"
proof (cases j)
  case (JObj kvs)
  then show ?thesis using map_of_eq_None_iff [of kvs k] by (cases "map_of kvs k") auto
qed auto

lemma json_at_end: "(case x of None \<Rightarrow> None | Some y \<Rightarrow> json_at y []) = x"
  by (cases x) simp_all

lemma component_paths_split:
  "list_all (\<lambda>ks. split_on (\<lambda>c. c = 46) (lit (dotted ks)) = map lit ks) component_paths"
  by (simp add: component_paths_def lit_Cons)

lemma map_of_rev_distinct: "distinct (map fst kvs) \<Longrightarrow> map_of (rev kvs) = map_of kvs"
  by (rule map_of_inject_set [THEN iffD2]) (simp_all add: rev_map [symmetric])

lemma payload_paths:
  assumes "TelemetryState_serialize lib st = Inr j" "ks \<in> set component_paths"
  shows "\<exists>v. json_at j (map lit ks) = Some v"
proof (rule payload_parts [OF assms(1)])
  fix schema obs uptime cpu mem swap disk pow h sv
  assume j: "j = JObj [(lit ''schema_version'', schema), (lit ''observed_at'', obs),
       (lit ''uptime_seconds'', uptime), (lit ''cpu'', cpu), (lit ''memory'', mem),
       (lit ''swap'', swap), (lit ''disk'', disk), (lit ''power'', pow), (lit ''health'', h),
       (lit ''service'', sv)]"
    and parts: "CpuMetrics_serialize (st_cpu st) = Inr cpu"
      "MemoryMetrics_serialize (st_memory st) = Inr mem"
      "SwapMetrics_serialize (st_swap st) = Inr swap"
      "DiskMetrics_serialize (st_disk st) = Inr disk"
      "PowerMetrics_serialize (st_power st) = Inr pow"
      "Health_serialize (st_health st) = Inr h"
      "ServiceMetrics_serialize (st_service st) = Inr sv"
  note keys = section_keys(1) [OF parts(1)] section_keys(2) [OF parts(2)]
    section_keys(3) [OF parts(3)] section_keys(4) [OF parts(4)] section_keys(5) [OF parts(5)]
    section_keys(6) [OF parts(6)] section_keys(7) [OF parts(7)]
  show ?thesis
    using assms(2) unfolding component_paths_def set_simps
    by (elim insertE emptyE; hypsubst) (simp_all add: j json_at_end json_get_iff keys)
qed


section \<open>Properties\<close>

text \<open>
  C19. Every value template of the discovery document reads fields that every published state
  payload contains: no entity can refer to a missing key, whatever measurements are unavailable.\<close>

theorem templates_read_payload_fields:
  "case TelemetryState_serialize lib st of
     Inl _ \<Rightarrow> True
   | Inr j \<Rightarrow>
       list_all
         (\<lambda>d. template_paths (cd_value_template d) \<noteq> [] \<and>
            list_all (\<lambda>p. json_at j (split_on (\<lambda>c. c = 46) p) \<noteq> None)
              (template_paths (cd_value_template d)))
         COMPONENT_DEFINITIONS"
proof (cases "TelemetryState_serialize lib st")
  case (Inr j)
  have "template_paths (cd_value_template d) \<noteq> [] \<and>
      list_all (\<lambda>p. json_at j (split_on (\<lambda>c. c = 46) p) \<noteq> None) (template_paths (cd_value_template d))"
    if d: "d \<in> set COMPONENT_DEFINITIONS" for d
  proof -
    have "set (template_paths (cd_value_template d)) \<in>
        set (map (\<lambda>d. set (template_paths (cd_value_template d))) COMPONENT_DEFINITIONS)"
      using d by auto
    then obtain ks where ks: "ks \<in> set component_paths"
      and paths: "set (template_paths (cd_value_template d)) = {lit (dotted ks)}"
      unfolding template_paths_table by auto
    have "split_on (\<lambda>c. c = 46) (lit (dotted ks)) = map lit ks"
      using component_paths_split ks by (auto simp: list_all_iff)
    with payload_paths [OF Inr ks]
    have at: "json_at j (split_on (\<lambda>c. c = 46) (lit (dotted ks))) \<noteq> None"
      by (simp only: not_None_eq)
    have "template_paths (cd_value_template d) \<noteq> []" using paths by force
    moreover have "\<forall>p \<in> set (template_paths (cd_value_template d)).
        json_at j (split_on (\<lambda>c. c = 46) p) \<noteq> None"
      unfolding paths using at by blast
    ultimately show ?thesis unfolding list_all_iff by (rule conjI)
  qed
  with Inr show ?thesis by (simp add: list_all_iff)
qed simp

text \<open>
  Unique identifiers never collide, not even between devices: two components have the same
  \<open>unique_id\<close> only when they are the same component of the same device.\<close>

theorem unique_ids_distinct:
  "list_all (\<lambda>d. list_all (\<lambda>d'.
       co_unique_id (to_config d s slug) = co_unique_id (to_config d' s' slug') \<longleftrightarrow>
       ds_device_id s = ds_device_id s' \<and> d = d')
     COMPONENT_DEFINITIONS) COMPONENT_DEFINITIONS"
proof -
  have key: "\<exists>k \<in> set component_keys. cd_key d = lit k" if "d \<in> set COMPONENT_DEFINITIONS" for d
  proof -
    have "cd_key d \<in> set (map cd_key COMPONENT_DEFINITIONS)" using that by auto
    then show ?thesis unfolding component_keys by auto
  qed
  have "ds_device_id s = ds_device_id s' \<and> d = d'"
    if d: "d \<in> set COMPONENT_DEFINITIONS" "d' \<in> set COMPONENT_DEFINITIONS"
      and eq: "co_unique_id (to_config d s slug) = co_unique_id (to_config d' s' slug')" for d d'
  proof -
    obtain k k' where k: "k \<in> set component_keys" "cd_key d = lit k"
      and k': "k' \<in> set component_keys" "cd_key d' = lit k'" using key d by blast
    have "ds_device_id s @ 95 # lit k = ds_device_id s' @ 95 # lit k'"
      using eq k(2) k'(2) by (simp add: to_config_def lit_Cons)
    then have "ds_device_id s = ds_device_id s' \<and> k = k'"
      using k(1) k'(1) by (rule unique_id_parts)
    moreover from this have "cd_key d = cd_key d'" using k(2) k'(2) by simp
    then have "d = d'" using distinct_cd_keys d unfolding distinct_map inj_on_def by blast
    ultimately show ?thesis by blast
  qed
  moreover have "co_unique_id (to_config d s slug) = co_unique_id (to_config d s' slug')"
    if "ds_device_id s = ds_device_id s'" for d
    using that by (simp add: to_config_def)
  ultimately show ?thesis unfolding list_all_iff by metis
qed

text \<open>
  The document lists exactly the twenty-six components of the table, each under its own key and
  in key order, so no definition is lost to a duplicate key.\<close>

theorem build_components_complete:
  "map_of (build_components s) =
     map_of (map (\<lambda>d. (cd_key d, to_config d s (normalize_device_slug (ds_device_id s))))
               COMPONENT_DEFINITIONS) \<and>
   sorted_wrt str_less (map fst (build_components s)) \<and>
   length (build_components s) = 26 \<and> set (map fst (build_components s)) = lit ` set component_keys"
proof -
  define kvs where
    "kvs = map (\<lambda>d. (cd_key d, to_config d s (normalize_device_slug (ds_device_id s))))
             COMPONENT_DEFINITIONS"
  have b: "build_components s = btree_collect kvs"
    by (simp add: build_components_def kvs_def Let_def)
  have fst: "map fst kvs = map cd_key COMPONENT_DEFINITIONS" by (simp add: kvs_def)
  then have dist: "distinct (map fst kvs)" using distinct_cd_keys by simp
  have lookup: "map_of (btree_collect kvs) = map_of kvs"
    using dist by (simp only: map_of_btree_collect map_of_rev_distinct)
  then have "dom (map_of (btree_collect kvs)) = dom (map_of kvs)" by simp
  then have keys: "set (map fst (btree_collect kvs)) = set (map fst kvs)"
    by (simp add: dom_map_of_conv_image_fst)
  have "length (btree_collect kvs) = card (set (map fst (btree_collect kvs)))"
    using distinct_card [OF distinct_btree_collect [of kvs]] by simp
  also have "\<dots> = length kvs" using distinct_card [OF dist] unfolding keys by simp
  also have "\<dots> = length (map cd_key COMPONENT_DEFINITIONS)" by (simp add: kvs_def)
  also have "\<dots> = 26" unfolding component_keys by (simp add: component_keys_def)
  finally have "length (btree_collect kvs) = 26" .
  moreover have "set (map fst (btree_collect kvs)) = lit ` set component_keys"
    unfolding keys fst component_keys by simp
  ultimately show ?thesis
    using lookup sorted_btree_collect unfolding b kvs_def [symmetric] by blast
qed

text \<open>
  An entity expires after three collection intervals in whole seconds, at least 90 s, and the
  multiplication saturates instead of wrapping around.\<close>

theorem expire_after_three_intervals:
  "unat (expire_after_seconds s) =
     max 90 (min (2 ^ 64 - 1) (3 * (as_secs (ds_interval s) mod 2 ^ 64)))"
  by (simp add: expire_after_seconds_def MINIMUM_EXPIRE_AFTER_SECONDS_def unat_of_nat
      max_def word_le_nat_alt unat_saturating_mul min_def mult.commute)

text \<open>
  The options advertised for the health entity are exactly the texts a health status can be
  serialized as.\<close>

theorem health_options_complete:
  "range HealthStatus_name = set HEALTH_OPTIONS"
proof -
  have univ: "UNIV = {HealthOk, HealthWarning, HealthCritical, HealthDegraded}"
    by (auto intro: HealthStatus.exhaust)
  show ?thesis unfolding univ by (simp add: HEALTH_OPTIONS_def)
qed

end
