(* ===== verification/Mqtt_Supervisor.thy ===== *)
theory Mqtt_Supervisor
  imports Mqtt_Protocol Service_Config Discovery
begin

text \<open>
  The supervisor of \<open>src/mqtt.rs\<close>: settings and connection options, the event loop \<open>run\<close> with its
  handlers, and the graceful shutdown.  The MQTT client library and the asynchronous runtime are not
  part of the repository: \<open>MqttEnv\<close> holds the calls the source makes on them, each as a function on
  the state \<open>'s\<close> of the outside world.  A \<open>select!\<close> is such a call: it yields the branch that
  completed.  Loops that may go on for ever are \<open>partial_function\<close>s into \<open>option\<close>.
\<close>

definition REQUEST_CHANNEL_CAPACITY :: nat where "REQUEST_CHANNEL_CAPACITY = 16"
definition MAX_PACKET_BYTES :: nat where "MAX_PACKET_BYTES = 64 * 1024"
definition MAX_INFLIGHT :: u16 where "MAX_INFLIGHT = 4"
definition CONNECT_TIMEOUT_SECONDS :: u64 where "CONNECT_TIMEOUT_SECONDS = 5"
definition GRACEFUL_SHUTDOWN_TIMEOUT :: duration where "GRACEFUL_SHUTDOWN_TIMEOUT = from_secs 3"

record MqttSettings =
  ms_host :: rstr
  ms_port :: u16
  ms_client_id :: rstr
  ms_keep_alive :: duration
  ms_state_topic :: rstr
  ms_availability_topic :: rstr
  ms_discovery_topic :: rstr

definition MqttSettings_new :: "MqttConfig \<Rightarrow> rstr \<Rightarrow> MqttSettings" where
  "MqttSettings_new config device_id =
     \<lparr>ms_host = mc_host config, ms_port = mc_port config, ms_client_id = mc_client_id config,
      ms_keep_alive = mc_keep_alive config, ms_state_topic = state_topic config,
      ms_availability_topic = availability_topic config,
      ms_discovery_topic = discovery_topic config device_id\<rparr>"

datatype QoS = AtMostOnce | AtLeastOnce

record Publication =
  pub_topic :: rstr
  pub_qos :: QoS
  pub_retain :: bool
  pub_payload :: "nat list"

text \<open>The values the source hands to the option builder of the MQTT library.\<close>

record ConnectOptions =
  opt_client_id :: rstr
  opt_host :: rstr
  opt_port :: u16
  opt_clean_session :: bool
  opt_keep_alive :: duration
  opt_credentials :: "rstr \<times> rstr"
  opt_last_will :: "Publication option"
  opt_max_packet_size :: "nat \<times> nat"
  opt_request_channel_capacity :: nat
  opt_inflight :: u16

definition mqtt_options :: "MqttSettings \<Rightarrow> MqttCredentials \<Rightarrow> ConnectOptions" where
  "mqtt_options settings credentials =
     \<lparr>opt_client_id = ms_client_id settings, opt_host = ms_host settings,
      opt_port = ms_port settings, opt_clean_session = True,
      opt_keep_alive = ms_keep_alive settings,
      opt_credentials = (cr_username credentials, cr_password credentials),
      opt_last_will =
        Some \<lparr>pub_topic = ms_availability_topic settings, pub_qos = AtLeastOnce,
              pub_retain = True, pub_payload = str_bytes (lit ''offline'')\<rparr>,
      opt_max_packet_size = (MAX_PACKET_BYTES, MAX_PACKET_BYTES),
      opt_request_channel_capacity = REQUEST_CHANNEL_CAPACITY, opt_inflight = MAX_INFLIGHT\<rparr>"

record StateMessage =
  sm_request_id :: u64
  sm_payload :: "nat list"

definition StateMessage_new :: "u64 \<Rightarrow> nat list \<Rightarrow> StateMessage" where
  "StateMessage_new request_id payload = \<lparr>sm_request_id = request_id, sm_payload = payload\<rparr>"

datatype MqttStatus = StDisconnected | Bootstrapping | StOnline | ShuttingDown | StStopped

datatype MqttError = ControlQueueUnavailable

fun MqttError_display :: "MqttError \<Rightarrow> rstr" where
  "MqttError_display ControlQueueUnavailable = lit ''the MQTT control queue is unavailable''"

record MqttSupervisor =
  sv_settings :: MqttSettings
  sv_credentials :: MqttCredentials
  sv_discovery_payload :: "nat list"

text \<open>The supervisor, and the first value of its status channel.\<close>

definition MqttSupervisor_new ::
  "MqttSettings \<Rightarrow> MqttCredentials \<Rightarrow> rstr \<Rightarrow> MqttSupervisor \<times> MqttStatus" where
  "MqttSupervisor_new settings credentials discovery_payload =
     (\<lparr>sv_settings = settings, sv_credentials = credentials,
       sv_discovery_payload = str_bytes discovery_payload\<rparr>, StDisconnected)"

definition MqttSupervisor_debug :: "MqttSupervisor \<Rightarrow> (rstr \<times> (MqttSettings + rstr + nat)) list" where
  "MqttSupervisor_debug sv =
     [(lit ''settings'', Inl (sv_settings sv)),
      (lit ''credentials'', Inr (Inl (lit ''[REDACTED]''))),
      (lit ''discovery_payload_bytes'', Inr (Inr (length (sv_discovery_payload sv))))]"


section \<open>The outside world\<close>

datatype Event =
    IncomingConnAck ConnectReturnCode
  | IncomingPubAck u16
  | OutgoingPublishEvent u16
  | OutgoingDisconnectEvent
  | OtherEvent

datatype Branch =
    ShutdownChanged bool
  | Polled "ConnectionError + Event"
  | StatesChanged bool

datatype Waited = SleepElapsed | WaitShutdownChanged bool

record 's MqttEnv =
  mq_open :: "ConnectOptions \<Rightarrow> u64 \<Rightarrow> 's \<Rightarrow> 's"
  mq_try_publish :: "Publication \<Rightarrow> 's \<Rightarrow> bool \<times> 's"
  mq_try_disconnect :: "'s \<Rightarrow> bool \<times> 's"
  mq_shutdown_requested :: "'s \<Rightarrow> bool \<times> 's"
  mq_select :: "bool \<Rightarrow> 's \<Rightarrow> Branch \<times> 's"
  mq_states_update :: "'s \<Rightarrow> StateMessage option \<times> 's"
  mq_request_modify :: "(u64 \<Rightarrow> u64 \<times> u64) \<Rightarrow> 's \<Rightarrow> u64 \<times> 's"
  mq_status :: "MqttStatus \<Rightarrow> 's \<Rightarrow> 's"
  mq_sleep_or_shutdown :: "duration \<Rightarrow> 's \<Rightarrow> Waited \<times> 's"
  mq_start_deadline :: "duration \<Rightarrow> 's \<Rightarrow> 's"
  mq_poll_deadline :: "'s \<Rightarrow> (ConnectionError + Event) option \<times> 's"
  mq_seed :: "'s \<Rightarrow> (nat option \<times> u32) \<times> 's"

text \<open>
  \<open>mq_open\<close> creates the client and its event loop with the given options and connection timeout.
  \<open>mq_select accepts\<close> is the loop's \<open>select!\<close>, its third branch enabled by \<open>accepts\<close>; a boolean in a
  branch says whether the watched sender is still alive.  \<open>mq_poll_deadline\<close> is a poll of the event
  loop under the deadline that \<open>mq_start_deadline\<close> has set, \<^term>\<open>None\<close> when the deadline comes first.
\<close>

section \<open>Handlers\<close>

text \<open>What an action asks of the client: a publication, or the disconnect.\<close>

fun action_publication :: "MqttSupervisor \<Rightarrow> ProtocolAction \<Rightarrow> nat list option \<Rightarrow> Publication option" where
  "action_publication sv PublishDiscovery payload =
     Some \<lparr>pub_topic = ms_discovery_topic (sv_settings sv), pub_qos = AtLeastOnce, pub_retain = True,
           pub_payload = sv_discovery_payload sv\<rparr>"
| "action_publication sv PublishOnline payload =
     Some \<lparr>pub_topic = ms_availability_topic (sv_settings sv), pub_qos = AtLeastOnce,
           pub_retain = True, pub_payload = str_bytes (lit ''online'')\<rparr>"
| "action_publication sv PublishState payload =
     Some \<lparr>pub_topic = ms_state_topic (sv_settings sv), pub_qos = AtMostOnce, pub_retain = False,
           pub_payload = (case payload of None \<Rightarrow> [] | Some p \<Rightarrow> p)\<rparr>"
| "action_publication sv PublishOffline payload =
     Some \<lparr>pub_topic = ms_availability_topic (sv_settings sv), pub_qos = AtLeastOnce,
           pub_retain = True, pub_payload = str_bytes (lit ''offline'')\<rparr>"
| "action_publication sv Disconnect payload = None"

definition perform ::
  "'s MqttEnv \<Rightarrow> MqttSupervisor \<Rightarrow> ProtocolAction \<Rightarrow> nat list option \<Rightarrow> 's \<Rightarrow>
   (MqttError + unit) \<times> 's" where
  "perform env sv action payload s =
     (case (case action_publication sv action payload of
              Some publication \<Rightarrow> mq_try_publish env publication s
            | None \<Rightarrow> mq_try_disconnect env s) of
        (accepted, s1) \<Rightarrow> (if accepted then Inr () else Inl ControlQueueUnavailable, s1))"

text \<open>The action of a machine operation, performed when there is one.\<close>

definition perform_option ::
  "'s MqttEnv \<Rightarrow> MqttSupervisor \<Rightarrow> ProtocolAction option \<Rightarrow> nat list option \<Rightarrow> 's \<Rightarrow>
   (MqttError + unit) \<times> 's" where
  "perform_option env sv action payload s =
     (case action of None \<Rightarrow> (Inr (), s) | Some a \<Rightarrow> perform env sv a payload s)"

fun event_action :: "Event \<Rightarrow> BootstrapMachine \<Rightarrow> ProtocolAction option \<times> BootstrapMachine" where
  "event_action (OutgoingPublishEvent packet_id) m = outgoing_publish packet_id m"
| "event_action (IncomingPubAck packet_id) m = publish_acknowledged packet_id m"
| "event_action OutgoingDisconnectEvent m = disconnected m"
| "event_action _ m = (None, m)"

definition handle_event ::
  "'s MqttEnv \<Rightarrow> MqttSupervisor \<Rightarrow> BootstrapMachine \<Rightarrow> Event \<Rightarrow> 's \<Rightarrow>
   (MqttError + unit) \<times> BootstrapMachine \<times> 's" where
  "handle_event env sv m event s =
     (case event_action event m of (action, m1) \<Rightarrow>
        (case perform_option env sv action None s of (r, s1) \<Rightarrow> (r, m1, s1)))"

definition publish_current_state ::
  "'s MqttEnv \<Rightarrow> MqttSupervisor \<Rightarrow> BootstrapMachine \<Rightarrow> 's \<Rightarrow>
   (MqttError + unit) \<times> BootstrapMachine \<times> 's" where
  "publish_current_state env sv m s =
     (case mq_states_update env s of
        (None, s1) \<Rightarrow> (Inr (), m, s1)
      | (Some message, s1) \<Rightarrow>
          (case state_available (sm_request_id message) m of (action, m1) \<Rightarrow>
             (case perform_option env sv action (Some (sm_payload message)) s1 of
                (r, s2) \<Rightarrow> (r, m1, s2))))"


section \<open>The graceful shutdown\<close>

text \<open>The loop under the deadline; \<^term>\<open>None\<close> in the result stands for the elapsed deadline.\<close>

partial_function (option) shutdown_loop ::
  "'s MqttEnv \<Rightarrow> MqttSupervisor \<Rightarrow> BootstrapMachine \<Rightarrow> 's \<Rightarrow>
   ((MqttError + unit) option \<times> BootstrapMachine \<times> 's) option" where
  "shutdown_loop env sv m s =
     (case mq_poll_deadline env s of
        (None, s1) \<Rightarrow> Some (None, m, s1)
      | (Some (Inl _), s1) \<Rightarrow> Some (Some (Inr ()), m, s1)
      | (Some (Inr event), s1) \<Rightarrow>
          (case handle_event env sv m event s1 of
             (Inl e, m1, s2) \<Rightarrow> Some (Some (Inl e), m1, s2)
           | (Inr _, m1, s2) \<Rightarrow>
               if event = OutgoingDisconnectEvent \<or> is_stopped m1 then Some (Some (Inr ()), m1, s2)
               else shutdown_loop env sv m1 s2))"

definition shutdown_sequence_result :: "(MqttError + unit) option \<Rightarrow> MqttError + unit" where
  "shutdown_sequence_result r = (case r of Some r' \<Rightarrow> r' | None \<Rightarrow> Inr ())"

definition graceful_shutdown ::
  "'s MqttEnv \<Rightarrow> MqttSupervisor \<Rightarrow> BootstrapMachine \<Rightarrow> 's \<Rightarrow>
   ((MqttError + unit) \<times> BootstrapMachine \<times> 's) option" where
  "graceful_shutdown env sv m s =
     (let s = mq_status env ShuttingDown s in
      case shutdown m of
        (None, m1) \<Rightarrow> Some (Inr (), m1, mq_status env StStopped s)
      | (Some action, m1) \<Rightarrow>
          (case perform env sv action None s of
             (Inl e, s1) \<Rightarrow> Some (Inl e, m1, s1)
           | (Inr _, s1) \<Rightarrow>
               (case shutdown_loop env sv m1 (mq_start_deadline env GRACEFUL_SHUTDOWN_TIMEOUT s1) of
                  None \<Rightarrow> None
                | Some (r, m2, s2) \<Rightarrow>
                    (case shutdown_sequence_result r of
                       Inl e \<Rightarrow> Some (Inl e, m2, s2)
                     | Inr _ \<Rightarrow> Some (Inr (), m2, mq_status env StStopped s2)))))"


section \<open>The event loop\<close>

text \<open>The variables of \<open>run\<close>.\<close>

record LoopState =
  lp_protocol :: BootstrapMachine
  lp_backoff :: RetryBackoff
  lp_jitter :: u64

text \<open>What one iteration asks for: the next iteration, or the end of \<open>run\<close>.\<close>

datatype Flow = Continue | Return "MqttError + unit"

text \<open>The end of an iteration, after the \<open>select!\<close>.\<close>

definition after_branch ::
  "'s MqttEnv \<Rightarrow> MqttSupervisor \<Rightarrow> LoopState \<Rightarrow> 's \<Rightarrow> Flow \<times> LoopState \<times> 's" where
  "after_branch env sv L s =
     (case just_became_online (lp_protocol L) of (fresh, m) \<Rightarrow>
        if fresh then
          (case publish_current_state env sv m (mq_status env StOnline s) of (r, m1, s1) \<Rightarrow>
             (case r of Inl e \<Rightarrow> Return (Inl e) | Inr _ \<Rightarrow> Continue, L\<lparr>lp_protocol := m1\<rparr>, s1))
        else
          (Continue, L\<lparr>lp_protocol := m\<rparr>,
           if is_online m then mq_status env StOnline s else s))"

text \<open>A successful connection acknowledgement; the iteration ends with \<open>continue\<close>.\<close>

definition connection_established ::
  "'s MqttEnv \<Rightarrow> MqttSupervisor \<Rightarrow> LoopState \<Rightarrow> 's \<Rightarrow> Flow \<times> LoopState \<times> 's" where
  "connection_established env sv L s =
     (case mq_states_update env s of (_, s1) \<Rightarrow>
        (case mq_request_modify env request_collection s1 of (next_request_id, s2) \<Rightarrow>
           (case connected next_request_id (lp_protocol L) of (action, m) \<Rightarrow>
              (case perform env sv action None (mq_status env Bootstrapping s2) of (r, s3) \<Rightarrow>
                 (case r of Inl e \<Rightarrow> Return (Inl e) | Inr _ \<Rightarrow> Continue,
                  L\<lparr>lp_protocol := m, lp_backoff := reset (lp_backoff L)\<rparr>, s3)))))"

text \<open>A connection error: the wait before the next attempt; \<^term>\<open>None\<close> if the delay were to panic.\<close>

definition connection_failed ::
  "'s MqttEnv \<Rightarrow> MqttSupervisor \<Rightarrow> LoopState \<Rightarrow> 's \<Rightarrow> (Flow \<times> LoopState \<times> 's) option" where
  "connection_failed env sv L s =
     (let m = connection_lost (lp_protocol L);
          s1 = mq_status env StDisconnected s;
          (unit_value, jitter) = next_unit (lp_jitter L) in
      case next_delay unit_value (lp_backoff L) of
        (None, _) \<Rightarrow> None
      | (Some delay, backoff) \<Rightarrow>
          (let L1 = L\<lparr>lp_protocol := m, lp_backoff := backoff, lp_jitter := jitter\<rparr> in
           case mq_sleep_or_shutdown env delay s1 of
             (SleepElapsed, s2) \<Rightarrow> Some (after_branch env sv L1 s2)
           | (WaitShutdownChanged alive, s2) \<Rightarrow>
               (case (if alive then mq_shutdown_requested env s2 else (True, s2)) of (stop, s3) \<Rightarrow>
                  if stop then Some (Return (Inr ()), L1, mq_status env StStopped s3)
                  else Some (after_branch env sv L1 s3))))"

definition finish_loop ::
  "'s MqttEnv \<Rightarrow> MqttSupervisor \<Rightarrow> LoopState \<Rightarrow> 's \<Rightarrow> (Flow \<times> LoopState \<times> 's) option" where
  "finish_loop env sv L s =
     map_option (\<lambda>(r, m, s1). (Return r, L\<lparr>lp_protocol := m\<rparr>, s1))
       (graceful_shutdown env sv (lp_protocol L) s)"

definition event_polled ::
  "'s MqttEnv \<Rightarrow> MqttSupervisor \<Rightarrow> LoopState \<Rightarrow> Event \<Rightarrow> 's \<Rightarrow> Flow \<times> LoopState \<times> 's" where
  "event_polled env sv L event s =
     (if event = IncomingConnAck Success then connection_established env sv L s
      else
        (case handle_event env sv (lp_protocol L) event s of
           (Inl e, m, s1) \<Rightarrow> (Return (Inl e), L\<lparr>lp_protocol := m\<rparr>, s1)
         | (Inr _, m, s1) \<Rightarrow> after_branch env sv (L\<lparr>lp_protocol := m\<rparr>) s1))"

definition states_changed ::
  "'s MqttEnv \<Rightarrow> MqttSupervisor \<Rightarrow> LoopState \<Rightarrow> bool \<Rightarrow> 's \<Rightarrow> Flow \<times> LoopState \<times> 's" where
  "states_changed env sv L alive s =
     (if alive then
        (case publish_current_state env sv (lp_protocol L) s of
           (Inl e, m, s1) \<Rightarrow> (Return (Inl e), L\<lparr>lp_protocol := m\<rparr>, s1)
         | (Inr _, m, s1) \<Rightarrow> after_branch env sv (L\<lparr>lp_protocol := m\<rparr>) s1)
      else after_branch env sv L s)"

text \<open>One iteration of \<open>run\<close>.\<close>

definition loop_iteration ::
  "'s MqttEnv \<Rightarrow> MqttSupervisor \<Rightarrow> LoopState \<Rightarrow> 's \<Rightarrow> (Flow \<times> LoopState \<times> 's) option" where
  "loop_iteration env sv L s =
     (case mq_shutdown_requested env s of
        (True, s1) \<Rightarrow> finish_loop env sv L s1
      | (False, s1) \<Rightarrow>
          (case mq_select env (accepts_state (lp_protocol L)) s1 of
             (ShutdownChanged alive, s2) \<Rightarrow>
               (case (if alive then mq_shutdown_requested env s2 else (True, s2)) of (stop, s3) \<Rightarrow>
                  if stop then finish_loop env sv L s3 else Some (after_branch env sv L s3))
           | (Polled (Inr event), s2) \<Rightarrow> Some (event_polled env sv L event s2)
           | (Polled (Inl _), s2) \<Rightarrow> connection_failed env sv L s2
           | (StatesChanged alive, s2) \<Rightarrow> Some (states_changed env sv L alive s2)))"

partial_function (option) run_loop ::
  "'s MqttEnv \<Rightarrow> MqttSupervisor \<Rightarrow> LoopState \<Rightarrow> 's \<Rightarrow> ((MqttError + unit) \<times> 's) option" where
  "run_loop env sv L s =
     (case loop_iteration env sv L s of
        None \<Rightarrow> None
      | Some (Return r, _, s1) \<Rightarrow> Some (r, s1)
      | Some (Continue, L1, s1) \<Rightarrow> run_loop env sv L1 s1)"

definition LoopState_initial :: "nat option \<times> u32 \<Rightarrow> LoopState" where
  "LoopState_initial seed =
     \<lparr>lp_protocol = BootstrapMachine_default, lp_backoff = RetryBackoff_new,
      lp_jitter = jitter_seed (fst seed) (snd seed)\<rparr>"

definition run_supervisor ::
  "'s MqttEnv \<Rightarrow> MqttSupervisor \<Rightarrow> 's \<Rightarrow> ((MqttError + unit) \<times> 's) option" where
  "run_supervisor env sv s =
     (let options = mqtt_options (sv_settings sv) (sv_credentials sv);
          (seed, s1) = mq_seed env (mq_open env options CONNECT_TIMEOUT_SECONDS s)
      in run_loop env sv (LoopState_initial seed) s1)"


section \<open>Invariants of the event loop\<close>

text \<open>The first \<open>n\<close> iterations of \<open>run\<close>, fewer when it ends before.\<close>

fun iterations ::
  "'s MqttEnv \<Rightarrow> MqttSupervisor \<Rightarrow> nat \<Rightarrow> LoopState \<Rightarrow> 's \<Rightarrow> (Flow \<times> LoopState \<times> 's) option" where
  "iterations env sv 0 L s = Some (Continue, L, s)"
| "iterations env sv (Suc n) L s =
     (case loop_iteration env sv L s of
        Some (Continue, L1, s1) \<Rightarrow> iterations env sv n L1 s1
      | r \<Rightarrow> r)"

text \<open>
  What a predicate on the machine and the world has to satisfy to hold after every iteration: the
  calls that only look at the world keep it, and so do the answers to what \<open>select!\<close> yields, an event, a
  changed state, a new connection or the loss of one, each together with that call.
\<close>

locale event_loop =
  fixes env :: "'s MqttEnv"
    and sv :: MqttSupervisor
    and inv :: "BootstrapMachine \<Rightarrow> 's \<Rightarrow> bool"
  assumes status: "inv m s \<Longrightarrow> inv m (mq_status env st s)"
    and shutdown_read: "inv m s \<Longrightarrow> mq_shutdown_requested env s = (b, s') \<Longrightarrow> inv m s'"
    and sleep: "inv m s \<Longrightarrow> mq_sleep_or_shutdown env d s = (x, s') \<Longrightarrow> inv m s'"
    and select: "inv m s \<Longrightarrow> mq_select env (accepts_state m) s = (branch, s') \<Longrightarrow>
      branch \<noteq> StatesChanged True \<Longrightarrow> (\<And>p. branch \<noteq> Polled p) \<Longrightarrow> inv m s'"
    and changed: "inv m s \<Longrightarrow> mq_select env (accepts_state m) s = (StatesChanged True, s1) \<Longrightarrow>
      publish_current_state env sv m s1 = (r, m', s') \<Longrightarrow> inv m' s'"
    and event: "inv m s \<Longrightarrow> mq_select env (accepts_state m) s = (Polled (Inr e), s1) \<Longrightarrow>
      e \<noteq> IncomingConnAck Success \<Longrightarrow> event_action e m = (a, m') \<Longrightarrow>
      perform_option env sv a None s1 = (r, s') \<Longrightarrow> inv m' s'"
    and online: "inv m s \<Longrightarrow> bm_became_online m \<Longrightarrow>
      publish_current_state env sv (m\<lparr>bm_became_online := False\<rparr>) s = (r, m', s') \<Longrightarrow> inv m' s'"
    and flag: "inv m s \<Longrightarrow> inv (m\<lparr>bm_became_online := False\<rparr>) s"
    and connect: "inv (lp_protocol L) s \<Longrightarrow>
      mq_select env (accepts_state (lp_protocol L)) s = (Polled (Inr (IncomingConnAck Success)), s1) \<Longrightarrow>
      connection_established env sv L s1 = (f, L', s') \<Longrightarrow> inv (lp_protocol L') s'"
    and lost: "inv m s \<Longrightarrow> mq_select env (accepts_state m) s = (Polled (Inl err), s1) \<Longrightarrow>
      inv (connection_lost m) s1"
begin

lemma handle_event_kept:
  "inv m s \<Longrightarrow> mq_select env (accepts_state m) s = (Polled (Inr e), s1) \<Longrightarrow>
   e \<noteq> IncomingConnAck Success \<Longrightarrow> handle_event env sv m e s1 = (r, m', s') \<Longrightarrow> inv m' s'"
  by (auto simp: handle_event_def split: prod.splits intro: event)

lemma after_branch_kept:
  assumes "inv (lp_protocol L) s" "after_branch env sv L s = (f, L', s')"
  shows "inv (lp_protocol L') s'"
proof (cases "bm_became_online (lp_protocol L)")
  case True
  then obtain r where "publish_current_state env sv ((lp_protocol L)\<lparr>bm_became_online := False\<rparr>)
      (mq_status env StOnline s) = (r, lp_protocol L', s')"
    using assms(2) by (auto simp: after_branch_def just_became_online_def split: prod.splits)
  then show ?thesis using online [OF status [OF assms(1)] True] by blast
next
  case False
  then show ?thesis
    using assms(2) flag [OF assms(1)] status [OF flag [OF assms(1)]]
    by (auto simp: after_branch_def just_became_online_def split: if_splits)
qed

lemma event_polled_kept:
  assumes "inv (lp_protocol L) s" "mq_select env (accepts_state (lp_protocol L)) s = (Polled (Inr e), s1)"
    and "event_polled env sv L e s1 = (f, L', s')"
  shows "inv (lp_protocol L') s'"
proof (cases "e = IncomingConnAck Success")
  case False
  obtain r m s2 where h: "handle_event env sv (lp_protocol L) e s1 = (r, m, s2)"
    by (cases "handle_event env sv (lp_protocol L) e s1")
  have "inv m s2" by (rule handle_event_kept [OF assms(1,2) False h])
  then show ?thesis
    using assms(3) False h after_branch_kept [of "L\<lparr>lp_protocol := m\<rparr>" s2 f L' s']
    by (cases r) (auto simp: event_polled_def)
qed (use assms connect in \<open>simp add: event_polled_def\<close>)

lemma states_changed_kept:
  assumes "inv (lp_protocol L) s" "mq_select env (accepts_state (lp_protocol L)) s = (StatesChanged alive, s1)"
    and "states_changed env sv L alive s1 = (f, L', s')"
  shows "inv (lp_protocol L') s'"
proof (cases alive)
  case True
  obtain r m s2 where h: "publish_current_state env sv (lp_protocol L) s1 = (r, m, s2)"
    by (cases "publish_current_state env sv (lp_protocol L) s1")
  have "inv m s2" using changed [OF assms(1) _ h] assms(2) True by simp
  then show ?thesis
    using assms(3) True h after_branch_kept [of "L\<lparr>lp_protocol := m\<rparr>" s2 f L' s']
    by (cases r) (auto simp: states_changed_def)
next
  case False
  then have "inv (lp_protocol L) s1" using select [OF assms(1,2)] by simp
  then show ?thesis using after_branch_kept assms(3) False by (simp add: states_changed_def)
qed

lemma connection_failed_kept:
  assumes "inv (lp_protocol L) s" "mq_select env (accepts_state (lp_protocol L)) s = (Polled (Inl err), s1)"
    and "connection_failed env sv L s1 = Some (f, L', s')"
  shows "inv (lp_protocol L') s'"
proof -
  let ?m = "connection_lost (lp_protocol L)" and ?s = "mq_status env StDisconnected s1"
  obtain u j where u: "next_unit (lp_jitter L) = (u, j)" by (cases "next_unit (lp_jitter L)")
  then obtain d b where d: "next_delay u (lp_backoff L) = (Some d, b)"
    using assms(3)
    by (cases "next_delay u (lp_backoff L)") (auto simp: connection_failed_def Let_def split: option.splits)
  let ?L = "L\<lparr>lp_protocol := ?m, lp_backoff := b, lp_jitter := j\<rparr>"
  obtain x s2 where x: "mq_sleep_or_shutdown env d ?s = (x, s2)"
    by (cases "mq_sleep_or_shutdown env d ?s")
  obtain again s3 where 3: "mq_shutdown_requested env s2 = (again, s3)"
    by (cases "mq_shutdown_requested env s2")
  have m2: "inv ?m s2" by (rule sleep [OF status [OF lost [OF assms(1,2)]] x])
  have m3: "inv ?m s3" by (rule shutdown_read [OF m2 3])
  have after: "inv (lp_protocol L') s'" if "after_branch env sv ?L v = (f, L', s')" "inv ?m v" for v
    using after_branch_kept [OF _ that(1)] that(2) by simp
  show ?thesis
  proof (cases x)
    case SleepElapsed
    then show ?thesis using assms(3) u d x after m2 by (simp add: connection_failed_def Let_def)
  next
    case (WaitShutdownChanged alive)
    then show ?thesis
      using assms(3) u d x 3 after [OF _ m2] after [OF _ m3] status [OF m2] status [OF m3]
      by (cases alive; cases again) (auto simp: connection_failed_def Let_def)
  qed
qed

text \<open>Every iteration keeps the invariant up to the graceful shutdown, which only ends the loop.\<close>

lemma loop_iteration_kept:
  assumes "inv (lp_protocol L) s" "loop_iteration env sv L s = Some (f, L', s')"
  shows "inv (lp_protocol L') s' \<or>
    (\<exists>s1. inv (lp_protocol L) s1 \<and> finish_loop env sv L s1 = Some (f, L', s'))"
proof -
  obtain stop s1 where 1: "mq_shutdown_requested env s = (stop, s1)"
    by (cases "mq_shutdown_requested env s")
  obtain b s2 where 2: "mq_select env (accepts_state (lp_protocol L)) s1 = (b, s2)"
    by (cases "mq_select env (accepts_state (lp_protocol L)) s1")
  obtain again s3 where 3: "mq_shutdown_requested env s2 = (again, s3)"
    by (cases "mq_shutdown_requested env s2")
  have k1: "inv (lp_protocol L) s1" by (rule shutdown_read [OF assms(1) 1])
  have k2: "b \<noteq> StatesChanged True \<Longrightarrow> (\<And>p. b \<noteq> Polled p) \<Longrightarrow> inv (lp_protocol L) s2"
    by (rule select [OF k1 2])
  show ?thesis
  proof (cases stop)
    case True
    then show ?thesis using assms(2) 1 k1 by (auto simp: loop_iteration_def)
  next
    case False
    show ?thesis
    proof (cases b)
      case (ShutdownChanged alive)
      then have s2: "inv (lp_protocol L) s2" using k2 by simp
      have s3: "inv (lp_protocol L) s3" by (rule shutdown_read [OF s2 3])
      show ?thesis
        using assms(2) 1 2 3 False ShutdownChanged s2 s3 after_branch_kept
        by (auto simp: loop_iteration_def split: if_splits)
    next
      case (Polled e)
      have "inv (lp_protocol L') s'"
      proof (cases e)
        case (Inl error)
        then have "connection_failed env sv L s2 = Some (f, L', s')"
          using assms(2) 1 2 False Polled by (simp add: loop_iteration_def)
        then show ?thesis using 2 Polled Inl by (intro connection_failed_kept [OF k1]) simp_all
      next
        case (Inr event)
        then have "event_polled env sv L event s2 = (f, L', s')"
          using assms(2) 1 2 False Polled by (simp add: loop_iteration_def)
        then show ?thesis using 2 Polled Inr by (intro event_polled_kept [OF k1]) simp_all
      qed
      then show ?thesis ..
    next
      case (StatesChanged alive)
      have "states_changed env sv L alive s2 = (f, L', s')"
        using assms(2) 1 2 False StatesChanged by (simp add: loop_iteration_def)
      with 2 StatesChanged have "inv (lp_protocol L') s'" by (intro states_changed_kept [OF k1]) simp_all
      then show ?thesis ..
    qed
  qed
qed

lemma iterations_kept:
  assumes "inv (lp_protocol L) s" "iterations env sv n L s = Some (Continue, L', s')"
  shows "inv (lp_protocol L') s'"
  using assms
proof (induction n arbitrary: L s)
  case (Suc n)
  then obtain f1 L1 s1 where it: "loop_iteration env sv L s = Some (f1, L1, s1)"
    by (cases "loop_iteration env sv L s") auto
  with Suc.prems have "f1 = Continue" by (cases f1) auto
  moreover from this have "inv (lp_protocol L1) s1"
    using loop_iteration_kept [OF Suc.prems(1) it] by (auto simp: finish_loop_def)
  ultimately show ?case using Suc.IH [of L1 s1] it Suc.prems(2) by simp
qed simp

end

text \<open>An invariant that also survives the graceful shutdown holds after every run.\<close>

locale whole_loop = event_loop +
  assumes start_deadline: "inv m s \<Longrightarrow> inv m (mq_start_deadline env d s)"
    and poll_deadline: "inv m s \<Longrightarrow> mq_poll_deadline env s = (p, s') \<Longrightarrow> (\<And>e. p \<noteq> Some (Inr e)) \<Longrightarrow> inv m s'"
    and deadline_event: "inv m s \<Longrightarrow> mq_poll_deadline env s = (Some (Inr e), s1) \<Longrightarrow>
      event_action e m = (a, m') \<Longrightarrow> perform_option env sv a None s1 = (r, s') \<Longrightarrow> inv m' s'"
    and stop: "inv m s \<Longrightarrow> shutdown m = (a, m') \<Longrightarrow> perform_option env sv a None s = (r, s') \<Longrightarrow> inv m' s'"
begin

lemma shutdown_loop_kept:
  assumes "inv m s" "shutdown_loop env sv m s = Some y"
  shows "inv (fst (snd y)) (snd (snd y))"
proof -
  have "env' = env \<longrightarrow> sv' = sv \<longrightarrow> inv m s \<longrightarrow> inv (fst (snd y)) (snd (snd y))"
    if "shutdown_loop env' sv' m s = Some y" for env' sv'
  proof (rule shutdown_loop.raw_induct [of "\<lambda>e v m s y. e = env \<longrightarrow> v = sv \<longrightarrow> inv m s \<longrightarrow>
      inv (fst (snd y)) (snd (snd y))", OF _ that], intro impI)
    fix rec env' sv' m s y
    assume IH: "\<And>e v m s y. rec e v m s = Some y \<Longrightarrow> e = env \<longrightarrow> v = sv \<longrightarrow> inv m s \<longrightarrow>
        inv (fst (snd y)) (snd (snd y))"
      and eqs: "env' = env" "sv' = sv" and m: "inv m s"
      and body: "(case mq_poll_deadline env' s of
        (None, s1) \<Rightarrow> Some (None, m, s1)
      | (Some (Inl _), s1) \<Rightarrow> Some (Some (Inr ()), m, s1)
      | (Some (Inr event), s1) \<Rightarrow>
          (case handle_event env' sv' m event s1 of
             (Inl e, m1, s2) \<Rightarrow> Some (Some (Inl e), m1, s2)
           | (Inr _, m1, s2) \<Rightarrow>
               if event = OutgoingDisconnectEvent \<or> is_stopped m1 then Some (Some (Inr ()), m1, s2)
               else rec env' sv' m1 s2)) = Some y"
    obtain polled s1 where p: "mq_poll_deadline env s = (polled, s1)" by (cases "mq_poll_deadline env s")
    have k1: "(\<And>e. polled \<noteq> Some (Inr e)) \<Longrightarrow> inv m s1" by (rule poll_deadline [OF m p])
    show "inv (fst (snd y)) (snd (snd y))"
    proof (cases "polled = None \<or> (\<exists>err. polled = Some (Inl err))")
      case True
      then show ?thesis using body p k1 eqs by auto
    next
      case False
      then obtain e where e: "polled = Some (Inr e)" by (metis old.sum.exhaust option.exhaust)
      obtain r1 m1 s2 where h: "handle_event env sv m e s1 = (r1, m1, s2)"
        by (cases "handle_event env sv m e s1")
      have k2: "inv m1 s2"
        using h p e by (auto simp: handle_event_def split: prod.splits intro: deadline_event [OF m])
      have "inv (fst (snd y)) (snd (snd y))" if "rec env sv m1 s2 = Some y"
        using IH [OF that] k2 by simp
      then show ?thesis using body p e h k2 eqs by (auto split: sum.splits if_splits)
    qed
  qed
  then show ?thesis using assms by blast
qed

lemma graceful_shutdown_kept:
  assumes "inv m s" "graceful_shutdown env sv m s = Some (r, m', s')"
  shows "inv m' s'"
proof -
  let ?s = "mq_status env ShuttingDown s"
  have k: "inv m ?s" by (rule status [OF assms(1)])
  obtain a m1 where a: "shutdown m = (a, m1)" by (cases "shutdown m")
  obtain r1 s1 where p: "perform_option env sv a None ?s = (r1, s1)"
    by (cases "perform_option env sv a None ?s")
  have k1: "inv m1 s1" by (rule stop [OF k a p])
  show ?thesis
  proof (cases a)
    case None
    then show ?thesis
      using assms(2) a p k1 status [OF k1] by (auto simp: graceful_shutdown_def Let_def perform_option_def)
  next
    case (Some action)
    then have perform: "perform env sv action None ?s = (r1, s1)" using p by (simp add: perform_option_def)
    show ?thesis
    proof (cases r1)
      case (Inl e)
      then show ?thesis using assms(2) a Some perform k1 by (simp add: graceful_shutdown_def Let_def)
    next
      case (Inr u)
      then obtain r2 s2 where loop: "shutdown_loop env sv m1
          (mq_start_deadline env GRACEFUL_SHUTDOWN_TIMEOUT s1) = Some (r2, m', s2)"
        and s': "s' = s2 \<or> s' = mq_status env StStopped s2"
        using assms(2) a Some perform
        by (auto simp: graceful_shutdown_def Let_def split: sum.splits option.splits prod.splits)
      have "inv m' s2" using shutdown_loop_kept [OF start_deadline [OF k1] loop] by simp
      then show ?thesis using s' status by blast
    qed
  qed
qed

lemma all_iterations_kept:
  assumes "inv (lp_protocol L) s" "iterations env sv n L s = Some (f, L', s')"
  shows "inv (lp_protocol L') s'"
  using assms
proof (induction n arbitrary: L s)
  case (Suc n)
  then obtain f1 L1 s1 where it: "loop_iteration env sv L s = Some (f1, L1, s1)"
    by (cases "loop_iteration env sv L s") auto
  have "inv (lp_protocol L1) s1"
    using loop_iteration_kept [OF Suc.prems(1) it] graceful_shutdown_kept
    by (auto simp: finish_loop_def)
  then show ?case using Suc it by (cases f1) auto
qed simp

end


section \<open>The supervisor comes back\<close>

text \<open>
  What a deadline promises: only finitely many events (\<open>fuel\<close> counts them) come before it, and the
  calls on the client do not postpone it.
\<close>

definition deadline_laws :: "'s MqttEnv \<Rightarrow> ('s \<Rightarrow> nat) \<Rightarrow> bool" where
  "deadline_laws env fuel \<longleftrightarrow>
     (\<forall>s. case mq_poll_deadline env s of (None, _) \<Rightarrow> True | (Some _, s') \<Rightarrow> fuel s' < fuel s) \<and>
     (\<forall>p s. fuel (snd (mq_try_publish env p s)) \<le> fuel s) \<and>
     (\<forall>s. fuel (snd (mq_try_disconnect env s)) \<le> fuel s)"

lemma handle_event_fuel:
  assumes "deadline_laws env fuel" "handle_event env sv m event s = (r, m', s')"
  shows "fuel s' \<le> fuel s"
  using assms
  by (auto simp: handle_event_def perform_option_def perform_def deadline_laws_def
      split: prod.splits option.splits) (metis snd_conv)+

lemma shutdown_loop_returns:
  assumes "deadline_laws env fuel"
  shows "shutdown_loop env sv m s \<noteq> None"
proof (induction "fuel s" arbitrary: m s rule: less_induct)
  case less
  obtain polled s1 where p: "mq_poll_deadline env s = (polled, s1)" by (cases "mq_poll_deadline env s")
  show ?case
  proof (cases "\<exists>event. polled = Some (Inr event)")
    case True
    then obtain event where e: "polled = Some (Inr event)" by blast
    obtain r m1 s2 where h: "handle_event env sv m event s1 = (r, m1, s2)"
      by (cases "handle_event env sv m event s1")
    have "fuel s1 < fuel s"
      using assms p e by (auto simp: deadline_laws_def dest: spec [of _ s])
    then have "fuel s2 < fuel s" using handle_event_fuel [OF assms h] by simp
    then have "shutdown_loop env sv m1 s2 \<noteq> None" by (rule less)
    then show ?thesis using p e h by (subst shutdown_loop.simps) (auto split: sum.splits)
  next
    case False
    then have "polled = None \<or> (\<exists>err. polled = Some (Inl err))" by (metis old.sum.exhaust option.exhaust)
    then show ?thesis using p by (subst shutdown_loop.simps) auto
  qed
qed

lemma graceful_shutdown_returns:
  assumes "deadline_laws env fuel"
  shows "graceful_shutdown env sv m s \<noteq> None"
proof -
  obtain a m1 where a: "shutdown m = (a, m1)" by (cases "shutdown m")
  show ?thesis
  proof (cases a)
    case (Some action)
    obtain r s1 where p: "perform env sv action None (mq_status env ShuttingDown s) = (r, s1)"
      by (cases "perform env sv action None (mq_status env ShuttingDown s)")
    obtain r2 m2 s2 where "shutdown_loop env sv m1 (mq_start_deadline env GRACEFUL_SHUTDOWN_TIMEOUT s1) =
        Some (r2, m2, s2)"
      using shutdown_loop_returns [OF assms] by (metis not_Some_eq prod_cases3)
    then show ?thesis using a Some p
      by (cases r; cases "shutdown_sequence_result r2") (simp_all add: graceful_shutdown_def Let_def)
  qed (use a in \<open>simp add: graceful_shutdown_def Let_def\<close>)
qed

lemma ex_triple [simp]: "\<exists>a b c. t = (a, b, c)"
  by (cases t) simp

lemma connection_failed_returns: "connection_failed env sv L s \<noteq> None"
proof -
  obtain u j where u: "next_unit (lp_jitter L) = (u, j)" by (cases "next_unit (lp_jitter L)")
  then have "fst (next_delay u (lp_backoff L)) \<noteq> None"
    using next_delay_total [OF next_unit_wf [of "lp_jitter L"]] by simp
  then obtain d b where "next_delay u (lp_backoff L) = (Some d, b)"
    by (cases "next_delay u (lp_backoff L)") auto
  then show ?thesis using u by (auto simp: connection_failed_def Let_def split: prod.splits Waited.splits)
qed

lemma finish_loop_returns:
  assumes "deadline_laws env fuel"
  shows "finish_loop env sv L s \<noteq> None"
  using graceful_shutdown_returns [OF assms] by (simp add: finish_loop_def del: not_None_eq)

lemma loop_iteration_returns:
  assumes "deadline_laws env fuel"
  shows "loop_iteration env sv L s \<noteq> None"
proof -
  obtain stop s1 where 1: "mq_shutdown_requested env s = (stop, s1)"
    by (cases "mq_shutdown_requested env s")
  obtain b s2 where 2: "mq_select env (accepts_state (lp_protocol L)) s1 = (b, s2)"
    by (cases "mq_select env (accepts_state (lp_protocol L)) s1")
  obtain again s3 where 3: "mq_shutdown_requested env s2 = (again, s3)"
    by (cases "mq_shutdown_requested env s2")
  note R = finish_loop_returns [OF assms] connection_failed_returns
  show ?thesis
  proof (cases stop)
    case False
    show ?thesis
    proof (cases b)
      case (ShutdownChanged alive)
      then show ?thesis using 1 2 3 False R
        by (cases alive; cases again) (simp_all add: loop_iteration_def del: not_None_eq)
    next
      case (Polled e)
      then show ?thesis using 1 2 False R
        by (cases e) (simp_all add: loop_iteration_def del: not_None_eq)
    qed (use 1 2 False in \<open>simp add: loop_iteration_def\<close>)
  qed (use 1 R in \<open>simp add: loop_iteration_def del: not_None_eq\<close>)
qed

text \<open>
  C4. The supervisor neither hangs nor panics: every iteration of its loop returns (the reconnection
  delay is never an invalid duration, the graceful shutdown ends with the disconnect, an error or the
  deadline), and once a shutdown is requested \<open>run\<close> itself returns, whatever state it is in.\<close>

theorem supervisor_comes_back:
  assumes "deadline_laws env fuel"
  shows "(\<exists>f L' s'. loop_iteration env sv L s = Some (f, L', s')) \<and>
    (if fst (mq_shutdown_requested env s) then \<exists>r s'. run_loop env sv L s = Some (r, s') else True)"
proof -
  obtain f L' s' where it: "loop_iteration env sv L s = Some (f, L', s')"
    using loop_iteration_returns [OF assms] by (metis not_Some_eq prod_cases3)
  moreover have "\<exists>r. f = Return r" if "fst (mq_shutdown_requested env s)"
    using that it by (auto simp: loop_iteration_def finish_loop_def split: prod.splits)
  ultimately show ?thesis by (subst run_loop.simps) auto
qed

text \<open>A world of \<open>n\<close> further events, shutdown requested, for the witness.\<close>

definition draining_env :: "nat MqttEnv" where
  "draining_env =
     \<lparr>mq_open = (\<lambda>_ _ n. n), mq_try_publish = (\<lambda>_ n. (True, n)), mq_try_disconnect = (\<lambda>n. (True, n)),
      mq_shutdown_requested = (\<lambda>n. (True, n)), mq_select = (\<lambda>_ n. (ShutdownChanged True, n)),
      mq_states_update = (\<lambda>n. (None, n)), mq_request_modify = (\<lambda>f n. (fst (f 0), n)),
      mq_status = (\<lambda>_ n. n), mq_sleep_or_shutdown = (\<lambda>_ n. (SleepElapsed, n)),
      mq_start_deadline = (\<lambda>_ n. n),
      mq_poll_deadline = (\<lambda>n. if n = 0 then (None, 0) else (Some (Inr OtherEvent), n - 1)),
      mq_seed = (\<lambda>n. ((None, 0), n))\<rparr>"

theorem supervisor_comes_back_witness:
  "\<forall>sv. \<exists>r s'. run_loop draining_env sv (LoopState_initial (None, 0)) 3 = Some (r, s')"
proof
  fix sv
  have "deadline_laws draining_env id" by (simp add: deadline_laws_def draining_env_def)
  from supervisor_comes_back [OF this, of sv "LoopState_initial (None, 0)" 3]
  show "\<exists>r s'. run_loop draining_env sv (LoopState_initial (None, 0)) 3 = Some (r, s')"
    by (simp add: draining_env_def)
qed

end
