(* ===== verification/Command_Runner.thy ===== *)
theory Command_Runner
  imports Service_Config
begin

text \<open>
  The firmware command runner of \<open>src/collector.rs\<close> (\<open>ProcessCommandRunner\<close>,
  \<open>read_limited_output\<close>).  The operating system is not part of the repository: \<open>ChildLib\<close> holds
  the calls on the process and the monotonic clock, each as a function on the state of the world.
  The poll loop may run for ever, so it is a \<open>partial_function\<close> into \<open>option\<close>, and the theorem that
  it returns names what it needs of the clock.
\<close>

datatype CommandFailure =
    Spawn | Wait | TimedOut | NonZeroExit | OutputRead | OutputTooLarge | OutputEncoding

definition COMMAND_POLL_INTERVAL :: duration where "COMMAND_POLL_INTERVAL = from_millis 10"
definition MAX_COMMAND_OUTPUT_BYTES :: nat where "MAX_COMMAND_OUTPUT_BYTES = 4096"

text \<open>
  \<open>read_limited_output\<close>: the list holds the results of the successive \<open>read\<close> calls (an error, or
  the bytes read, none at the end of the stream).  \<^term>\<open>None\<close>: the stream has not ended yet.
\<close>

fun read_limited_loop ::
  "nat list \<Rightarrow> bool \<Rightarrow> (unit + nat list) list \<Rightarrow> (CommandFailure + nat list) option" where
  "read_limited_loop output too_large [] = None"
| "read_limited_loop output too_large (r # reads) =
     (case r of
        Inl _ \<Rightarrow> Some (Inl OutputRead)
      | Inr chunk \<Rightarrow>
          if chunk = [] then
            Some (if too_large then Inl OutputTooLarge else Inr output)
          else
            let remaining = MAX_COMMAND_OUTPUT_BYTES - length output in
            read_limited_loop (output @ take remaining chunk)
              (too_large \<or> remaining < length chunk) reads)"

definition read_limited_output :: "(unit + nat list) list \<Rightarrow> (CommandFailure + nat list) option" where
  "read_limited_output reads = read_limited_loop [] False reads"

text \<open>
  The process and the clock: \<open>try_wait\<close> yields an error, or whether the child has exited and then
  whether successfully; \<open>cl_wait\<close> is \<^term>\<open>None\<close> as long as the child has not ended; \<open>cl_join\<close>
  yields the reads of the reader thread, or that it panicked.
\<close>

record 's ChildLib =
  cl_spawn :: "path \<Rightarrow> rstr list \<Rightarrow> 's \<Rightarrow> bool \<times> 's"
  cl_stdout :: "'s \<Rightarrow> bool"
  cl_try_wait :: "'s \<Rightarrow> (unit + bool option) \<times> 's"
  cl_now :: "'s \<Rightarrow> nat \<times> 's"
  cl_sleep :: "duration \<Rightarrow> 's \<Rightarrow> 's"
  cl_kill :: "'s \<Rightarrow> (unit + unit) \<times> 's"
  cl_wait :: "'s \<Rightarrow> ((unit + bool) \<times> 's) option"
  cl_join :: "'s \<Rightarrow> (unit + (unit + nat list) list) \<times> 's"

text \<open>\<open>output_reader.join()\<close>: \<^term>\<open>None\<close> as long as the stream has not ended.\<close>

definition join_reader ::
  "'s ChildLib \<Rightarrow> 's \<Rightarrow> ((unit + (CommandFailure + nat list)) \<times> 's) option" where
  "join_reader lib s =
     (case cl_join lib s of
        (Inl _, s1) \<Rightarrow> Some (Inl (), s1)
      | (Inr reads, s1) \<Rightarrow> map_option (\<lambda>r. (Inr r, s1)) (read_limited_output reads))"

text \<open>
  The child is killed and reaped, the reader joined, and its output dropped; the results of the three
  calls are ignored.
\<close>

definition abandon_child ::
  "'s ChildLib \<Rightarrow> CommandFailure \<Rightarrow> 's \<Rightarrow> ((CommandFailure + bool) \<times> 's) option" where
  "abandon_child lib failure s =
     (case cl_kill lib s of (_, s1) \<Rightarrow>
        (case cl_wait lib s1 of
           None \<Rightarrow> None
         | Some (_, s2) \<Rightarrow> map_option (\<lambda>(_, s3). (Inl failure, s3)) (join_reader lib s2)))"

text \<open>The \<open>loop\<close> that waits for the exit status or the deadline.\<close>

partial_function (option) poll_loop ::
  "'s ChildLib \<Rightarrow> duration \<Rightarrow> nat \<Rightarrow> 's \<Rightarrow> ((CommandFailure + bool) \<times> 's) option" where
  "poll_loop lib timeout started s =
     (case cl_try_wait lib s of
        (Inl _, s1) \<Rightarrow> abandon_child lib Wait s1
      | (Inr (Some status), s1) \<Rightarrow> Some (Inr status, s1)
      | (Inr None, s1) \<Rightarrow>
          (case cl_now lib s1 of (now, s2) \<Rightarrow>
             if now - started < timeout then
               (case cl_now lib s2 of (now', s3) \<Rightarrow>
                  poll_loop lib timeout started
                    (cl_sleep lib (min COMMAND_POLL_INTERVAL (timeout - (now' - started))) s3))
             else abandon_child lib TimedOut s2))"

text \<open>What the exit status and the captured output make of a command that has ended.\<close>

definition command_output ::
  "bool \<Rightarrow> unit + (CommandFailure + nat list) \<Rightarrow> CommandFailure + rstr" where
  "command_output success joined =
     (case joined of
        Inl _ \<Rightarrow> Inl OutputRead
      | Inr r \<Rightarrow>
          and_then r (\<lambda>output.
            if \<not> success then Inl NonZeroExit else ok_or (from_utf8 output) OutputEncoding))"

definition run_command ::
  "'s ChildLib \<Rightarrow> path \<Rightarrow> rstr list \<Rightarrow> duration \<Rightarrow> 's \<Rightarrow> ((CommandFailure + rstr) \<times> 's) option" where
  "run_command lib program arguments timeout s =
     (case cl_spawn lib program arguments s of (spawned, s1) \<Rightarrow>
        if \<not> spawned then Some (Inl Spawn, s1)
        else if \<not> cl_stdout lib s1 then Some (Inl OutputRead, s1)
        else
          (case cl_now lib s1 of (started, s2) \<Rightarrow>
             (case poll_loop lib timeout started s2 of
                None \<Rightarrow> None
              | Some (Inl failure, s3) \<Rightarrow> Some (Inl failure, s3)
              | Some (Inr status, s3) \<Rightarrow>
                  map_option (\<lambda>(joined, s4). (command_output status joined, s4)) (join_reader lib s3))))"


section \<open>Facts: bounded output\<close>

text \<open>The bytes before the end of the stream.\<close>

fun stream_bytes :: "(unit + nat list) list \<Rightarrow> nat list option" where
  "stream_bytes [] = None"
| "stream_bytes (Inl e # rs) = None"
| "stream_bytes (Inr c # rs) = (if c = [] then Some [] else map_option ((@) c) (stream_bytes rs))"

lemma read_limited_loop_bytes:
  assumes "stream_bytes reads = Some bytes" "length output \<le> MAX_COMMAND_OUTPUT_BYTES"
  shows "read_limited_loop output too_large reads =
    Some (if too_large \<or> MAX_COMMAND_OUTPUT_BYTES < length output + length bytes
          then Inl OutputTooLarge else Inr (output @ bytes))"
  using assms
proof (induction reads arbitrary: "output" too_large bytes)
  case (Cons r reads)
  then obtain c where r: "r = Inr c" by (cases r) auto
  show ?case
  proof (cases "c = []")
    case False
    then obtain rest where rest: "stream_bytes reads = Some rest" "bytes = c @ rest"
      using Cons.prems(1) r by auto
    let ?n = "MAX_COMMAND_OUTPUT_BYTES - length output"
    have "read_limited_loop (output @ take ?n c) (too_large \<or> ?n < length c) reads =
      Some (if (too_large \<or> ?n < length c) \<or>
               MAX_COMMAND_OUTPUT_BYTES < length (output @ take ?n c) + length rest
            then Inl OutputTooLarge else Inr ((output @ take ?n c) @ rest))"
      using Cons.prems(2) by (intro Cons.IH [OF rest(1)]) simp
    then show ?thesis using r False rest(2) Cons.prems(2) by (auto simp: Let_def min_def)
  qed (use Cons.prems r in simp)
qed simp

lemma read_limited_loop_error:
  "stream_bytes reads = None \<Longrightarrow>
   read_limited_loop output too_large reads \<in> {None, Some (Inl OutputRead)}"
proof (induction reads arbitrary: "output" too_large)
  case (Cons r reads)
  then show ?case by (cases r) (auto simp: Let_def split: if_splits)
qed simp

lemma read_limited_output_bytes:
  "read_limited_output reads = Some r \<Longrightarrow>
   r = (case stream_bytes reads of
          None \<Rightarrow> Inl OutputRead
        | Some bytes \<Rightarrow> if 4096 < length bytes then Inl OutputTooLarge else Inr bytes)"
  using read_limited_loop_bytes [of reads _ "[]" False] read_limited_loop_error [of reads "[]" False]
  by (auto simp: read_limited_output_def MAX_COMMAND_OUTPUT_BYTES_def split: option.split)

lemma abandon_child_result: "abandon_child lib failure s = Some y \<Longrightarrow> fst y = Inl failure"
  by (auto simp: abandon_child_def split: prod.splits option.splits)

text \<open>The loop ends with the answer of its last \<open>try_wait\<close>, or abandons the child.\<close>

lemma poll_loop_result:
  assumes "poll_loop lib timeout started s = Some (q, s')"
  shows "case q of
      Inl failure \<Rightarrow> (\<exists>t. abandon_child lib failure t = Some (q, s')) \<and> failure \<in> {Wait, TimedOut}
    | Inr success \<Rightarrow> \<exists>t. cl_try_wait lib t = (Inr (Some success), s')"
proof -
  define P where "P = (\<lambda>l :: 'a ChildLib. \<lambda>y. case fst y of
      Inl failure \<Rightarrow> (\<exists>t. abandon_child l failure t = Some y) \<and> failure \<in> {Wait, TimedOut}
    | Inr success \<Rightarrow> \<exists>t. cl_try_wait l t = (Inr (Some success), snd y))"
  have abandoned: "P l y" if "abandon_child l failure t = Some y" "failure \<in> {Wait, TimedOut}"
    for l :: "'a ChildLib" and failure t y
    using that abandon_child_result [OF that(1)] by (auto simp: P_def intro: exI [of _ t])
  have exited: "P l (Inr success, s1)" if "cl_try_wait l s0 = (Inr (Some success), s1)"
    for l :: "'a ChildLib" and success s0 s1
    using that by (auto simp: P_def)
  have "P lib (q, s')"
  proof (rule poll_loop.raw_induct [of "\<lambda>l _ _ _. P l", OF _ assms])
    fix rec and l :: "'a ChildLib" and t b s y
    assume IH: "\<And>l t b s y. rec l t b s = Some y \<Longrightarrow> P l y"
      and body: "(case cl_try_wait l s of
        (Inl _, s1) \<Rightarrow> abandon_child l Wait s1
      | (Inr (Some status), s1) \<Rightarrow> Some (Inr status, s1)
      | (Inr None, s1) \<Rightarrow>
          (case cl_now l s1 of (now, s2) \<Rightarrow>
             if now - b < t then
               (case cl_now l s2 of (now', s3) \<Rightarrow>
                  rec l t b (cl_sleep l (min COMMAND_POLL_INTERVAL (t - (now' - b))) s3))
             else abandon_child l TimedOut s2)) = Some y"
    from body show "P l y"
      by (auto split: prod.splits sum.splits option.splits if_splits intro: abandoned exited IH)
  qed
  then show ?thesis by (simp add: P_def split: sum.splits)
qed


text \<open>A child that prints in two chunks and exits at once with the given status, for the witness.\<close>

definition printing_child :: "bool \<Rightarrow> unit ChildLib" where
  "printing_child success =
     \<lparr>cl_spawn = (\<lambda>_ _ s. (True, s)), cl_stdout = (\<lambda>_. True), cl_try_wait = (\<lambda>s. (Inr (Some success), s)),
      cl_now = (\<lambda>s. (0, s)), cl_sleep = (\<lambda>_ s. s), cl_kill = (\<lambda>s. (Inr (), s)),
      cl_wait = (\<lambda>s. Some (Inr success, s)), cl_join = (\<lambda>s. (Inr [Inr [48], Inr [49], Inr []], s))\<rparr>"

lemma printing_child_run:
  "run_command (printing_child success) program arguments timeout () =
     Some (if success then Inr ([48, 49]) else Inl NonZeroExit, ())"
  by (simp add: run_command_def printing_child_def poll_loop.simps [of _ _ _ "()"] join_reader_def
      read_limited_output_def MAX_COMMAND_OUTPUT_BYTES_def command_output_def and_then_def ok_or_def)



section \<open>Facts: the deadline\<close>

text \<open>
  What the loop needs of the clock: a time \<open>clk\<close> of the world that \<open>now\<close> reads, that no call moves
  backwards, and that \<open>sleep d\<close> advances by at least \<open>d\<close> (the documented behaviour of
  \<open>Instant::now\<close> and \<open>thread::sleep\<close>).
\<close>

definition clock_laws :: "'s ChildLib \<Rightarrow> ('s \<Rightarrow> nat) \<Rightarrow> bool" where
  "clock_laws lib clk \<longleftrightarrow>
     (\<forall>s. clk s \<le> fst (cl_now lib s) \<and> fst (cl_now lib s) \<le> clk (snd (cl_now lib s))) \<and>
     (\<forall>s. clk s \<le> clk (snd (cl_try_wait lib s))) \<and>
     (\<forall>s d. clk s + d \<le> clk (cl_sleep lib d s))"

text \<open>
  What the runner needs of the process: \<open>live\<close> tells of a state that the child may still run and keep
  its end of the pipe open.  A failed start leaves no child, a started one has the piped standard
  output it was given; the child is gone when \<open>try_wait\<close> reports its exit and after \<open>kill\<close>;
  \<open>wait\<close> returns when, and only claimed when, the child is gone, and so the reader sees the end of
  the stream or an error.  Nothing is said of \<open>wait\<close> and \<open>join\<close> while the child lives: there they
  may block for ever.
\<close>

definition process_laws :: "'s ChildLib \<Rightarrow> ('s \<Rightarrow> bool) \<Rightarrow> bool" where
  "process_laws lib live \<longleftrightarrow>
     (\<forall>p a s. if fst (cl_spawn lib p a s) then cl_stdout lib (snd (cl_spawn lib p a s))
              else \<not> live (snd (cl_spawn lib p a s))) \<and>
     (\<forall>s. \<forall>status s1. cl_try_wait lib s = (Inr (Some status), s1) \<longrightarrow> \<not> live s1) \<and>
     (\<forall>s. \<not> live (snd (cl_kill lib s))) \<and>
     (\<forall>s. \<not> live s \<longrightarrow> (\<exists>r s1. cl_wait lib s = Some (r, s1) \<and> \<not> live s1)) \<and>
     (\<forall>s. \<not> live s \<longrightarrow> \<not> live (snd (cl_join lib s)) \<and>
        (\<forall>reads. fst (cl_join lib s) = Inr reads \<longrightarrow> read_limited_output reads \<noteq> None))"

lemma join_reader_returns:
  assumes "process_laws lib live" "\<not> live s"
  shows "\<exists>r s1. join_reader lib s = Some (r, s1) \<and> \<not> live s1"
proof -
  obtain joined s1 where j: "cl_join lib s = (joined, s1)" by (cases "cl_join lib s")
  have "\<not> live s1" "\<And>reads. joined = Inr reads \<Longrightarrow> read_limited_output reads \<noteq> None"
    using assms j by (auto simp: process_laws_def dest!: spec [of _ s])
  then show ?thesis using j by (cases joined) (auto simp: join_reader_def)
qed

lemma abandon_child_returns:
  assumes "process_laws lib live"
  shows "\<exists>s1. abandon_child lib failure s = Some (Inl failure, s1) \<and> \<not> live s1"
proof -
  obtain k s1 where k: "cl_kill lib s = (k, s1)" by (cases "cl_kill lib s")
  have "\<not> live s1" using assms k unfolding process_laws_def by (metis snd_conv)
  then obtain w s2 where w: "cl_wait lib s1 = Some (w, s2)" "\<not> live s2"
    using assms unfolding process_laws_def by blast
  then show ?thesis
    using join_reader_returns [OF assms w(2)] by (auto simp: abandon_child_def k)
qed

lemma poll_loop_exit:
  assumes "process_laws lib live" "poll_loop lib timeout started s = Some (Inr success, s')"
  shows "\<not> live s'"
proof -
  obtain t where "cl_try_wait lib t = (Inr (Some success), s')"
    using poll_loop_result [OF assms(2)] by auto
  then show ?thesis using assms(1) unfolding process_laws_def by blast
qed

lemma poll_loop_returns:
  assumes laws: "clock_laws lib clk" "process_laws lib live"
  shows "\<exists>r. poll_loop lib timeout started s = Some r"
proof (induction "started + timeout - clk s" arbitrary: s rule: less_induct)
  case less
  obtain w s1 where w: "cl_try_wait lib s = (w, s1)" by (cases "cl_try_wait lib s")
  obtain now s2 where now: "cl_now lib s1 = (now, s2)" by (cases "cl_now lib s1")
  obtain now' s3 where now': "cl_now lib s2 = (now', s3)" by (cases "cl_now lib s2")
  define d where "d = min COMMAND_POLL_INTERVAL (timeout - (now' - started))"
  let ?s = "cl_sleep lib d s3"
  have mono: "clk s \<le> clk s1" "clk s1 \<le> now" "now \<le> clk s2" "clk s2 \<le> now'" "now' \<le> clk s3"
      "clk s3 + d \<le> clk ?s"
    using laws w now now' unfolding clock_laws_def by (metis fst_conv snd_conv)+
  have step: "poll_loop lib timeout started s =
     (case w of
        Inl _ \<Rightarrow> abandon_child lib Wait s1
      | Inr (Some status) \<Rightarrow> Some (Inr status, s1)
      | Inr None \<Rightarrow>
          (if now - started < timeout then poll_loop lib timeout started ?s
           else abandon_child lib TimedOut s2))"
    by (subst poll_loop.simps) (simp add: w now now' d_def split: sum.split option.split)
  have "\<exists>r. poll_loop lib timeout started ?s = Some r" if guard: "now - started < timeout"
  proof (cases "started + timeout - clk ?s < started + timeout - clk s")
    case True
    then show ?thesis by (rule less)
  next
    case False
    moreover have "clk s < started + timeout" using guard mono(1,2) by linarith
    ultimately have eq: "clk ?s \<le> clk s" by linarith
    then have "d = 0" "now' = now" using mono by linarith+
    then have "timeout \<le> now - started"
      by (simp add: d_def COMMAND_POLL_INTERVAL_def from_millis_def min_def split: if_splits)
    with guard show ?thesis by linarith
  qed
  then show ?case
    unfolding step using abandon_child_returns [OF laws(2)]
    by (auto split: sum.split option.split) blast+
qed

lemma run_command_total:
  assumes "clock_laws lib clk" "process_laws lib live"
  shows "\<exists>r s'. run_command lib program arguments timeout s = Some (r, s') \<and> \<not> live s'"
proof -
  obtain spawned s1 where s1: "cl_spawn lib program arguments s = (spawned, s1)"
    by (cases "cl_spawn lib program arguments s")
  obtain started s2 where s2: "cl_now lib s1 = (started, s2)" by (cases "cl_now lib s1")
  have spawn: "if spawned then cl_stdout lib s1 else \<not> live s1"
    using assms(2) s1 unfolding process_laws_def by (metis fst_conv snd_conv)
  obtain q s3 where loop: "poll_loop lib timeout started s2 = Some (q, s3)"
    using poll_loop_returns [OF assms, of timeout started s2] by auto
  show ?thesis
  proof (cases q)
    case (Inl failure)
    then obtain t where "abandon_child lib failure t = Some (q, s3)"
      using poll_loop_result [OF loop] by auto
    then have "\<not> live s3" using abandon_child_returns [OF assms(2), of failure t] by auto
    then show ?thesis using spawn s1 s2 loop Inl by (auto simp: run_command_def split: if_splits)
  next
    case (Inr success)
    then have "\<not> live s3" using poll_loop_exit [OF assms(2)] loop by blast
    from join_reader_returns [OF assms(2) this] obtain joined s4 where
      "join_reader lib s3 = Some (joined, s4)" "\<not> live s4" by blast
    then show ?thesis using spawn s1 s2 loop Inr by (auto simp: run_command_def split: if_splits)
  qed
qed

text \<open>
  How late a command can be: \<open>\<delta>\<close> bounds a look at the clock or at the child and the oversleeping,
  \<open>\<Delta>\<close> the start of the child, the kill, and the wait and the join when the child is gone.
\<close>

definition prompt_laws :: "'s ChildLib \<Rightarrow> ('s \<Rightarrow> bool) \<Rightarrow> ('s \<Rightarrow> nat) \<Rightarrow> nat \<Rightarrow> nat \<Rightarrow> bool" where
  "prompt_laws lib live clk \<delta> \<Delta> \<longleftrightarrow>
     (\<forall>s. clk (snd (cl_now lib s)) \<le> clk s + \<delta>) \<and>
     (\<forall>s. clk (snd (cl_try_wait lib s)) \<le> clk s + \<delta>) \<and>
     (\<forall>s d. clk (cl_sleep lib d s) \<le> clk s + d + \<delta>) \<and>
     (\<forall>p a s. clk (snd (cl_spawn lib p a s)) \<le> clk s + \<Delta>) \<and>
     (\<forall>s. clk (snd (cl_kill lib s)) \<le> clk s + \<Delta>) \<and>
     (\<forall>s. \<not> live s \<longrightarrow> clk (snd (the (cl_wait lib s))) \<le> clk s + \<Delta>) \<and>
     (\<forall>s. \<not> live s \<longrightarrow> clk (snd (cl_join lib s)) \<le> clk s + \<Delta>)"

lemma join_reader_time:
  "prompt_laws lib live clk \<delta> \<Delta> \<Longrightarrow> \<not> live s \<Longrightarrow> join_reader lib s = Some (r, s') \<Longrightarrow>
     clk s' \<le> clk s + \<Delta>"
  by (auto simp: join_reader_def prompt_laws_def split: prod.splits sum.splits option.splits
      dest!: spec [of _ s])

lemma abandon_child_time:
  assumes laws: "process_laws lib live" "prompt_laws lib live clk \<delta> \<Delta>"
    and run: "abandon_child lib failure s = Some (r, s')"
  shows "clk s' \<le> clk s + 3 * \<Delta> \<and> (\<exists>e. r = Inl e)"
proof -
  obtain k s1 where k: "cl_kill lib s = (k, s1)" by (cases "cl_kill lib s")
  have s1: "\<not> live s1" "clk s1 \<le> clk s + \<Delta>"
    using laws k unfolding process_laws_def prompt_laws_def by (metis snd_conv)+
  then obtain w s2 where w: "cl_wait lib s1 = Some (w, s2)" "\<not> live s2"
    using laws(1) unfolding process_laws_def by blast
  have "clk s2 \<le> clk s1 + \<Delta>"
    using laws(2) s1 w unfolding prompt_laws_def by (metis option.sel snd_conv)
  moreover obtain j where j: "join_reader lib s2 = Some (j, s')" "r = Inl failure"
    using run by (auto simp: abandon_child_def k w)
  moreover have "clk s' \<le> clk s2 + \<Delta>" by (rule join_reader_time [OF laws(2) w(2) j(1)])
  ultimately show ?thesis using s1 by simp
qed

lemma poll_loop_time:
  assumes laws: "clock_laws lib clk" "prompt_laws lib live clk \<delta> \<Delta>" "process_laws lib live"
    and "poll_loop lib timeout started s = Some y" "clk s \<le> started + timeout + 3 * \<delta>"
  shows "clk (snd y) \<le> started + timeout + 5 * \<delta> + (case fst y of Inl _ \<Rightarrow> 3 * \<Delta> | Inr _ \<Rightarrow> 0)"
proof -
  have "lib' = lib \<longrightarrow> t = timeout \<longrightarrow> b = started \<longrightarrow> clk s \<le> started + timeout + 3 * \<delta> \<longrightarrow>
      clk (snd y) \<le> started + timeout + 5 * \<delta> + (case fst y of Inl _ \<Rightarrow> 3 * \<Delta> | Inr _ \<Rightarrow> 0)"
    if "poll_loop lib' t b s = Some y" for lib' t b
  proof (rule poll_loop.raw_induct [of "\<lambda>l t b s y. l = lib \<longrightarrow> t = timeout \<longrightarrow> b = started \<longrightarrow>
      clk s \<le> started + timeout + 3 * \<delta> \<longrightarrow>
      clk (snd y) \<le> started + timeout + 5 * \<delta> + (case fst y of Inl _ \<Rightarrow> 3 * \<Delta> | Inr _ \<Rightarrow> 0)", OF _ that],
      intro impI)
    fix rec l t b s y
    assume IH: "\<And>l t b s y. rec l t b s = Some y \<Longrightarrow> l = lib \<longrightarrow> t = timeout \<longrightarrow> b = started \<longrightarrow>
        clk s \<le> started + timeout + 3 * \<delta> \<longrightarrow>
        clk (snd y) \<le> started + timeout + 5 * \<delta> + (case fst y of Inl _ \<Rightarrow> 3 * \<Delta> | Inr _ \<Rightarrow> 0)"
      and eqs: "l = lib" "t = timeout" "b = started" and s: "clk s \<le> started + timeout + 3 * \<delta>"
      and body: "(case cl_try_wait l s of
        (Inl _, s1) \<Rightarrow> abandon_child l Wait s1
      | (Inr (Some status), s1) \<Rightarrow> Some (Inr status, s1)
      | (Inr None, s1) \<Rightarrow>
          (case cl_now l s1 of (now, s2) \<Rightarrow>
             if now - b < t then
               (case cl_now l s2 of (now', s3) \<Rightarrow>
                  rec l t b (cl_sleep l (min COMMAND_POLL_INTERVAL (t - (now' - b))) s3))
             else abandon_child l TimedOut s2)) = Some y"
    obtain w s1 where w: "cl_try_wait lib s = (w, s1)" by (cases "cl_try_wait lib s")
    obtain now s2 where now: "cl_now lib s1 = (now, s2)" by (cases "cl_now lib s1")
    obtain now' s3 where now': "cl_now lib s2 = (now', s3)" by (cases "cl_now lib s2")
    define d where "d = min COMMAND_POLL_INTERVAL (timeout - (now' - started))"
    let ?s = "cl_sleep lib d s3"
    have up: "clk s1 \<le> clk s + \<delta>" "clk s2 \<le> clk s1 + \<delta>" "clk s3 \<le> clk s2 + \<delta>" "clk ?s \<le> clk s3 + d + \<delta>"
      using laws(2) w now now' unfolding prompt_laws_def by (metis snd_conv)+
    have mono: "clk s1 \<le> now" "now \<le> clk s2" "clk s2 \<le> now'" "now' \<le> clk s3"
      using laws(1) now now' unfolding clock_laws_def by (metis fst_conv snd_conv)+
    have d: "d \<le> timeout - (now' - started)" by (simp add: d_def)
    have sleeping: "clk ?s \<le> started + timeout + 3 * \<delta>" if "now - started < timeout"
      using that up mono d by linarith
    show "clk (snd y) \<le> started + timeout + 5 * \<delta> + (case fst y of Inl _ \<Rightarrow> 3 * \<Delta> | Inr _ \<Rightarrow> 0)"
    proof (cases w)
      case (Inl e)
      then have "abandon_child lib Wait s1 = Some y" using body w eqs by simp
      then show ?thesis
        using abandon_child_time [OF laws(3,2), of Wait s1 "fst y" "snd y"] up s by auto
    next
      case (Inr status)
      show ?thesis
      proof (cases status)
        case (Some ok)
        then show ?thesis using body w eqs Inr up s by auto
      next
        case None
        show ?thesis
        proof (cases "now - started < timeout")
          case True
          then have "rec lib timeout started ?s = Some y"
            using body w eqs Inr None now now' by (simp add: d_def)
          then show ?thesis using IH sleeping [OF True] by blast
        next
          case False
          then have "abandon_child lib TimedOut s2 = Some y" using body w eqs Inr None now by simp
          then show ?thesis
            using abandon_child_time [OF laws(3,2), of TimedOut s2 "fst y" "snd y"] up s by auto
        qed
      qed
    qed
  qed
  then show ?thesis using assms(4,5) by blast
qed

text \<open>
  \<open>run\<close> returns at the latest six looks at the clock or the child and the start and the removal of a
  child after its timeout, however long the child goes on.\<close>

lemma run_command_in_time:
  assumes "clock_laws lib clk" "prompt_laws lib live clk \<delta> \<Delta>" "process_laws lib live"
    and "run_command lib program arguments timeout s = Some (r, s')"
  shows "clk s' \<le> clk s + timeout + 6 * \<delta> + 4 * \<Delta>"
proof -
  obtain spawned s1 where s1: "cl_spawn lib program arguments s = (spawned, s1)"
    by (cases "cl_spawn lib program arguments s")
  obtain started s2 where s2: "cl_now lib s1 = (started, s2)" by (cases "cl_now lib s1")
  have times: "clk s1 \<le> clk s + \<Delta>" "clk s1 \<le> started" "started \<le> clk s2" "clk s2 \<le> clk s1 + \<delta>"
    using assms(1,2) s1 s2 unfolding clock_laws_def prompt_laws_def by (metis fst_conv snd_conv)+
  show ?thesis
  proof (cases "spawned \<and> cl_stdout lib s1")
    case True
    then obtain q s3 where loop: "poll_loop lib timeout started s2 = Some (q, s3)"
      using assms(4) s1 s2 by (auto simp: run_command_def split: option.splits)
    have time: "clk s3 \<le> started + timeout + 5 * \<delta> + (case q of Inl _ \<Rightarrow> 3 * \<Delta> | Inr _ \<Rightarrow> 0)"
      using poll_loop_time [OF assms(1,2,3) loop] times by simp
    show ?thesis
    proof (cases q)
      case (Inl failure)
      then show ?thesis using assms(4) True s1 s2 loop times time by (simp add: run_command_def)
    next
      case (Inr success)
      then have "\<not> live s3" using poll_loop_exit [OF assms(3)] loop by blast
      moreover obtain joined where "join_reader lib s3 = Some (joined, s')"
        using assms(4) True s1 s2 loop Inr by (auto simp: run_command_def)
      ultimately have "clk s' \<le> clk s3 + \<Delta>" by (rule join_reader_time [OF assms(2)])
      then show ?thesis using times time Inr by simp
    qed
  qed (use assms(4) s1 times in \<open>auto simp: run_command_def split: if_splits\<close>)
qed

text \<open>
  C16. A firmware command always comes back and leaves no process behind: on a clock that advances
  while the loop sleeps, \<open>run\<close> returns, even if the child never exits, and the child is gone
  afterwards.  Of the process only its documented behaviour is needed: waiting for a child and reading
  its pipe to the end are known to end only once the child is gone, that is after an exit status was
  reported or after the kill, so a runner that gave up at the deadline without killing could block.\<close>

theorem run_command_returns:
  assumes "clock_laws lib clk" "process_laws lib live"
  shows "\<exists>r s'. run_command lib program arguments timeout s = Some (r, s') \<and> \<not> live s'"
  using run_command_total [OF assms] .

text \<open>
  A child that never exits by itself, on a clock that only sleeping moves: the state holds the time and
  whether the child lives.  While it does, \<open>wait\<close> and the reader block.
\<close>

definition hanging_child :: "(nat \<times> bool) ChildLib" where
  "hanging_child =
     \<lparr>cl_spawn = (\<lambda>_ _ (t, _). (True, (t, True))), cl_stdout = (\<lambda>_. True), cl_try_wait = (\<lambda>s. (Inr None, s)),
      cl_now = (\<lambda>s. (fst s, s)), cl_sleep = (\<lambda>d (t, a). (t + d, a)),
      cl_kill = (\<lambda>(t, _). (Inr (), (t, False))),
      cl_wait = (\<lambda>s. if snd s then None else Some (Inr False, s)),
      cl_join = (\<lambda>s. (Inr (if snd s then [] else [Inr []]), s))\<rparr>"

lemma hanging_child_laws:
  "clock_laws hanging_child fst" "process_laws hanging_child snd"
  "prompt_laws hanging_child snd fst 0 0"
  by (auto simp: clock_laws_def process_laws_def prompt_laws_def hanging_child_def
      read_limited_output_def split_beta)

theorem run_command_returns_witness:
  "\<exists>r s'. run_command hanging_child (lit ''/usr/bin/vcgencmd'') [] (from_secs 2) (0, False) = Some (r, s') \<and>
     \<not> snd s'"
  by (rule run_command_returns [OF hanging_child_laws(1,2)])

end
