(* ===== verification/Metrics_Cpu.thy ===== *)
theory Metrics_Cpu
  imports Metrics_Error
begin

text \<open>
  \<open>src/metrics/cpu.rs\<close>: the aggregate counters of \<open>/proc/stat\<close>, utilisation between two
  samples, load averages and the CPU frequency.  Counters are 64-bit words and all sums and
  differences are the checked operations of the source.
\<close>

definition CPU_PROC_STAT :: rstr where "CPU_PROC_STAT = lit ''/proc/stat''"
definition CPU_PROC_LOADAVG :: rstr where "CPU_PROC_LOADAVG = lit ''/proc/loadavg''"
definition CPU_FREQUENCY :: rstr where "CPU_FREQUENCY = lit ''CPU frequency''"

record CpuTimes =
  ct_user :: u64
  ct_nice :: u64
  ct_system :: u64
  ct_idle :: u64
  ct_io_wait :: u64
  ct_irq :: u64
  ct_soft_irq :: u64
  ct_steal :: u64

text \<open>The array \<open>[user, nice, system, idle, io_wait, irq, soft_irq, steal]\<close> of a sample.\<close>

definition cpu_counters :: "CpuTimes \<Rightarrow> u64 list" where
  "cpu_counters t =
     [ct_user t, ct_nice t, ct_system t, ct_idle t, ct_io_wait t, ct_irq t, ct_soft_irq t,
      ct_steal t]"

definition cpu_counter_names :: "rstr list" where
  "cpu_counter_names =
     [lit ''user'', lit ''nice'', lit ''system'', lit ''idle'', lit ''iowait'', lit ''irq'',
      lit ''softirq'', lit ''steal'']"

record LoadAverage =
  la_one_minute :: f64
  la_five_minutes :: f64
  la_fifteen_minutes :: f64

definition checked_sum :: "u64 list \<Rightarrow> rstr \<Rightarrow> ParseError + u64" where
  "checked_sum values overflow_detail =
     try_fold (\<lambda>acc v. ok_or (checked_add acc v) (ParseError_new CPU_PROC_STAT overflow_detail))
       0 values"

definition idle_jiffies :: "CpuTimes \<Rightarrow> ParseError + u64" where
  "idle_jiffies t =
     ok_or (checked_add (ct_idle t) (ct_io_wait t))
       (ParseError_new CPU_PROC_STAT (lit ''the aggregate idle counter overflowed u64''))"

definition total_jiffies :: "CpuTimes \<Rightarrow> ParseError + u64" where
  "total_jiffies t = checked_sum (cpu_counters t) (lit ''the aggregate CPU counter overflowed u64'')"

text \<open>The \<open>for\<close> loop that fills the counter array from the remaining fields of the line.\<close>

fun read_counters :: "rstr list \<Rightarrow> rstr list \<Rightarrow> ParseError + u64 list" where
  "read_counters [] flds = Inr []"
| "read_counters (name # names) [] =
     Inl (ParseError_new CPU_PROC_STAT (lit ''the '' @ name @ lit '' counter is missing''))"
| "read_counters (name # names) (raw # flds) =
     and_then (ok_or (from_str_radix 10 raw)
                 (ParseError_new CPU_PROC_STAT
                    (lit ''the '' @ name @ lit '' counter is not a u64'')))
       (\<lambda>v. map_ok (Cons v) (read_counters names flds))"

definition cpu_times_of :: "u64 list \<Rightarrow> CpuTimes" where
  "cpu_times_of c =
     \<lparr>ct_user = c ! 0, ct_nice = c ! 1, ct_system = c ! 2, ct_idle = c ! 3, ct_io_wait = c ! 4,
      ct_irq = c ! 5, ct_soft_irq = c ! 6, ct_steal = c ! 7\<rparr>"

definition is_cpu_line :: "rstr \<Rightarrow> bool" where
  "is_cpu_line line \<longleftrightarrow> nth_opt (split_whitespace line) 0 = Some (lit ''cpu'')"

definition parse_proc_stat :: "rstr \<Rightarrow> ParseError + CpuTimes" where
  "parse_proc_stat input =
     and_then (ok_or (find_first is_cpu_line (lines input))
                 (ParseError_new CPU_PROC_STAT (lit ''the aggregate cpu line is missing'')))
       (\<lambda>line. map_ok cpu_times_of
                 (read_counters cpu_counter_names (tl (split_whitespace line))))"

text \<open>The loop over the eight counters that computes the differences.\<close>

fun counter_deltas :: "(rstr \<times> u64 \<times> u64) list \<Rightarrow> ParseError + u64 list" where
  "counter_deltas [] = Inr []"
| "counter_deltas ((name, old, new) # rest) =
     and_then (ok_or (checked_sub new old)
                 (ParseError_new CPU_PROC_STAT
                    (lit ''the '' @ name @ lit '' counter moved backwards'')))
       (\<lambda>d. map_ok (Cons d) (counter_deltas rest))"

definition usage_percent :: "CpuTimes \<Rightarrow> CpuTimes \<Rightarrow> ParseError + f64 option" where
  "usage_percent previous current =
     and_then (counter_deltas
                 (zip cpu_counter_names (zip (cpu_counters previous) (cpu_counters current))))
       (\<lambda>delta.
         and_then (ok_or (checked_add (delta ! 3) (delta ! 4))
                     (ParseError_new CPU_PROC_STAT (lit ''the aggregate idle delta overflowed u64'')))
           (\<lambda>idle_delta.
             and_then (checked_sum delta (lit ''the aggregate CPU delta overflowed u64''))
               (\<lambda>total_delta.
                 if total_delta = 0 then Inr None
                 else
                   and_then (ok_or (checked_sub total_delta idle_delta)
                               (ParseError_new CPU_PROC_STAT
                                  (lit ''the idle delta exceeded the total CPU delta'')))
                     (\<lambda>busy_delta.
                       Inr (Some (f64_percent (unat busy_delta) (unat total_delta)))))))"

definition parse_non_negative_float :: "rstr option \<Rightarrow> rstr \<Rightarrow> ParseError + f64" where
  "parse_non_negative_float raw name =
     and_then (ok_or raw (ParseError_new CPU_PROC_LOADAVG (name @ lit '' is missing'')))
       (\<lambda>raw.
         and_then (ok_or (parse_f64 raw)
                     (ParseError_new CPU_PROC_LOADAVG (name @ lit '' is not a number'')))
           (\<lambda>value.
             if \<not> f64_is_finite value \<or> f64_is_sign_negative value
             then Inl (ParseError_new CPU_PROC_LOADAVG
                         (name @ lit '' must be finite and non-negative''))
             else Inr value))"

definition parse_loadavg :: "rstr \<Rightarrow> ParseError + LoadAverage" where
  "parse_loadavg input =
     (let flds = split_whitespace input in
      and_then (parse_non_negative_float (nth_opt flds 0) (lit ''one-minute load''))
        (\<lambda>one.
          and_then (parse_non_negative_float (nth_opt flds 1) (lit ''five-minute load''))
            (\<lambda>five.
              and_then (parse_non_negative_float (nth_opt flds 2) (lit ''fifteen-minute load''))
                (\<lambda>fifteen. Inr \<lparr>la_one_minute = one, la_five_minutes = five,
                                 la_fifteen_minutes = fifteen\<rparr>))))"

definition parse_frequency_khz :: "rstr \<Rightarrow> ParseError + f64" where
  "parse_frequency_khz input =
     (let flds = split_whitespace input in
      and_then (ok_or (nth_opt flds 0) (ParseError_new CPU_FREQUENCY (lit ''the value is missing'')))
        (\<lambda>raw.
          if nth_opt flds 1 \<noteq> None
          then Inl (ParseError_new CPU_FREQUENCY (lit ''the value contains unexpected fields''))
          else
            and_then (ok_or (from_str_radix 10 raw :: u64 option)
                        (ParseError_new CPU_FREQUENCY (lit ''the value is not an unsigned integer'')))
              (\<lambda>kilohertz. Inr (f64_div (f64_of_nat (unat kilohertz)) (f64_lit 1000)))))"


section \<open>Facts about the sums and differences\<close>

lemma checked_sum_iff: "checked_sum vs d = Inr s \<longleftrightarrow> sum_list (map unat vs) = unat s"
  by (simp add: checked_sum_def checked_sum_acc)

lemma checked_sum_error:
  "checked_sum vs d = Inl e \<longleftrightarrow>
     e = ParseError_new CPU_PROC_STAT d \<and> 2 ^ 64 \<le> sum_list (map unat vs)"
proof -
  have err: "try_fold (\<lambda>acc v. ok_or (checked_add acc v) e2) a vs = Inl e1 \<Longrightarrow> e1 = e2"
    for a :: u64 and e1 e2 :: ParseError by (induction vs arbitrary: a) (auto simp: and_then_eq_Inl ok_or_eq_Inl)
  show ?thesis
  proof (cases "checked_sum vs d")
    case (Inl e')
    have "\<not> sum_list (map unat vs) < 2 ^ 64"
    proof
      assume lt: "sum_list (map unat vs) < 2 ^ 64"
      then have "unat (of_nat (sum_list (map unat vs)) :: u64) = sum_list (map unat vs)"
        by (simp add: unat_of_nat)
      then have "checked_sum vs d = Inr (of_nat (sum_list (map unat vs)))"
        by (simp add: checked_sum_iff)
      with Inl show False by simp
    qed
    with Inl err [of "ParseError_new CPU_PROC_STAT d" 0 e'] show ?thesis
      by (auto simp: checked_sum_def not_less)
  next
    case (Inr s)
    then have "sum_list (map unat vs) = unat s" by (simp add: checked_sum_iff)
    then have "sum_list (map unat vs) < 2 ^ 64"
      using u64_bound [of s] by simp
    with Inr show ?thesis by simp
  qed
qed

lemma counter_deltas_iff:
  "length names = length os \<Longrightarrow> length os = length ns \<Longrightarrow>
   counter_deltas (zip names (zip os ns)) = Inr ds \<longleftrightarrow>
     list_all2 (\<lambda>(old, new) d. unat new = unat old + unat d) (zip os ns) ds"
proof (induction names arbitrary: os ns ds)
  case (Cons name names)
  then obtain old os' new ns' where "os = old # os'" "ns = new # ns'"
    by (metis length_Suc_conv)
  with Cons show ?case
    by (cases ds) (auto simp: result_iff checked_iff list_all2_Cons1)
qed auto

lemma counter_deltas_error:
  "counter_deltas xs = Inl e \<Longrightarrow>
   \<exists>n. e = ParseError_new CPU_PROC_STAT (lit ''the '' @ n @ lit '' counter moved backwards'')"
proof (induction xs rule: counter_deltas.induct)
  case (2 name old new rest)
  show ?case
  proof (cases "checked_sub new old")
    case None
    with 2 show ?thesis by (intro exI [of _ name]) simp
  next
    case (Some d)
    with 2 have "counter_deltas rest = Inl e" by (cases "counter_deltas rest") simp_all
    then show ?thesis using Some by (intro "2.IH") simp_all
  qed
qed simp


section \<open>Utilisation between two samples\<close>

text \<open>
  The specification over natural numbers: the tracked counters advance, their total advance
  is \<open>cpu_delta_sum\<close>, of which \<open>cpu_idle_sum\<close> jiffies were idle or waiting for I/O.
\<close>

definition counters_advance :: "CpuTimes \<Rightarrow> CpuTimes \<Rightarrow> bool" where
  "counters_advance p c \<longleftrightarrow> list_all2 (\<lambda>o1 n1. unat o1 \<le> unat n1) (cpu_counters p) (cpu_counters c)"

definition cpu_delta_sum :: "CpuTimes \<Rightarrow> CpuTimes \<Rightarrow> nat" where
  "cpu_delta_sum p c = sum_list (map2 (\<lambda>o1 n1. unat n1 - unat o1) (cpu_counters p) (cpu_counters c))"

definition cpu_idle_sum :: "CpuTimes \<Rightarrow> CpuTimes \<Rightarrow> nat" where
  "cpu_idle_sum p c =
     (unat (ct_idle c) - unat (ct_idle p)) + (unat (ct_io_wait c) - unat (ct_io_wait p))"

lemma cpu_idle_sum_le: "cpu_idle_sum p c \<le> cpu_delta_sum p c"
  by (simp add: cpu_idle_sum_def cpu_delta_sum_def cpu_counters_def)

lemma counter_deltas_samples:
  "counter_deltas (zip cpu_counter_names (zip (cpu_counters p) (cpu_counters c))) = Inr ds \<longleftrightarrow>
     list_all2 (\<lambda>(old, new) d. unat new = unat old + unat d)
       (zip (cpu_counters p) (cpu_counters c)) ds"
  by (rule counter_deltas_iff) (simp_all add: cpu_counters_def cpu_counter_names_def)

lemma usage_percent_ok:
  assumes "usage_percent p c = Inr x"
  shows "counters_advance p c" and "cpu_delta_sum p c < 2 ^ 64"
    and "x = (if cpu_delta_sum p c = 0 then None
              else Some (f64_percent (cpu_delta_sum p c - cpu_idle_sum p c) (cpu_delta_sum p c)))"
proof -
  obtain ds :: "u64 list" and idle tot :: u64 where
    ds: "list_all2 (\<lambda>(old, new) d. unat new = unat old + unat d)
           (zip (cpu_counters p) (cpu_counters c)) ds"
    and idle: "unat (ds ! 3) + unat (ds ! 4) = unat idle"
    and tot: "sum_list (map unat ds) = unat tot"
    and x: "(if tot = 0 then Inr None
             else and_then (ok_or (checked_sub tot idle)
                    (ParseError_new CPU_PROC_STAT
                      (lit ''the idle delta exceeded the total CPU delta'')))
                    (\<lambda>b. Inr (Some (f64_percent (unat b) (unat tot))))) = Inr x"
    using assms unfolding usage_percent_def
    by (simp only: and_then_eq_Inr ok_or_eq_Inr counter_deltas_samples checked_add_iff
        checked_sum_iff) blast
  from ds show "counters_advance p c"
    by (auto simp: counters_advance_def cpu_counters_def list_all2_Cons1)
  from ds tot have tot': "cpu_delta_sum p c = unat tot"
    by (auto simp: cpu_delta_sum_def cpu_counters_def list_all2_Cons1)
  from ds idle have idle': "cpu_idle_sum p c = unat idle"
    by (auto simp: cpu_idle_sum_def cpu_counters_def list_all2_Cons1)
  show "cpu_delta_sum p c < 2 ^ 64" using tot' u64_bound by simp
  show "x = (if cpu_delta_sum p c = 0 then None
              else Some (f64_percent (cpu_delta_sum p c - cpu_idle_sum p c) (cpu_delta_sum p c)))"
    using x tot' idle' by (auto simp: result_iff checked_iff unat_eq_0 split: if_splits)
qed

lemma usage_percent_total:
  assumes "counters_advance p c" "cpu_delta_sum p c < 2 ^ 64"
  shows "\<exists>x. usage_percent p c = Inr x"
proof -
  define ds where "ds = map2 (\<lambda>o1 n1. n1 - o1) (cpu_counters p) (cpu_counters c)"
  have ds: "list_all2 (\<lambda>(old, new) d. unat new = unat old + unat d)
      (zip (cpu_counters p) (cpu_counters c)) ds"
    using assms(1)
    by (simp add: ds_def counters_advance_def cpu_counters_def unat_sub word_le_nat_alt)
  then have sum: "sum_list (map unat ds) = cpu_delta_sum p c"
    and idle: "unat (ds ! 3) + unat (ds ! 4) = cpu_idle_sum p c"
    by (auto simp: cpu_delta_sum_def cpu_idle_sum_def cpu_counters_def list_all2_Cons1)
  have idle_lt: "cpu_idle_sum p c < 2 ^ 64" using cpu_idle_sum_le [of p c] assms(2) by linarith
  define tot :: u64 where "tot = of_nat (cpu_delta_sum p c)"
  define idl :: u64 where "idl = of_nat (cpu_idle_sum p c)"
  have u: "unat tot = cpu_delta_sum p c" "unat idl = cpu_idle_sum p c"
    using assms(2) idle_lt by (simp_all add: tot_def idl_def unat_of_nat)
  have "checked_add (ds ! 3) (ds ! 4) = Some idl" using idle u by (simp add: checked_iff)
  moreover have "checked_sum ds d = Inr tot" for d using sum u by (simp add: checked_sum_iff)
  moreover have "\<exists>b. checked_sub tot idl = Some b"
    using u cpu_idle_sum_le [of p c] by (simp add: checked_sub_def)
  ultimately show ?thesis
    using ds by (auto simp: usage_percent_def counter_deltas_samples [THEN iffD2])
qed


lemma usage_percent_Inr_iff:
  "(\<exists>x. usage_percent p c = Inr x) \<longleftrightarrow> counters_advance p c \<and> cpu_delta_sum p c < 2 ^ 64"
  using usage_percent_ok usage_percent_total by blast

lemma cpu_delta_sum_zero_iff:
  "counters_advance p c \<Longrightarrow> cpu_delta_sum p c = 0 \<longleftrightarrow> cpu_counters c = cpu_counters p"
  by (auto simp: counters_advance_def cpu_delta_sum_def cpu_counters_def word_unat_eq_iff)


section \<open>Facts about the parsers\<close>

text \<open>The line the kernel prints for a sample, with any further counters after \<open>steal\<close>.\<close>

definition render_cpu_line :: "CpuTimes \<Rightarrow> rstr list \<Rightarrow> rstr" where
  "render_cpu_line t extra =
     str_join [32] (lit ''cpu'' # map (\<lambda>w. show_nat (unat w)) (cpu_counters t) @ extra)"

lemma read_counters_rendered:
  "length names = length ws \<Longrightarrow>
   read_counters names (map (\<lambda>w. show_nat (unat w)) ws @ extra) = Inr ws"
  by (induction names ws rule: list_induct2) (simp_all add: from_str_radix_to_radix)

lemma cpu_times_of_counters: "cpu_times_of (cpu_counters t) = t"
  by (simp add: cpu_times_of_def cpu_counters_def)

lemma is_word_cpu: "is_word (lit ''cpu'')"
  by (simp add: is_word_def lit_Cons)

lemma split_cpu_line:
  "list_all is_word extra \<Longrightarrow>
   split_whitespace (render_cpu_line t extra) =
     lit ''cpu'' # map (\<lambda>w. show_nat (unat w)) (cpu_counters t) @ extra"
  unfolding render_cpu_line_def
  by (intro split_whitespace_join) (auto simp: is_word_cpu is_word_to_radix list_all_iff)

lemma parse_proc_stat_first_line:
  assumes "lines input = line # rest" "is_cpu_line line"
    "split_whitespace line = lit ''cpu'' # map (\<lambda>w. show_nat (unat w)) (cpu_counters t) @ extra"
  shows "parse_proc_stat input = Inr t"
proof -
  have "read_counters cpu_counter_names
      (map (\<lambda>w. show_nat (unat w)) (cpu_counters t) @ extra) = Inr (cpu_counters t)"
    by (rule read_counters_rendered) (simp add: cpu_counter_names_def cpu_counters_def)
  with assms show ?thesis by (simp add: parse_proc_stat_def cpu_times_of_counters)
qed

lemma parse_non_negative_float_ok:
  "parse_non_negative_float raw name = Inr v \<Longrightarrow> f64_is_finite v \<and> \<not> f64_is_sign_negative v"
  by (auto simp: parse_non_negative_float_def result_iff split: if_splits)


section \<open>Properties\<close>

text \<open>
  C25. Utilisation between two samples is correct on every pair of samples: an error is reported
  exactly when a counter moved backwards or the total advance does not fit into 64 bits; no
  value is reported exactly when no tracked counter advanced; otherwise the reported number is a
  non-negative finite \<open>f64\<close> within \<open>10^-12\<close> of the exact percentage of non-idle jiffies.
\<close>

theorem usage_percent_accurate:
  "case usage_percent p c of
     Inl e \<Rightarrow> \<not> (counters_advance p c \<and> cpu_delta_sum p c < 2 ^ 64)
   | Inr None \<Rightarrow> cpu_counters c = cpu_counters p
   | Inr (Some x) \<Rightarrow>
       counters_advance p c \<and> cpu_counters c \<noteq> cpu_counters p \<and>
       (\<exists>m. x = F64_Fin False m \<and> 0 \<le> m \<and>
          \<bar>m - 100 * of_nat (cpu_delta_sum p c - cpu_idle_sum p c) / of_nat (cpu_delta_sum p c)\<bar>
            \<le> 1 / 10 ^ 12)"
proof (cases "usage_percent p c")
  case (Inl e)
  then have "\<not> (counters_advance p c \<and> cpu_delta_sum p c < 2 ^ 64)"
    using usage_percent_Inr_iff [of p c] by auto
  with Inl show ?thesis by simp
next
  case (Inr x)
  note facts = usage_percent_ok [OF Inr]
  show ?thesis
  proof (cases "cpu_delta_sum p c = 0")
    case True
    with Inr facts show ?thesis by (simp add: cpu_delta_sum_zero_iff)
  next
    case False
    then obtain m where "f64_percent (cpu_delta_sum p c - cpu_idle_sum p c) (cpu_delta_sum p c) =
        F64_Fin False m" "0 \<le> m"
      "\<bar>m - 100 * of_nat (cpu_delta_sum p c - cpu_idle_sum p c) / of_nat (cpu_delta_sum p c)\<bar>
        \<le> 1 / 10 ^ 12"
      using f64_percent_accuracy [of "cpu_delta_sum p c - cpu_idle_sum p c" "cpu_delta_sum p c"]
        facts(2) by auto
    with Inr False facts show ?thesis by (auto simp: cpu_delta_sum_zero_iff)
  qed
qed

text \<open>
  The check that the idle advance does not exceed the total advance is never the one that
  fails: no pair of samples produces its error message.
\<close>

theorem usage_percent_idle_check_never_fails:
  "usage_percent p c \<noteq>
     Inl (ParseError_new CPU_PROC_STAT (lit ''the idle delta exceeded the total CPU delta''))"
proof
  let ?msg = "lit ''the idle delta exceeded the total CPU delta''"
  assume err: "usage_percent p c = Inl (ParseError_new CPU_PROC_STAT ?msg)"
  have last_ne: "last ?msg \<noteq> last (lit ''the '' @ n @ lit '' counter moved backwards'')" for n
    by (simp add: lit_Cons)
  have no_delta: "counter_deltas xs \<noteq> Inl (ParseError_new CPU_PROC_STAT ?msg)" for xs
  proof
    assume "counter_deltas xs = Inl (ParseError_new CPU_PROC_STAT ?msg)"
    from counter_deltas_error [OF this] obtain n where
      "?msg = lit ''the '' @ n @ lit '' counter moved backwards''"
      unfolding ParseError_new_eq by blast
    then show False using last_ne [of n] by argo
  qed
  obtain ds :: "u64 list" and idle tot :: u64 where
    ds: "list_all2 (\<lambda>(old, new) d. unat new = unat old + unat d)
           (zip (cpu_counters p) (cpu_counters c)) ds"
    and idle: "unat (ds ! 3) + unat (ds ! 4) = unat idle"
    and tot: "sum_list (map unat ds) = unat tot" and "unat tot < unat idle"
    using err no_delta
    by (auto simp: usage_percent_def and_then_eq_Inl ok_or_eq_Inl ok_or_eq_Inr counter_deltas_samples
        checked_iff checked_sum_iff checked_sum_error split: if_splits)
  then show False by (auto simp: cpu_counters_def list_all2_Cons1)
qed

text \<open>
  A \<open>/proc/stat\<close> text whose first line is the kernel's rendering of the eight counters
  (followed by any further counters, and by any further lines) parses to exactly these counters.
\<close>

theorem parse_proc_stat_roundtrip:
  assumes "list_all is_word extra"
  shows "parse_proc_stat (render_cpu_line t extra @ 10 # rest) = Inr t"
proof (rule parse_proc_stat_first_line)
  have words: "list_all is_word (lit ''cpu'' # map (\<lambda>w. show_nat (unat w)) (cpu_counters t) @ extra)"
    using assms by (auto simp: is_word_cpu is_word_to_radix list_all_iff)
  note no_break = join_words_no_break [OF words, folded render_cpu_line_def]
  show "lines (render_cpu_line t extra @ 10 # rest) = render_cpu_line t extra # lines rest"
    using no_break by (simp add: lines_Cons_LF strip_cr_id)
  show "split_whitespace (render_cpu_line t extra) =
      lit ''cpu'' # map (\<lambda>w. show_nat (unat w)) (cpu_counters t) @ extra"
    using assms by (rule split_cpu_line)
  then show "is_cpu_line (render_cpu_line t extra)" by (simp add: is_cpu_line_def)
qed

theorem parse_proc_stat_roundtrip_witness:
  "list_all is_word [lit ''7''] \<and>
   parse_proc_stat (render_cpu_line (cpu_times_of [1, 2, 3, 4, 5, 6, 7, 8]) [lit ''7''] @ [10]) =
     Inr (cpu_times_of [1, 2, 3, 4, 5, 6, 7, 8])"
proof -
  have h: "list_all is_word [lit ''7'']" by (simp add: is_word_def lit_Cons)
  show ?thesis using h parse_proc_stat_roundtrip [OF h] by simp
qed

text \<open>
  The load averages accepted from \<open>/proc/loadavg\<close> are finite and not negative (a negative
  zero is refused as well).
\<close>

theorem parse_loadavg_non_negative:
  "case parse_loadavg input of
     Inl e \<Rightarrow> pe_source_name e = CPU_PROC_LOADAVG
   | Inr l \<Rightarrow>
       list_all (\<lambda>v. f64_is_finite v \<and> \<not> f64_is_sign_negative v)
         [la_one_minute l, la_five_minutes l, la_fifteen_minutes l]"
proof (cases "parse_loadavg input")
  case (Inl e)
  have "parse_non_negative_float raw name = Inl e' \<Longrightarrow> pe_source_name e' = CPU_PROC_LOADAVG"
    for raw name e'
    by (auto simp: parse_non_negative_float_def and_then_eq_Inl ok_or_eq_Inl split: if_splits)
  with Inl show ?thesis by (auto simp: parse_loadavg_def Let_def and_then_eq_Inl)
next
  case (Inr l)
  then show ?thesis
    by (auto simp: parse_loadavg_def Let_def and_then_eq_Inr dest: parse_non_negative_float_ok)
qed

end
