(* ===== verification/Metrics_Memory.thy ===== *)
theory Metrics_Memory
  imports Metrics_Error Telemetry_Model
begin

text \<open>
  \<open>src/metrics/memory.rs\<close>: \<open>/proc/meminfo\<close>.  The map of recognised keys is a partial function,
  all counters are 64-bit words.  The result struct, called \<open>MemoryMetrics\<close> like the payload's, is
  \<open>MemInfoMetrics\<close> here.
\<close>

definition MEM_PROC_MEMINFO :: rstr where "MEM_PROC_MEMINFO = lit ''/proc/meminfo''"
definition BYTES_PER_KIBIBYTE :: u64 where "BYTES_PER_KIBIBYTE = 1024"

record MemInfoMetrics =
  mi_total_bytes :: u64
  mi_available_bytes :: u64
  mi_used_bytes :: u64
  mi_used_percent :: f64
  mi_swap_total_bytes :: u64
  mi_swap_free_bytes :: u64
  mi_swap_used_bytes :: u64
  mi_swap_used_percent :: f64

definition meminfo_keys :: "rstr list" where
  "meminfo_keys =
     [lit ''MemTotal'', lit ''MemAvailable'', lit ''MemFree'', lit ''Buffers'', lit ''Cached'',
      lit ''SReclaimable'', lit ''Shmem'', lit ''SwapTotal'', lit ''SwapFree'']"

definition canonical_key :: "rstr \<Rightarrow> rstr option" where
  "canonical_key key = (if key \<in> set meminfo_keys then Some key else None)"

definition parse_kib_value :: "rstr \<Rightarrow> rstr \<Rightarrow> ParseError + u64" where
  "parse_kib_value raw key =
     (let flds = split_whitespace raw in
      and_then (ok_or (nth_opt flds 0) (ParseError_new MEM_PROC_MEMINFO (key @ lit '' has no value'')))
        (\<lambda>first.
          and_then (ok_or (from_str_radix 10 first)
                      (ParseError_new MEM_PROC_MEMINFO (key @ lit '' is not an unsigned integer'')))
            (\<lambda>value.
              if nth_opt flds 1 \<noteq> Some (lit ''kB'') \<or> nth_opt flds 2 \<noteq> None
              then Inl (ParseError_new MEM_PROC_MEMINFO (key @ lit '' must use the kB unit''))
              else Inr value)))"

text \<open>One iteration of the loop over the lines.\<close>

definition meminfo_line :: "(rstr \<rightharpoonup> u64) \<Rightarrow> rstr \<Rightarrow> ParseError + (rstr \<rightharpoonup> u64)" where
  "meminfo_line values line =
     (case split_once 58 line of
        None \<Rightarrow> Inr values
      | Some (raw_key, raw_value) \<Rightarrow>
          (case canonical_key (trim raw_key) of
             None \<Rightarrow> Inr values
           | Some key \<Rightarrow>
               (if values key \<noteq> None
                then Inl (ParseError_new MEM_PROC_MEMINFO (key @ lit '' appears more than once''))
                else and_then (parse_kib_value raw_value key)
                       (\<lambda>v. Inr (values(key \<mapsto> v))))))"

definition parse_relevant_values :: "rstr \<Rightarrow> ParseError + (rstr \<rightharpoonup> u64)" where
  "parse_relevant_values input = try_fold meminfo_line Map.empty (lines input)"

definition mem_required :: "(rstr \<rightharpoonup> u64) \<Rightarrow> rstr \<Rightarrow> ParseError + u64" where
  "mem_required values key =
     ok_or (values key) (ParseError_new MEM_PROC_MEMINFO (key @ lit '' is missing''))"

definition checked_kib_sum :: "u64 list \<Rightarrow> ParseError + u64" where
  "checked_kib_sum values =
     try_fold
       (\<lambda>acc v. ok_or (checked_add acc v)
          (ParseError_new MEM_PROC_MEMINFO
             (lit ''the available-memory fallback overflowed u64'')))
       0 values"

definition fallback_available_kib :: "(rstr \<rightharpoonup> u64) \<Rightarrow> ParseError + u64" where
  "fallback_available_kib values =
     and_then (mem_required values (lit ''MemFree'')) (\<lambda>free.
     and_then (mem_required values (lit ''Buffers'')) (\<lambda>buffers.
     and_then (mem_required values (lit ''Cached'')) (\<lambda>cached.
     and_then (mem_required values (lit ''SReclaimable'')) (\<lambda>reclaimable.
     and_then (mem_required values (lit ''Shmem'')) (\<lambda>shared.
       map_ok (\<lambda>s. saturating_sub s shared)
         (checked_kib_sum [free, buffers, cached, reclaimable]))))))"

definition kib_to_bytes :: "u64 \<Rightarrow> rstr \<Rightarrow> ParseError + u64" where
  "kib_to_bytes value key =
     ok_or (checked_mul value BYTES_PER_KIBIBYTE)
       (ParseError_new MEM_PROC_MEMINFO (key @ lit '' overflows bytes as u64''))"

definition mem_percentage :: "u64 \<Rightarrow> u64 \<Rightarrow> f64" where
  "mem_percentage used whole =
     (if whole = 0 then f64_lit 0 else f64_percent (unat used) (unat whole))"

text \<open>The body of \<open>parse_meminfo\<close> after the values are read.\<close>

definition meminfo_metrics :: "(rstr \<rightharpoonup> u64) \<Rightarrow> ParseError + MemInfoMetrics" where
  "meminfo_metrics values =
     and_then (mem_required values (lit ''MemTotal'')) (\<lambda>total_kib.
     if total_kib = 0
     then Inl (ParseError_new MEM_PROC_MEMINFO (lit ''MemTotal must be greater than zero''))
     else
     and_then (case values (lit ''MemAvailable'') of
                 Some v \<Rightarrow> Inr v | None \<Rightarrow> fallback_available_kib values) (\<lambda>avail.
     let available_kib = min avail total_kib in
     and_then (mem_required values (lit ''SwapTotal'')) (\<lambda>swap_total_kib.
     and_then (mem_required values (lit ''SwapFree'')) (\<lambda>swap_free.
     let swap_free_kib = min swap_free swap_total_kib in
     and_then (kib_to_bytes total_kib (lit ''MemTotal'')) (\<lambda>total_bytes.
     and_then (kib_to_bytes available_kib (lit ''MemAvailable'')) (\<lambda>available_bytes.
     and_then (ok_or (checked_sub total_bytes available_bytes)
                 (ParseError_new MEM_PROC_MEMINFO (lit ''available memory exceeded total memory'')))
       (\<lambda>used_bytes.
     and_then (kib_to_bytes swap_total_kib (lit ''SwapTotal'')) (\<lambda>swap_total_bytes.
     and_then (kib_to_bytes swap_free_kib (lit ''SwapFree'')) (\<lambda>swap_free_bytes.
     and_then (ok_or (checked_sub swap_total_bytes swap_free_bytes)
                 (ParseError_new MEM_PROC_MEMINFO (lit ''free swap exceeded total swap'')))
       (\<lambda>swap_used_bytes.
     Inr \<lparr>mi_total_bytes = total_bytes, mi_available_bytes = available_bytes,
          mi_used_bytes = used_bytes, mi_used_percent = mem_percentage used_bytes total_bytes,
          mi_swap_total_bytes = swap_total_bytes, mi_swap_free_bytes = swap_free_bytes,
          mi_swap_used_bytes = swap_used_bytes,
          mi_swap_used_percent = mem_percentage swap_used_bytes swap_total_bytes\<rparr>))))))))))"

definition parse_meminfo :: "rstr \<Rightarrow> ParseError + MemInfoMetrics" where
  "parse_meminfo input = and_then (parse_relevant_values input) meminfo_metrics"


section \<open>Facts\<close>

lemma kib_to_bytes_eq:
  "kib_to_bytes v k = Inr b \<longleftrightarrow> unat b = 1024 * unat v"
proof -
  have "kib_to_bytes v k = Inr b \<longleftrightarrow> checked_mul v BYTES_PER_KIBIBYTE = Some b"
    by (simp add: kib_to_bytes_def result_iff)
  also have "\<dots> \<longleftrightarrow> unat b = unat v * unat BYTES_PER_KIBIBYTE" by (auto simp: checked_iff)
  finally show ?thesis by (simp add: BYTES_PER_KIBIBYTE_def mult.commute)
qed

lemma mem_required_eq: "mem_required m k = Inr v \<longleftrightarrow> m k = Some v"
  by (simp add: mem_required_def result_iff)

lemma checked_kib_sum_eq: "checked_kib_sum vs = Inr s \<longleftrightarrow> sum_list (map unat vs) = unat s"
  by (simp add: checked_kib_sum_def checked_sum_acc)

text \<open>The available memory the code uses, in KiB, as a number.\<close>

definition available_kib_spec :: "(rstr \<rightharpoonup> u64) \<Rightarrow> nat \<Rightarrow> bool" where
  "available_kib_spec m n \<longleftrightarrow>
     (case m (lit ''MemAvailable'') of
        Some v \<Rightarrow> n = unat v
      | None \<Rightarrow>
          \<exists>f b c r s. m (lit ''MemFree'') = Some f \<and> m (lit ''Buffers'') = Some b \<and>
            m (lit ''Cached'') = Some c \<and> m (lit ''SReclaimable'') = Some r \<and>
            m (lit ''Shmem'') = Some s \<and> unat f + unat b + unat c + unat r < 2 ^ 64 \<and>
            n = unat f + unat b + unat c + unat r - unat s)"

lemma fallback_available_eq:
  "fallback_available_kib m = Inr v \<longleftrightarrow>
     (\<exists>f b c r s x. m (lit ''MemFree'') = Some f \<and> m (lit ''Buffers'') = Some b \<and>
       m (lit ''Cached'') = Some c \<and> m (lit ''SReclaimable'') = Some r \<and>
       m (lit ''Shmem'') = Some s \<and> unat f + (unat b + (unat c + unat r)) = unat x \<and>
       v = saturating_sub x s)"
  by (simp add: fallback_available_kib_def result_iff mem_required_eq checked_kib_sum_eq)

lemma available_kib_spec_iff:
  "available_kib_spec m n \<longleftrightarrow>
     (\<exists>v. (case m (lit ''MemAvailable'') of Some v \<Rightarrow> Inr v | None \<Rightarrow> fallback_available_kib m) = Inr v
        \<and> n = unat v)"
proof (cases "m (lit ''MemAvailable'')")
  case None
  have ex: "(\<exists>x :: u64. k = unat x) \<longleftrightarrow> k < 2 ^ 64" for k :: nat
    by (metis u64_bound u64_of_nat)
  show ?thesis
  proof
    assume "available_kib_spec m n"
    then obtain f b c r s where get: "m (lit ''MemFree'') = Some f" "m (lit ''Buffers'') = Some b"
        "m (lit ''Cached'') = Some c" "m (lit ''SReclaimable'') = Some r"
        "m (lit ''Shmem'') = Some s"
      and lt: "unat f + unat b + unat c + unat r < 2 ^ 64"
      and n: "n = unat f + unat b + unat c + unat r - unat s"
      using None unfolding available_kib_spec_def by auto
    from lt ex obtain x :: u64 where x: "unat f + unat b + unat c + unat r = unat x" by blast
    have "fallback_available_kib m = Inr (saturating_sub x s)"
      using get x by (auto simp: fallback_available_eq add.assoc)
    with None n x show "\<exists>v. (case m (lit ''MemAvailable'') of Some v \<Rightarrow> Inr v
        | None \<Rightarrow> fallback_available_kib m) = Inr v \<and> n = unat v"
      by (simp add: unat_saturating_sub)
  next
    assume "\<exists>v. (case m (lit ''MemAvailable'') of Some v \<Rightarrow> Inr v
        | None \<Rightarrow> fallback_available_kib m) = Inr v \<and> n = unat v"
    with None obtain f b c r s x where get: "m (lit ''MemFree'') = Some f"
        "m (lit ''Buffers'') = Some b" "m (lit ''Cached'') = Some c"
        "m (lit ''SReclaimable'') = Some r" "m (lit ''Shmem'') = Some s"
      and x: "unat f + (unat b + (unat c + unat r)) = unat x" "n = unat (saturating_sub x s)"
      by (auto simp: fallback_available_eq)
    have "unat f + unat b + unat c + unat r < 2 ^ 64"
      using x(1) u64_bound [of x] by simp
    with None get x show "available_kib_spec m n"
      by (simp add: available_kib_spec_def unat_saturating_sub add.assoc)
  qed
qed (simp add: available_kib_spec_def)

text \<open>Functional behaviour of the computation on the values read.\<close>

lemma meminfo_metrics_ok:
  assumes "meminfo_metrics m = Inr r"
  obtains t a st sf where
    "m (lit ''MemTotal'') = Some t" "0 < unat t" "available_kib_spec m a"
    "m (lit ''SwapTotal'') = Some st" "m (lit ''SwapFree'') = Some sf"
    "unat (mi_total_bytes r) = 1024 * unat t"
    "unat (mi_available_bytes r) = 1024 * min a (unat t)"
    "unat (mi_used_bytes r) + unat (mi_available_bytes r) = unat (mi_total_bytes r)"
    "unat (mi_swap_total_bytes r) = 1024 * unat st"
    "unat (mi_swap_free_bytes r) = 1024 * min (unat sf) (unat st)"
    "unat (mi_swap_used_bytes r) + unat (mi_swap_free_bytes r) = unat (mi_swap_total_bytes r)"
    "mi_used_percent r = mem_percentage (mi_used_bytes r) (mi_total_bytes r)"
    "mi_swap_used_percent r = mem_percentage (mi_swap_used_bytes r) (mi_swap_total_bytes r)"
proof -
  from assms obtain t av st sf tb ab ub stb sfb sub where parts:
      "m (lit ''MemTotal'') = Some t" "t \<noteq> 0"
      "(case m (lit ''MemAvailable'') of Some v \<Rightarrow> Inr v | None \<Rightarrow> fallback_available_kib m) = Inr av"
      "m (lit ''SwapTotal'') = Some st" "m (lit ''SwapFree'') = Some sf"
      "unat tb = 1024 * unat t" "unat ab = 1024 * unat (min av t)"
      "checked_sub tb ab = Some ub" "unat stb = 1024 * unat st"
      "unat sfb = 1024 * unat (min sf st)" "checked_sub stb sfb = Some sub"
    and r: "r = \<lparr>mi_total_bytes = tb, mi_available_bytes = ab, mi_used_bytes = ub,
      mi_used_percent = mem_percentage ub tb, mi_swap_total_bytes = stb, mi_swap_free_bytes = sfb,
      mi_swap_used_bytes = sub, mi_swap_used_percent = mem_percentage sub stb\<rparr>"
    unfolding meminfo_metrics_def
    by (auto simp: result_iff mem_required_eq kib_to_bytes_eq Let_def split: if_splits)
  have av: "available_kib_spec m (unat av)" using parts(3) by (auto simp: available_kib_spec_iff)
  have "0 < unat t" using parts(2) by (simp add: word_neq_0_conv unat_gt_0)
  with parts r show thesis
    using that [of t "unat av" st sf] av by (simp add: checked_iff unat_min_word add.commute)
qed

text \<open>After the clamping only the two conversions to bytes can still fail.\<close>

lemma kib_to_bytes_ok: "1024 * unat v < 2 ^ 64 \<Longrightarrow> \<exists>b. kib_to_bytes v k = Inr b \<and> unat b = 1024 * unat v"
proof -
  assume lt: "1024 * unat v < 2 ^ 64"
  then have "unat (of_nat (1024 * unat v) :: u64) = 1024 * unat v"
    by (rule u64_of_nat)
  then show ?thesis by (metis kib_to_bytes_eq)
qed

lemma meminfo_metrics_succeeds:
  assumes "m (lit ''MemTotal'') = Some t" "0 < unat t" "available_kib_spec m a"
    "m (lit ''SwapTotal'') = Some st" "m (lit ''SwapFree'') = Some sf"
    "1024 * unat t < 2 ^ 64" "1024 * unat st < 2 ^ 64"
  shows "\<exists>r. meminfo_metrics m = Inr r"
proof -
  obtain av where av: "(case m (lit ''MemAvailable'') of Some v \<Rightarrow> Inr v
      | None \<Rightarrow> fallback_available_kib m) = Inr av"
    using assms(3) by (auto simp: available_kib_spec_iff)
  have b1: "1024 * unat (min av t) < 2 ^ 64" and b2: "1024 * unat (min sf st) < 2 ^ 64"
    using assms(6,7) by (simp_all add: unat_min_word)
  obtain tb ab stb sfb where
    bytes: "kib_to_bytes t (lit ''MemTotal'') = Inr tb"
      "kib_to_bytes (min av t) (lit ''MemAvailable'') = Inr ab"
      "kib_to_bytes st (lit ''SwapTotal'') = Inr stb"
      "kib_to_bytes (min sf st) (lit ''SwapFree'') = Inr sfb"
    and nums: "unat tb = 1024 * unat t" "unat ab = 1024 * unat (min av t)"
      "unat stb = 1024 * unat st" "unat sfb = 1024 * unat (min sf st)"
    using kib_to_bytes_ok [OF assms(6)] kib_to_bytes_ok [OF b1] kib_to_bytes_ok [OF assms(7)]
      kib_to_bytes_ok [OF b2] by metis
  obtain ub sub where subs: "checked_sub tb ab = Some ub" "checked_sub stb sfb = Some sub"
    using nums by (simp add: checked_sub_def unat_min_word)
  have "t \<noteq> 0" using assms(2) by auto
  then show ?thesis
    by (simp add: meminfo_metrics_def mem_required_def assms(1,4,5) av bytes subs Let_def)
qed

lemma mem_percentage_published:
  assumes "unat u \<le> unat t"
  shows "\<exists>r. serialize_optional_one_decimal (Some (mem_percentage u t)) = Inr (JF64 (F64_Fin False r)) \<and>
    0 \<le> r \<and> r \<le> 100 \<and> \<bar>r * of_nat (unat t) - 100 * of_nat (unat u)\<bar> \<le> of_nat (unat t) * (51 / 1000)"
proof (cases "t = 0")
  case True
  have "serialize_optional_one_decimal (Some (f64_lit 0)) = Inr (JF64 (F64_Fin False 0))"
    using rounded_metric_fin [of 0 1 False] pow2_pos [of 1000]
    by (simp add: serialize_optional_one_decimal_def serialize_optional_f64_def f64_lit_def
        f64_of_rat_def rounded_magnitude_def)
  with True assms show ?thesis by (auto simp: mem_percentage_def)
next
  case False
  then have t: "0 < unat t" by (simp add: unat_gt_0)
  obtain r where r: "serialize_optional_one_decimal (Some (f64_percent (unat u) (unat t))) =
      Inr (JF64 (F64_Fin False r))" "0 \<le> r" "r \<le> 100"
    "\<bar>r - 100 * of_nat (unat u) / of_nat (unat t)\<bar> \<le> 1 / 20 + 1 / 10 ^ 11"
    using serialize_percentage [OF assms t u64_bound] by blast
  define T :: rat where "T = of_nat (unat t)"
  have T: "0 < T" using t by (simp add: T_def del: of_nat_unat)
  have "r * T - 100 * of_nat (unat u) = (r - 100 * of_nat (unat u) / T) * T"
    using T by (simp add: field_simps)
  then have "\<bar>r * T - 100 * of_nat (unat u)\<bar> = \<bar>r - 100 * of_nat (unat u) / T\<bar> * T"
    using T by (simp add: abs_mult)
  also have "\<dots> \<le> 51 / 1000 * T"
    using r(4) T unfolding T_def [symmetric] by (intro mult_right_mono) simp_all
  finally show ?thesis using r False by (auto simp: mem_percentage_def T_def mult.commute)
qed


text \<open>Every error names \<open>/proc/meminfo\<close>.\<close>

lemma mem_required_source [simp]: "errors_from MEM_PROC_MEMINFO (mem_required m k)"
  by (simp add: mem_required_def)

lemma kib_to_bytes_source [simp]: "errors_from MEM_PROC_MEMINFO (kib_to_bytes v k)"
  by (simp add: kib_to_bytes_def)

lemma meminfo_line_source: "errors_from MEM_PROC_MEMINFO (meminfo_line m l)"
  unfolding meminfo_line_def parse_kib_value_def Let_def
  by (auto intro!: errors_from_and_then split: option.split)

lemma fallback_source: "errors_from MEM_PROC_MEMINFO (fallback_available_kib m)"
  unfolding fallback_available_kib_def checked_kib_sum_def
  by (intro errors_from_and_then) (simp_all add: errors_from_try_fold del: try_fold.simps)

lemma meminfo_metrics_source: "errors_from MEM_PROC_MEMINFO (meminfo_metrics m)"
  unfolding meminfo_metrics_def Let_def
  by (auto intro!: errors_from_and_then fallback_source split: option.split)

lemma parse_meminfo_source: "errors_from MEM_PROC_MEMINFO (parse_meminfo input)"
  unfolding parse_meminfo_def parse_relevant_values_def
  by (intro errors_from_and_then errors_from_try_fold meminfo_line_source meminfo_metrics_source)


section \<open>Properties\<close>

text \<open>
  C24. Whatever \<open>/proc/meminfo\<close> contains, an accepted file gives consistent figures: total memory is
  positive, used plus available is the total, used plus free swap is the swap total, and the two
  published percentages lie between 0 and 100, within 0.051 of the exact quotient (an absent swap
  counts as zero percent).\<close>

theorem parse_meminfo_consistent:
  "case parse_meminfo input of
     Inl e \<Rightarrow> pe_source_name e = MEM_PROC_MEMINFO
   | Inr r \<Rightarrow>
       0 < unat (mi_total_bytes r) \<and>
       unat (mi_used_bytes r) + unat (mi_available_bytes r) = unat (mi_total_bytes r) \<and>
       unat (mi_swap_used_bytes r) + unat (mi_swap_free_bytes r) = unat (mi_swap_total_bytes r) \<and>
       (\<exists>p. serialize_optional_one_decimal (Some (mi_used_percent r)) = Inr (JF64 (F64_Fin False p)) \<and>
          0 \<le> p \<and> p \<le> 100 \<and>
          \<bar>p * of_nat (unat (mi_total_bytes r)) - 100 * of_nat (unat (mi_used_bytes r))\<bar>
            \<le> of_nat (unat (mi_total_bytes r)) * (51 / 1000)) \<and>
       (\<exists>p. serialize_optional_one_decimal (Some (mi_swap_used_percent r)) =
            Inr (JF64 (F64_Fin False p)) \<and>
          0 \<le> p \<and> p \<le> 100 \<and>
          \<bar>p * of_nat (unat (mi_swap_total_bytes r)) - 100 * of_nat (unat (mi_swap_used_bytes r))\<bar>
            \<le> of_nat (unat (mi_swap_total_bytes r)) * (51 / 1000))"
proof (cases "parse_meminfo input")
  case (Inl e)
  then show ?thesis using parse_meminfo_source [of input] by simp
next
  case (Inr r)
  then obtain m where "meminfo_metrics m = Inr r" by (auto simp: parse_meminfo_def result_iff)
  then show ?thesis
  proof (rule meminfo_metrics_ok)
    fix t a st sf
    assume facts: "0 < unat t" "unat (mi_total_bytes r) = 1024 * unat t"
      "unat (mi_used_bytes r) + unat (mi_available_bytes r) = unat (mi_total_bytes r)"
      "unat (mi_swap_used_bytes r) + unat (mi_swap_free_bytes r) = unat (mi_swap_total_bytes r)"
      "mi_used_percent r = mem_percentage (mi_used_bytes r) (mi_total_bytes r)"
      "mi_swap_used_percent r = mem_percentage (mi_swap_used_bytes r) (mi_swap_total_bytes r)"
    have le: "unat (mi_used_bytes r) \<le> unat (mi_total_bytes r)"
      "unat (mi_swap_used_bytes r) \<le> unat (mi_swap_total_bytes r)"
      using facts(3,4) by linarith+
    show ?thesis
      using mem_percentage_published [OF le(1)] mem_percentage_published [OF le(2)] facts Inr by simp
  qed
qed


text \<open>A file in the kernel's format: for each entry the key, a colon, padding, the value, the unit.\<close>

definition meminfo_entry :: "rstr \<times> nat \<times> u64 \<Rightarrow> rstr" where
  "meminfo_entry = (\<lambda>(k, pad, v). k @ 58 # replicate pad 32 @ 32 # show_nat (unat v) @ 32 # lit ''kB'')"

definition render_meminfo :: "(rstr \<times> nat \<times> u64) list \<Rightarrow> rstr" where
  "render_meminfo kvs = concat (map (\<lambda>e. meminfo_entry e @ [10]) kvs)"

definition meminfo_map :: "(rstr \<times> nat \<times> u64) list \<Rightarrow> rstr \<rightharpoonup> u64" where
  "meminfo_map kvs = map_of (map (\<lambda>(k, pad, v). (k, v)) kvs)"

lemma meminfo_key_facts:
  assumes "k \<in> set meminfo_keys"
  shows "is_word k" and "58 \<notin> set k"
  using assms unfolding meminfo_keys_def is_word_def by (auto simp: str_eval)

lemma word_no_break: "is_word w \<Longrightarrow> 10 \<notin> set w \<and> 13 \<notin> set w \<and> 32 \<notin> set w"
  by (auto simp: is_word_def list_all_iff)

lemma is_word_kB: "is_word (lit ''kB'')"
  by (simp add: is_word_def str_eval)

lemma meminfo_entry_no_break:
  assumes "k \<in> set meminfo_keys"
  shows "10 \<notin> set (meminfo_entry (k, pad, v))" and "13 \<notin> set (meminfo_entry (k, pad, v))"
  using word_no_break [OF meminfo_key_facts(1) [OF assms]] word_no_break [OF is_word_kB]
    word_no_break [OF is_word_to_radix [of 10 "unat v"]]
  by (auto simp: meminfo_entry_def)

lemma split_padding: "split_whitespace (replicate n 32 @ s) = split_whitespace s"
  by (induction n) (simp_all add: split_whitespace_skip)

lemma parse_kib_value_entry:
  "parse_kib_value (replicate pad 32 @ 32 # show_nat (unat v) @ 32 # lit ''kB'') k = Inr v"
proof -
  have "split_whitespace (replicate pad 32 @ 32 # show_nat (unat v) @ 32 # lit ''kB'') =
      [show_nat (unat v), lit ''kB'']"
    by (simp add: split_padding split_whitespace_skip split_whitespace_append
        split_whitespace_single is_word_to_radix is_word_kB)
  then show ?thesis
    by (simp add: parse_kib_value_def nth_opt_def from_str_radix_to_radix)
qed

lemma meminfo_line_entry:
  assumes "k \<in> set meminfo_keys" "m k = None"
  shows "meminfo_line m (meminfo_entry (k, pad, v)) = Inr (m(k \<mapsto> v))"
proof -
  have "split_once 58 (meminfo_entry (k, pad, v)) =
      Some (k, replicate pad 32 @ 32 # show_nat (unat v) @ 32 # lit ''kB'')"
    using meminfo_key_facts(2) [OF assms(1)] by (simp add: meminfo_entry_def split_once_append)
  then show ?thesis
    using assms meminfo_key_facts(1) [OF assms(1)]
    by (simp add: meminfo_line_def canonical_key_def trim_word parse_kib_value_entry)
qed

lemma lines_render_meminfo:
  "fst ` set kvs \<subseteq> set meminfo_keys \<Longrightarrow> lines (render_meminfo kvs) = map meminfo_entry kvs"
proof (induction kvs)
  case (Cons e kvs)
  obtain k pad v where e: "e = (k, pad, v)" by (cases e)
  with Cons show ?case
    using meminfo_entry_no_break [of k pad v]
    by (simp add: render_meminfo_def lines_Cons_LF strip_cr_id)
qed (simp add: render_meminfo_def)

lemma meminfo_fold:
  assumes "fst ` set kvs \<subseteq> set meminfo_keys" "distinct (map fst kvs)" "fst ` set kvs \<inter> dom m = {}"
  shows "try_fold meminfo_line m (map meminfo_entry kvs) = Inr (m ++ meminfo_map kvs)"
  using assms
proof (induction kvs arbitrary: m)
  case (Cons e kvs)
  obtain k pad v where e: "e = (k, pad, v)" by (cases e)
  have "m k = None" using Cons.prems e by auto
  moreover have "try_fold meminfo_line (m(k \<mapsto> v)) (map meminfo_entry kvs) =
      Inr (m(k \<mapsto> v) ++ meminfo_map kvs)"
  proof (rule Cons.IH)
    have "k \<notin> fst ` set kvs" using Cons.prems(2) e by auto
    with Cons.prems(3) e show "fst ` set kvs \<inter> dom (m(k \<mapsto> v)) = {}" by auto
  qed (use Cons.prems e in auto)
  moreover have "m(k \<mapsto> v) ++ meminfo_map kvs = m ++ meminfo_map (e # kvs)"
  proof -
    have "dom (meminfo_map kvs) = fst ` set kvs"
      unfolding meminfo_map_def dom_map_of_conv_image_fst by (force simp: image_image)
    then have new: "meminfo_map kvs k = None" using Cons.prems(2) e by auto
    have "meminfo_map (e # kvs) = (meminfo_map kvs)(k \<mapsto> v)" by (simp add: e meminfo_map_def)
    with new show ?thesis by (auto simp: fun_eq_iff map_add_def split: option.split)
  qed
  ultimately show ?case
    using Cons.prems e by (simp add: meminfo_line_entry)
qed (simp add: meminfo_map_def)

text \<open>
  C38. A well-formed \<open>/proc/meminfo\<close> with any subset of the recognised keys, in any order, is
  accepted when the required entries are present and fit in 64 bits as bytes, and the reported
  figures are the kernel's: the total, the available memory (\<open>MemAvailable\<close>, or on older kernels
  free + buffers + cached + reclaimable - shared, never more than the total), the used memory and
  the swap figures.\<close>

theorem parse_meminfo_reports:
  assumes "fst ` set kvs \<subseteq> set meminfo_keys" "distinct (map fst kvs)"
    and m: "m = meminfo_map kvs"
    and req: "m (lit ''MemTotal'') = Some t" "0 < unat t" "available_kib_spec m a"
      "m (lit ''SwapTotal'') = Some st" "m (lit ''SwapFree'') = Some sf"
      "1024 * unat t < 2 ^ 64" "1024 * unat st < 2 ^ 64"
  shows "\<exists>r. parse_meminfo (render_meminfo kvs) = Inr r \<and>
    unat (mi_total_bytes r) = 1024 * unat t \<and>
    unat (mi_available_bytes r) = 1024 * min a (unat t) \<and>
    unat (mi_used_bytes r) = 1024 * (unat t - min a (unat t)) \<and>
    unat (mi_swap_total_bytes r) = 1024 * unat st \<and>
    unat (mi_swap_used_bytes r) = 1024 * (unat st - min (unat sf) (unat st))"
proof -
  have "parse_relevant_values (render_meminfo kvs) = Inr m"
    using meminfo_fold [OF assms(1,2), of Map.empty]
    by (simp add: parse_relevant_values_def lines_render_meminfo [OF assms(1)] m)
  moreover obtain r where r: "meminfo_metrics m = Inr r"
    using meminfo_metrics_succeeds [OF req] by blast
  ultimately have parse: "parse_meminfo (render_meminfo kvs) = Inr r"
    by (simp add: parse_meminfo_def)
  have det: "available_kib_spec m x \<Longrightarrow> available_kib_spec m y \<Longrightarrow> x = y" for x y
    by (auto simp: available_kib_spec_iff)
  show ?thesis
  proof (rule meminfo_metrics_ok [OF r])
    fix t' a' st' sf'
    assume "m (lit ''MemTotal'') = Some t'" "available_kib_spec m a'"
      "m (lit ''SwapTotal'') = Some st'" "m (lit ''SwapFree'') = Some sf'"
    then have eqs: "t' = t" "a' = a" "st' = st" "sf' = sf" using req det by auto
    assume "unat (mi_total_bytes r) = 1024 * unat t'"
      "unat (mi_available_bytes r) = 1024 * min a' (unat t')"
      "unat (mi_used_bytes r) + unat (mi_available_bytes r) = unat (mi_total_bytes r)"
      "unat (mi_swap_total_bytes r) = 1024 * unat st'"
      "unat (mi_swap_free_bytes r) = 1024 * min (unat sf') (unat st')"
      "unat (mi_swap_used_bytes r) + unat (mi_swap_free_bytes r) = unat (mi_swap_total_bytes r)"
    with parse eqs show ?thesis by (intro exI [of _ r]) auto
  qed
qed

theorem parse_meminfo_reports_witness:
  "\<exists>r. parse_meminfo (render_meminfo
      [(lit ''MemTotal'', 3, 1000), (lit ''MemAvailable'', 0, 250), (lit ''SwapTotal'', 1, 8),
       (lit ''SwapFree'', 2, 9)]) = Inr r \<and>
    unat (mi_total_bytes r) = 1024 * unat (1000 :: u64) \<and>
    unat (mi_available_bytes r) = 1024 * min 250 (unat (1000 :: u64)) \<and>
    unat (mi_used_bytes r) = 1024 * (unat (1000 :: u64) - min 250 (unat (1000 :: u64))) \<and>
    unat (mi_swap_total_bytes r) = 1024 * unat (8 :: u64) \<and>
    unat (mi_swap_used_bytes r) = 1024 * (unat (8 :: u64) - min (unat (9 :: u64)) (unat (8 :: u64)))"
  by (rule parse_meminfo_reports [OF _ _ refl])
    (simp_all add: meminfo_keys_def meminfo_map_def available_kib_spec_def)

end
