(* ===== verification/Metrics_Disk.thy ===== *)
theory Metrics_Disk
  imports Metrics_Memory
begin

text \<open>
  \<open>src/metrics/disk.rs\<close>: filesystem utilisation from the \<open>statvfs\<close> block counters, all arithmetic
  checked on 64-bit words.
\<close>

definition STATVFS :: rstr where "STATVFS = lit ''statvfs''"

record StatvfsValues =
  vfs_fragment_size :: u64
  vfs_blocks :: u64
  vfs_blocks_free :: u64
  vfs_blocks_available :: u64

definition disk_bytes :: "u64 \<Rightarrow> u64 \<Rightarrow> rstr \<Rightarrow> ParseError + u64" where
  "disk_bytes blocks fragment_size name =
     ok_or (checked_mul blocks fragment_size)
       (ParseError_new STATVFS (name @ lit '' overflows bytes as u64''))"

definition calculate_disk_metrics :: "rstr \<Rightarrow> StatvfsValues \<Rightarrow> ParseError + DiskMetrics" where
  "calculate_disk_metrics mount values =
     and_then (disk_bytes (vfs_blocks values) (vfs_fragment_size values) (lit ''total size''))
       (\<lambda>total_bytes.
     and_then (disk_bytes (vfs_blocks_free values) (vfs_fragment_size values) (lit ''free space''))
       (\<lambda>free_bytes.
     and_then (disk_bytes (vfs_blocks_available values) (vfs_fragment_size values)
                 (lit ''available space''))
       (\<lambda>available_bytes.
     and_then (ok_or (checked_sub total_bytes free_bytes)
                 (ParseError_new STATVFS (lit ''free space is greater than the filesystem size'')))
       (\<lambda>used_bytes.
     and_then (ok_or (checked_add used_bytes available_bytes)
                 (ParseError_new STATVFS (lit ''used plus available space overflows u64'')))
       (\<lambda>denominator.
     let used_percent =
       (if denominator = 0 then f64_lit 0
        else f64_percent (unat used_bytes) (unat denominator)) in
     Inr \<lparr>disk_mount = mount, disk_total_bytes = Some total_bytes,
          disk_available_bytes = Some available_bytes, disk_used_bytes = Some used_bytes,
          disk_used_percent = Some used_percent\<rparr>)))))"


section \<open>Facts\<close>

lemma disk_bytes_eq: "disk_bytes b f n = Inr w \<longleftrightarrow> unat b * unat f = unat w"
  by (simp add: disk_bytes_def result_iff checked_iff)

lemma calculate_disk_metrics_source: "errors_from STATVFS (calculate_disk_metrics mount v)"
  unfolding calculate_disk_metrics_def disk_bytes_def Let_def
  by (intro errors_from_and_then) simp_all

text \<open>The block arithmetic fits in 64 bits.\<close>

definition statvfs_fits :: "StatvfsValues \<Rightarrow> bool" where
  "statvfs_fits v \<longleftrightarrow>
     (let f = unat (vfs_fragment_size v); total = unat (vfs_blocks v) * f;
          free = unat (vfs_blocks_free v) * f; available = unat (vfs_blocks_available v) * f
      in total < 2 ^ 64 \<and> free \<le> total \<and> total - free + available < 2 ^ 64)"

lemma u64_ex: "k < 2 ^ 64 \<Longrightarrow> \<exists>w :: u64. unat w = k"
  using u64_of_nat by blast

lemma calculate_disk_metrics_ok:
  "calculate_disk_metrics mount v = Inr d \<longleftrightarrow>
     (\<exists>tb (fb :: u64) ab ub den.
        unat (vfs_blocks v) * unat (vfs_fragment_size v) = unat tb \<and>
        unat (vfs_blocks_free v) * unat (vfs_fragment_size v) = unat fb \<and>
        unat (vfs_blocks_available v) * unat (vfs_fragment_size v) = unat ab \<and>
        unat tb = unat fb + unat ub \<and> unat ub + unat ab = unat den \<and>
        \<lparr>disk_mount = mount, disk_total_bytes = Some tb, disk_available_bytes = Some ab,
         disk_used_bytes = Some ub, disk_used_percent = Some (mem_percentage ub den)\<rparr> = d)"
  unfolding calculate_disk_metrics_def Let_def mem_percentage_def [symmetric]
  by (simp add: result_iff disk_bytes_eq checked_iff)

lemma calculate_disk_metrics_succeeds:
  "(\<exists>d. calculate_disk_metrics mount v = Inr d) \<longleftrightarrow> statvfs_fits v"
proof
  assume "\<exists>d. calculate_disk_metrics mount v = Inr d"
  then obtain tb fb ab ub den :: u64 where
    "unat (vfs_blocks v) * unat (vfs_fragment_size v) = unat tb"
    "unat (vfs_blocks_free v) * unat (vfs_fragment_size v) = unat fb"
    "unat (vfs_blocks_available v) * unat (vfs_fragment_size v) = unat ab"
    "unat tb = unat fb + unat ub" "unat ub + unat ab = unat den"
    unfolding calculate_disk_metrics_ok by blast
  with u64_bound [of tb] u64_bound [of den] show "statvfs_fits v"
    unfolding statvfs_fits_def Let_def by simp
next
  define T F A where "T = unat (vfs_blocks v) * unat (vfs_fragment_size v)"
    and "F = unat (vfs_blocks_free v) * unat (vfs_fragment_size v)"
    and "A = unat (vfs_blocks_available v) * unat (vfs_fragment_size v)"
  assume "statvfs_fits v"
  then have a: "T < 2 ^ 64" "F \<le> T" "T - F + A < 2 ^ 64"
    unfolding statvfs_fits_def Let_def T_def F_def A_def by blast+
  have b: "F < 2 ^ 64" "A < 2 ^ 64" "T - F < 2 ^ 64" using a by linarith+
  obtain tb fb ab ub den :: u64 where
    w: "unat tb = T" "unat fb = F" "unat ab = A" "unat ub = T - F" "unat den = T - F + A"
    using u64_ex [OF a(1)] u64_ex [OF b(1)] u64_ex [OF b(2)] u64_ex [OF b(3)] u64_ex [OF a(3)]
    by blast
  from w a(2) have "T = unat tb" "F = unat fb" "A = unat ab" "unat tb = unat fb + unat ub"
    "unat ub + unat ab = unat den" by simp_all
  then show "\<exists>d. calculate_disk_metrics mount v = Inr d"
    unfolding calculate_disk_metrics_ok T_def F_def A_def by blast
qed


section \<open>Properties\<close>

text \<open>
  \<open>calculate_disk_metrics\<close> fails exactly when a byte count does not fit in 64 bits or the
  filesystem reports more free than total space; otherwise total, available and used bytes are the
  exact products and difference, and the published percentage lies between 0 and 100 and within
  0.051 of used / (used + available).\<close>

theorem disk_metrics_correct:
  "case calculate_disk_metrics mount v of
     Inl e \<Rightarrow> \<not> statvfs_fits v \<and> pe_source_name e = STATVFS
   | Inr d \<Rightarrow>
       statvfs_fits v \<and> disk_mount d = mount \<and>
       (\<exists>tb ab ub p pub.
          disk_total_bytes d = Some tb \<and> disk_available_bytes d = Some ab \<and>
          disk_used_bytes d = Some ub \<and> disk_used_percent d = Some p \<and>
          unat tb = unat (vfs_blocks v) * unat (vfs_fragment_size v) \<and>
          unat ab = unat (vfs_blocks_available v) * unat (vfs_fragment_size v) \<and>
          unat ub = unat tb - unat (vfs_blocks_free v) * unat (vfs_fragment_size v) \<and>
          serialize_optional_one_decimal (Some p) = Inr (JF64 (F64_Fin False pub)) \<and>
          0 \<le> pub \<and> pub \<le> 100 \<and>
          \<bar>pub * of_nat (unat ub + unat ab) - 100 * of_nat (unat ub)\<bar>
            \<le> of_nat (unat ub + unat ab) * (51 / 1000))"
proof (cases "calculate_disk_metrics mount v")
  case (Inl e)
  then show ?thesis
    using calculate_disk_metrics_succeeds [of mount v] calculate_disk_metrics_source [of mount v]
    by simp
next
  case (Inr d)
  then obtain tb fb ab ub den :: u64 where parts:
    "unat (vfs_blocks v) * unat (vfs_fragment_size v) = unat tb"
    "unat (vfs_blocks_free v) * unat (vfs_fragment_size v) = unat fb"
    "unat (vfs_blocks_available v) * unat (vfs_fragment_size v) = unat ab"
    "unat tb = unat fb + unat ub" "unat ub + unat ab = unat den"
    and d: "\<lparr>disk_mount = mount, disk_total_bytes = Some tb, disk_available_bytes = Some ab,
             disk_used_bytes = Some ub, disk_used_percent = Some (mem_percentage ub den)\<rparr> = d"
    unfolding calculate_disk_metrics_ok by blast
  have le: "unat ub \<le> unat den" using parts(5) by simp
  obtain pub where pub: "serialize_optional_one_decimal (Some (mem_percentage ub den)) =
      Inr (JF64 (F64_Fin False pub))" "0 \<le> pub" "pub \<le> 100"
    "\<bar>pub * of_nat (unat den) - 100 * of_nat (unat ub)\<bar> \<le> of_nat (unat den) * (51 / 1000)"
    using mem_percentage_published [OF le] by blast
  have ub: "unat ub = unat tb - unat fb" using parts(4) by simp
  have fits: "statvfs_fits v" using Inr calculate_disk_metrics_succeeds by blast
  show ?thesis
    unfolding Inr sum.case d [symmetric] DiskMetrics.select_convs
    apply (rule conjI [OF fits], rule conjI [OF refl])
    apply (rule exI [of _ tb], rule exI [of _ ab], rule exI [of _ ub],
        rule exI [of _ "mem_percentage ub den"], rule exI [of _ pub])
    apply (intro conjI refl)
          apply (rule parts(1) [symmetric], rule parts(3) [symmetric])
        apply (simp only: parts(2) ub)
       apply (rule pub(1), rule pub(2), rule pub(3))
    apply (simp only: parts(5) pub(4))
    done
qed

end
