(* ===== verification/Metrics_Metadata.thy ===== *)
theory Metrics_Metadata
  imports Metrics_Error
begin

text \<open>
  \<open>src/metrics/metadata.rs\<close>: \<open>/proc/cpuinfo\<close>, \<open>os-release\<close>, the device-tree model and the
  host name.
\<close>

definition OS_RELEASE :: rstr where "OS_RELEASE = lit ''/etc/os-release''"

record CpuInfoMetadata =
  cm_revision :: "rstr option"
  cm_serial :: "rstr option"

record OsRelease =
  or_pretty_name :: "rstr option"
  or_name :: "rstr option"
  or_version :: "rstr option"
  or_version_id :: "rstr option"
  or_id :: "rstr option"

definition OsRelease_default :: OsRelease where
  "OsRelease_default =
     \<lparr>or_pretty_name = None, or_name = None, or_version = None, or_version_id = None, or_id = None\<rparr>"

text \<open>One iteration of the loop over the lines of \<open>/proc/cpuinfo\<close>.\<close>

definition cpuinfo_line :: "CpuInfoMetadata \<Rightarrow> rstr \<Rightarrow> CpuInfoMetadata" where
  "cpuinfo_line metadata line =
     (case split_once 58 line of
        None \<Rightarrow> metadata
      | Some (raw_key, raw_value) \<Rightarrow>
          (let value = trim raw_value; key = trim raw_key in
           if value = [] then metadata
           else if key = lit ''Revision'' \<and> cm_revision metadata = None
             then metadata\<lparr>cm_revision := Some value\<rparr>
           else if key = lit ''Serial'' \<and> cm_serial metadata = None
             then metadata\<lparr>cm_serial := Some value\<rparr>
           else metadata))"

definition parse_cpuinfo :: "rstr \<Rightarrow> CpuInfoMetadata" where
  "parse_cpuinfo input = foldl cpuinfo_line \<lparr>cm_revision = None, cm_serial = None\<rparr> (lines input)"

definition non_empty :: "rstr \<Rightarrow> rstr option" where
  "non_empty value = (if value \<noteq> [] then Some value else None)"

definition valid_key :: "rstr \<Rightarrow> bool" where
  "valid_key key \<longleftrightarrow>
     key \<noteq> [] \<and>
     list_all (\<lambda>byte. is_ascii_uppercase byte \<or> is_ascii_digit byte \<or> byte = 95) (str_bytes key)"

definition line_error :: "nat \<Rightarrow> char list \<Rightarrow> ParseError" where
  "line_error line_number detail =
     ParseError_new OS_RELEASE (lit ''line '' @ show_nat line_number @ lit detail)"

text \<open>The loop over the characters; the accumulator is \<open>output\<close>.\<close>

fun unescape_loop :: "nat \<Rightarrow> rstr \<Rightarrow> rstr \<Rightarrow> ParseError + rstr" where
  "unescape_loop n output [] = Inr output"
| "unescape_loop n output (c # cs) =
     (if c = 92 then
        (case cs of
           [] \<Rightarrow> Inl (line_error n '' ends with an incomplete escape'')
         | escaped # rest \<Rightarrow> unescape_loop n (output @ [escaped]) rest)
      else unescape_loop n (output @ [c]) cs)"

definition unescape :: "rstr \<Rightarrow> nat \<Rightarrow> ParseError + rstr" where
  "unescape input line_number = unescape_loop line_number [] input"

definition parse_assignment_value :: "rstr \<Rightarrow> nat \<Rightarrow> ParseError + rstr" where
  "parse_assignment_value raw line_number =
     (let raw = trim raw in
      if raw = [] then Inr []
      else
        let first = hd (str_bytes raw) in
        if first = 39 \<or> first = 34 then
          (if str_len raw < 2 \<or> last (str_bytes raw) \<noteq> first
           then Inl (line_error line_number '' has an unterminated quoted value'')
           else
             let inner = butlast (tl raw) in
             if first = 39 then Inr inner else unescape inner line_number)
        else unescape raw line_number)"

definition os_release_store :: "OsRelease \<Rightarrow> rstr \<Rightarrow> rstr \<Rightarrow> OsRelease" where
  "os_release_store release key value =
     (if key = lit ''PRETTY_NAME'' then release\<lparr>or_pretty_name := Some value\<rparr>
      else if key = lit ''NAME'' then release\<lparr>or_name := Some value\<rparr>
      else if key = lit ''VERSION'' then release\<lparr>or_version := Some value\<rparr>
      else if key = lit ''VERSION_ID'' then release\<lparr>or_version_id := Some value\<rparr>
      else if key = lit ''ID'' then release\<lparr>or_id := Some value\<rparr>
      else release)"

text \<open>One iteration of the loop over the numbered lines.\<close>

definition os_release_line :: "OsRelease \<Rightarrow> nat \<times> rstr \<Rightarrow> ParseError + OsRelease" where
  "os_release_line release = (\<lambda>(line_index, line).
     let line = trim line in
     if line = [] \<or> starts_with line (lit ''#'') then Inr release
     else
       and_then (ok_or (split_once 61 line)
                   (line_error (line_index + 1) '' is not an assignment''))
         (\<lambda>(key, raw_value).
           if \<not> valid_key key then Inl (line_error (line_index + 1) '' has an invalid key'')
           else
             and_then (parse_assignment_value raw_value (line_index + 1))
               (\<lambda>value. Inr (os_release_store release key value))))"

definition parse_os_release :: "rstr \<Rightarrow> ParseError + OsRelease" where
  "parse_os_release input =
     try_fold os_release_line OsRelease_default (enumerate 0 (lines input))"

definition parse_device_tree_model :: "nat list \<Rightarrow> rstr option" where
  "parse_device_tree_model input =
     (case from_utf8 input of
        None \<Rightarrow> None
      | Some text \<Rightarrow> non_empty (trim_matches (\<lambda>c. c \<in> {0, 32, 9, 13, 10}) text))"

definition parse_hostname :: "rstr \<Rightarrow> rstr option" where
  "parse_hostname input = find_map (\<lambda>line. non_empty (trim line)) (lines input)"


section \<open>Facts\<close>

text \<open>The first non-empty value of a key, as the documentation words it.\<close>

definition cpuinfo_field :: "rstr \<Rightarrow> rstr \<Rightarrow> rstr option" where
  "cpuinfo_field key line =
     (case split_once 58 line of
        None \<Rightarrow> None
      | Some (raw_key, raw_value) \<Rightarrow>
          if trim raw_key = key then non_empty (trim raw_value) else None)"

lemma cpuinfo_line_fields:
  "cm_revision (cpuinfo_line m l) = or_else (cm_revision m) (cpuinfo_field (lit ''Revision'') l)"
  "cm_serial (cpuinfo_line m l) = or_else (cm_serial m) (cpuinfo_field (lit ''Serial'') l)"
  by (auto simp: cpuinfo_line_def cpuinfo_field_def non_empty_def or_else_def Let_def
      split: option.splits)

lemma cpuinfo_fold_fields:
  "cm_revision (foldl cpuinfo_line m ls) =
     or_else (cm_revision m) (find_map (cpuinfo_field (lit ''Revision'')) ls)"
  "cm_serial (foldl cpuinfo_line m ls) =
     or_else (cm_serial m) (find_map (cpuinfo_field (lit ''Serial'')) ls)"
  by (induction ls arbitrary: m)
    (auto simp: cpuinfo_line_fields or_else_def split: option.splits)

text \<open>Every error of \<open>parse_os_release\<close> names the file.\<close>

lemma unescape_source: "errors_from OS_RELEASE (unescape_loop n out s)"
  by (induction n out s rule: unescape_loop.induct) (auto simp: line_error_def split: list.split)

lemma os_release_source: "errors_from OS_RELEASE (parse_os_release input)"
  unfolding parse_os_release_def os_release_line_def parse_assignment_value_def unescape_def
    Let_def line_error_def
  by (intro errors_from_try_fold)
    (auto intro!: errors_from_and_then unescape_source split: prod.split)

text \<open>The writing side: a double-quoted assignment with quotes and backslashes escaped.\<close>

definition escape_value :: "rstr \<Rightarrow> rstr" where
  "escape_value s = concat (map (\<lambda>c. if c = 34 \<or> c = 92 then [92, c] else [c]) s)"

definition os_release_assignment :: "rstr \<times> rstr \<Rightarrow> rstr" where
  "os_release_assignment = (\<lambda>(key, value). key @ 61 # 34 # escape_value value @ [34])"

definition render_os_release :: "(rstr \<times> rstr) list \<Rightarrow> rstr" where
  "render_os_release kvs = concat (map (\<lambda>e. os_release_assignment e @ [10]) kvs)"

lemma escape_value_simps [simp]:
  "escape_value [] = []"
  "escape_value (c # s) = (if c = 34 \<or> c = 92 then [92, c] else [c]) @ escape_value s"
  by (simp_all add: escape_value_def)

lemma unescape_escape: "unescape_loop n out (escape_value s) = Inr (out @ s)"
  by (induction s arbitrary: out) auto

lemma set_escape_value: "set (escape_value s) \<subseteq> insert 92 (set s)"
  by (induction s) auto

lemma valid_key_chars:
  assumes "valid_key k" "c \<in> set k"
  shows "48 \<le> c \<and> c \<le> 95 \<and> c \<noteq> 61 \<and> \<not> is_whitespace c"
proof -
  have all: "list_all (\<lambda>b. is_ascii_uppercase b \<or> is_ascii_digit b \<or> b = 95) (utf8_encode_char c)"
    using assms by (auto simp: valid_key_def str_bytes_def list_all_iff)
  have "c < 128"
  proof (rule ccontr)
    assume "\<not> c < 128"
    then have "192 \<le> hd (utf8_encode_char c)" "utf8_encode_char c \<noteq> []"
      by (simp_all add: utf8_encode_char_def)
    moreover from this(2) have "hd (utf8_encode_char c) \<in> set (utf8_encode_char c)" by simp
    then have "hd (utf8_encode_char c) \<le> 95"
      using all by (auto simp: list_all_iff is_ascii_uppercase_def is_ascii_digit_def)
    ultimately show False by linarith
  qed
  with all have "is_ascii_uppercase c \<or> is_ascii_digit c \<or> c = 95"
    by (simp add: utf8_encode_char_def)
  then show ?thesis
    by (auto simp: is_ascii_uppercase_def is_ascii_digit_def is_whitespace_def)
qed

lemma parse_assignment_value_quoted:
  "parse_assignment_value (34 # escape_value v @ [34]) n = Inr v"
proof -
  have "trim (34 # escape_value v @ [34]) = 34 # escape_value v @ [34]"
    by (rule trim_id) simp
  then show ?thesis
    by (simp add: parse_assignment_value_def Let_def utf8_encode_char_def str_len_def
        unescape_def unescape_escape)
qed

lemma os_release_line_assignment:
  assumes "valid_key k"
  shows "os_release_line r (i, os_release_assignment (k, v)) = Inr (os_release_store r k v)"
proof -
  obtain c cs where k: "k = c # cs" using assms by (cases k) (auto simp: valid_key_def)
  have c: "48 \<le> c" "\<not> is_whitespace c" using valid_key_chars [OF assms, of c] k by auto
  let ?l = "k @ 61 # 34 # escape_value v @ [34]"
  have trim: "trim ?l = ?l" using c by (intro trim_id) (simp add: k)
  have split: "split_once 61 ?l = Some (k, 34 # escape_value v @ [34])"
    using valid_key_chars [OF assms, of 61] by (intro split_once_append) auto
  have start: "\<not> starts_with ?l (lit ''#'')"
    using c by (auto simp: k starts_with_iff lit_Cons)
  show ?thesis
    using trim split start assms
    by (simp add: os_release_line_def os_release_assignment_def parse_assignment_value_quoted
        Let_def k)
qed

lemma lines_render_os_release:
  assumes "list_all (\<lambda>(k, v). valid_key k \<and> 10 \<notin> set v) kvs"
  shows "lines (render_os_release kvs) = map os_release_assignment kvs"
  using assms
proof (induction kvs)
  case (Cons e kvs)
  obtain k v where e: "e = (k, v)" by (cases e)
  have "10 \<notin> set (os_release_assignment e)"
    using Cons.prems valid_key_chars [of k 10] set_escape_value [of v]
    by (auto simp: e os_release_assignment_def)
  moreover have "strip_cr (os_release_assignment e) = os_release_assignment e"
    by (simp add: strip_cr_def e os_release_assignment_def)
  ultimately show ?case
    using Cons by (simp add: render_os_release_def lines_Cons_LF)
qed (simp add: render_os_release_def)

lemma os_release_fold:
  assumes "list_all (\<lambda>(k, v). valid_key k \<and> 10 \<notin> set v) kvs"
  shows "try_fold os_release_line r (enumerate i (map os_release_assignment kvs)) =
    Inr (foldl (\<lambda>r (k, v). os_release_store r k v) r kvs)"
  using assms
proof (induction kvs arbitrary: r i)
  case (Cons e kvs)
  then show ?case by (cases e) (simp add: os_release_line_assignment)
qed simp

text \<open>The last assignment to a key wins.\<close>

lemma os_release_store_fold:
  fixes r :: OsRelease
  defines "upd k old kvs \<equiv> (case map_of (rev kvs) k of None \<Rightarrow> old | Some v \<Rightarrow> Some v)"
  shows "foldl (\<lambda>r (k, v). os_release_store r k v) r kvs =
    \<lparr>or_pretty_name = upd (lit ''PRETTY_NAME'') (or_pretty_name r) kvs,
     or_name = upd (lit ''NAME'') (or_name r) kvs,
     or_version = upd (lit ''VERSION'') (or_version r) kvs,
     or_version_id = upd (lit ''VERSION_ID'') (or_version_id r) kvs,
     or_id = upd (lit ''ID'') (or_id r) kvs\<rparr>"
  unfolding upd_def
proof (induction kvs rule: rev_induct)
  case (snoc e kvs)
  then show ?case by (cases e) (auto simp: os_release_store_def)
qed simp


section \<open>Properties\<close>

text \<open>
  \<open>parse_cpuinfo\<close> reports the first line whose trimmed key is \<open>Revision\<close> (\<open>Serial\<close>) and whose
  trimmed value is not empty, wherever it stands and whatever the other lines are.\<close>

theorem parse_cpuinfo_first:
  "cm_revision (parse_cpuinfo input) = find_map (cpuinfo_field (lit ''Revision'')) (lines input) \<and>
   cm_serial (parse_cpuinfo input) = find_map (cpuinfo_field (lit ''Serial'')) (lines input)"
  by (simp add: parse_cpuinfo_def cpuinfo_fold_fields or_else_def)

text \<open>
  C39. An \<open>os-release\<close> file of double-quoted assignments with escaped quotes and backslashes is read
  back exactly: each selected field is the last value assigned to its key, with every character
  of the value (spaces, quotes, backslashes, hash signs) intact.\<close>

theorem os_release_roundtrip:
  assumes "list_all (\<lambda>(k, v). valid_key k \<and> 10 \<notin> set v) kvs"
  shows "parse_os_release (render_os_release kvs) =
    Inr \<lparr>or_pretty_name = map_of (rev kvs) (lit ''PRETTY_NAME''),
         or_name = map_of (rev kvs) (lit ''NAME''),
         or_version = map_of (rev kvs) (lit ''VERSION''),
         or_version_id = map_of (rev kvs) (lit ''VERSION_ID''),
         or_id = map_of (rev kvs) (lit ''ID'')\<rparr>"
proof -
  show ?thesis
    using os_release_fold [OF assms, of OsRelease_default 0]
    by (simp add: parse_os_release_def lines_render_os_release [OF assms] os_release_store_fold
        OsRelease_default_def split: option.split)
qed

theorem os_release_roundtrip_witness:
  "parse_os_release (render_os_release
      [(lit ''ID'', lit ''debian''), (lit ''NAME'', [34, 97, 92]), (lit ''ID'', lit ''raspbian'')]) =
    Inr \<lparr>or_pretty_name = None, or_name = Some [34, 97, 92], or_version = None,
         or_version_id = None, or_id = Some (lit ''raspbian'')\<rparr>"
  using os_release_roundtrip
    [of "[(lit ''ID'', lit ''debian''), (lit ''NAME'', [34, 97, 92]), (lit ''ID'', lit ''raspbian'')]"]
  by (simp add: valid_key_def str_eval)

text \<open>
  A NUL-terminated device-tree model string is reported without its terminator, for any text
  that neither starts nor ends with a trimmed character.\<close>

theorem device_tree_model_roundtrip:
  assumes "valid_str s" "s \<noteq> []" "hd s \<notin> {0, 32, 9, 13, 10}" "last s \<notin> {0, 32, 9, 13, 10}"
  shows "parse_device_tree_model (str_bytes s @ [0]) = Some s"
proof -
  let ?p = "\<lambda>c :: rchar. c \<in> {0, 32, 9, 13, 10}"
  have "from_utf8 (str_bytes (s @ [0])) = Some (s @ [0])"
    using assms(1) by (intro from_utf8_str_bytes) (simp add: is_scalar_def)
  then have utf: "from_utf8 (str_bytes s @ [0]) = Some (s @ [0])"
    by (simp add: utf8_encode_char_def)
  have start: "trim_start_matches ?p (s @ [0]) = s @ [0]"
    using assms(2,3) by (cases s) (auto simp: trim_start_matches_def)
  have "trim_end_matches ?p (s @ [0]) = trim_end_matches ?p s"
    by (simp add: trim_end_matches_def)
  also have "\<dots> = s" using assms(4) by (intro trim_end_matches_id) blast
  finally show ?thesis
    using utf start assms(2) by (simp add: parse_device_tree_model_def trim_matches_def non_empty_def)
qed

theorem device_tree_model_roundtrip_witness:
  "parse_device_tree_model (str_bytes (lit ''Raspberry Pi'') @ [0]) = Some (lit ''Raspberry Pi'')"
  by (rule device_tree_model_roundtrip) (simp_all add: str_eval)

end
