(* ===== verification/Metrics_Power.thy ===== *)
theory Metrics_Power
  imports Metrics_Error
begin

unbundle bit_operations_syntax

text \<open>
  \<open>src/metrics/power.rs\<close>: decoding of the firmware's throttling mask.  The mask is a 32-bit
  word; a flag is one bit of it, read as in the source by an AND with a shifted one.
\<close>

definition THROTTLED_OUTPUT :: rstr where
  "THROTTLED_OUTPUT = lit ''vcgencmd get_throttled''"

record ThrottledStatus =
  ts_raw :: u32
  ts_undervoltage_now :: bool
  ts_arm_frequency_capped_now :: bool
  ts_throttled_now :: bool
  ts_soft_temperature_limit_now :: bool
  ts_undervoltage_since_boot :: bool
  ts_arm_frequency_capped_since_boot :: bool
  ts_throttled_since_boot :: bool
  ts_soft_temperature_limit_since_boot :: bool

definition raw_hex :: "ThrottledStatus \<Rightarrow> rstr" where
  "raw_hex st = lit ''0x'' @ to_radix 16 (unat (ts_raw st))"

definition has_bit :: "u32 \<Rightarrow> nat \<Rightarrow> bool" where
  "has_bit value b \<longleftrightarrow> value AND push_bit b 1 \<noteq> 0"

definition decode_throttled :: "u32 \<Rightarrow> ThrottledStatus" where
  "decode_throttled raw =
     \<lparr>ts_raw = raw,
      ts_undervoltage_now = has_bit raw 0,
      ts_arm_frequency_capped_now = has_bit raw 1,
      ts_throttled_now = has_bit raw 2,
      ts_soft_temperature_limit_now = has_bit raw 3,
      ts_undervoltage_since_boot = has_bit raw 16,
      ts_arm_frequency_capped_since_boot = has_bit raw 17,
      ts_throttled_since_boot = has_bit raw 18,
      ts_soft_temperature_limit_since_boot = has_bit raw 19\<rparr>"

definition parse_throttled :: "rstr \<Rightarrow> ParseError + ThrottledStatus" where
  "parse_throttled input =
     and_then (ok_or (split_once 61 (trim input))
                (ParseError_new THROTTLED_OUTPUT (lit ''the assignment is missing'')))
       (\<lambda>(key, raw_value).
         if trim key \<noteq> lit ''throttled''
         then Inl (ParseError_new THROTTLED_OUTPUT (lit ''the expected throttled key is missing''))
         else
           let raw_value = trim raw_value in
           and_then (ok_or (or_else (strip_prefix (lit ''0x'') raw_value)
                                    (strip_prefix (lit ''0X'') raw_value))
                       (ParseError_new THROTTLED_OUTPUT (lit ''the value must have a 0x prefix'')))
             (\<lambda>hexadecimal.
               if hexadecimal = []
               then Inl (ParseError_new THROTTLED_OUTPUT (lit ''the hexadecimal value is empty''))
               else
                 and_then (ok_or (from_str_radix 16 hexadecimal)
                             (ParseError_new THROTTLED_OUTPUT
                                (lit ''the value is not a 32-bit hexadecimal mask'')))
                   (\<lambda>raw. Inr (decode_throttled raw))))"


section \<open>Facts\<close>

lemma has_bit_iff: "has_bit w b \<longleftrightarrow> bit w b" if "b < 32"
proof -
  have "w AND push_bit b 1 \<noteq> 0 \<longleftrightarrow> (\<exists>n. bit (w AND push_bit b 1) n)"
    by (metis bit_eq_iff bit_0_eq bot_apply bot_bool_def)
  also have "\<dots> \<longleftrightarrow> bit w b"
    using that by (auto simp: bit_and_iff bit_exp_iff)
  finally show ?thesis by (simp add: has_bit_def)
qed

text \<open>The status a successful parse returns is the decoding of its own mask.\<close>

lemma parse_throttled_decodes:
  "parse_throttled input = Inr st \<Longrightarrow> st = decode_throttled (ts_raw st)"
  by (auto simp: parse_throttled_def result_iff Let_def decode_throttled_def split: if_splits)

lemma trim_hex_value:
  "trim (lit ''0x'' @ to_radix 16 n) = lit ''0x'' @ to_radix 16 n"
  "trim (lit ''throttled='' @ lit ''0x'' @ to_radix 16 n) =
     lit ''throttled='' @ lit ''0x'' @ to_radix 16 n"
  by (intro trim_id; simp add: last_to_radix lit_Cons)+

lemma parse_throttled_line:
  "parse_throttled (lit ''throttled='' @ lit ''0x'' @ to_radix 16 (unat raw)) =
     Inr (decode_throttled raw)"
proof -
  let ?hex = "lit ''0x'' @ to_radix 16 (unat raw)"
  have once: "split_once 61 (lit ''throttled='' @ ?hex) = Some (lit ''throttled'', ?hex)"
    by (subst split_once_iff) (simp add: lit_Cons)
  have key: "trim (lit ''throttled'') = lit ''throttled''"
    by (intro trim_id) (simp add: lit_Cons)
  have prefix: "strip_prefix (lit ''0x'') ?hex = Some (to_radix 16 (unat raw))"
    by (rule strip_prefix_append)
  show ?thesis
    unfolding parse_throttled_def trim_hex_value once
    by (simp only: ok_or_simps and_then_simps prod.case key trim_hex_value prefix or_else_simps
        Let_def if_False not_True_eq_False to_radix_ne simp_thms)
       (simp add: from_str_radix_to_radix)
qed


section \<open>Properties\<close>

text \<open>
  C37. Printing a mask the way the firmware does and parsing it back is lossless: for every
  32-bit mask \<open>raw\<close>, the text \<open>throttled=\<close> followed by \<open>raw_hex\<close> of its decoding parses to
  exactly that decoding.
\<close>

theorem parse_throttled_roundtrip:
  "parse_throttled (lit ''throttled='' @ raw_hex (decode_throttled raw)) =
     Inr (decode_throttled raw)"
  using parse_throttled_line [of raw] by (simp add: raw_hex_def decode_throttled_def)

end
