(* ===== verification/Metrics_Uptime.thy ===== *)
theory Metrics_Uptime
  imports Metrics_Error
begin

text \<open>
  \<open>src/metrics/uptime.rs\<close>: whole seconds since boot from \<open>/proc/uptime\<close>.
\<close>

definition UPTIME_PROC_UPTIME :: rstr where "UPTIME_PROC_UPTIME = lit ''/proc/uptime''"

definition parse_uptime_seconds :: "rstr \<Rightarrow> ParseError + u64" where
  "parse_uptime_seconds input =
     and_then (ok_or (nth_opt (split_whitespace input) 0)
                 (ParseError_new UPTIME_PROC_UPTIME (lit ''the uptime value is missing'')))
       (\<lambda>raw.
         and_then (ok_or (parse_f64 raw)
                     (ParseError_new UPTIME_PROC_UPTIME (lit ''the uptime value is not a number'')))
           (\<lambda>seconds.
             if \<not> f64_is_finite seconds \<or> f64_is_sign_negative seconds
             then Inl (ParseError_new UPTIME_PROC_UPTIME
                         (lit ''the uptime value must be finite and non-negative''))
             else if f64_ge seconds (f64_of_nat (unat (- 1 :: u64)))
             then Inl (ParseError_new UPTIME_PROC_UPTIME
                         (lit ''the uptime value exceeds u64 seconds''))
             else Inr (f64_as_u64 (f64_trunc seconds))))"


section \<open>Facts\<close>

text \<open>\<open>u64::MAX as f64\<close> is \<open>2^64\<close>: the conversion rounds up.\<close>

lemma f64_u64_max: "f64_of_nat (unat (- 1 :: u64)) = F64_Fin False (2 ^ 64)"
  by (simp add: unat_max_word f64_eval)

lemma f64_as_u64_trunc:
  assumes "0 \<le> m" "m < 2 ^ 64"
  shows "int (unat (f64_as_u64 (f64_trunc (F64_Fin False m)))) = \<lfloor>m\<rfloor>"
proof -
  have "0 \<le> \<lfloor>m\<rfloor>" using assms(1) by simp
  moreover have lt: "\<lfloor>m\<rfloor> < 2 ^ 64" using assms(2) by (simp add: floor_less_iff)
  ultimately show ?thesis
    by (simp add: uint_word_of_int take_bit_int_eq_self not_le flip: uint_nat)
qed


section \<open>Properties\<close>

text \<open>
  An accepted uptime is the truncation of the parsed number: the first field of the text is a
  number whose \<open>f64\<close> value is finite, not negative and below \<open>2^64\<close>, and the result is its
  integral part, without saturation.
\<close>

theorem parse_uptime_truncates:
  "case parse_uptime_seconds input of
     Inl e \<Rightarrow> pe_source_name e = UPTIME_PROC_UPTIME
   | Inr n \<Rightarrow>
       (\<exists>raw m. nth_opt (split_whitespace input) 0 = Some raw \<and>
          parse_f64 raw = Some (F64_Fin False m) \<and> m < 2 ^ 64 \<and> int (unat n) = \<lfloor>m\<rfloor>)"
proof (cases "parse_uptime_seconds input")
  case (Inl e)
  then show ?thesis
    by (auto simp: parse_uptime_seconds_def and_then_eq_Inl ok_or_eq_Inl split: if_splits)
next
  case (Inr n)
  then obtain raw v where raw: "nth_opt (split_whitespace input) 0 = Some raw" "parse_f64 raw = Some v"
    and v: "f64_is_finite v" "\<not> f64_is_sign_negative v" "\<not> f64_ge v (F64_Fin False (2 ^ 64))"
    and n: "n = f64_as_u64 (f64_trunc v)"
    by (auto simp: parse_uptime_seconds_def result_iff f64_u64_max split: if_splits)
  obtain m where m: "v = F64_Fin False m" using v finite_non_negative_iff by blast
  have "0 \<le> m" using raw m parse_f64_nonneg by blast
  moreover have "m < 2 ^ 64" using v(3) m by (auto simp: f64_ge_def f64_val_def)
  ultimately show ?thesis using Inr raw m n f64_as_u64_trunc [of m] by auto
qed

end
