(* ===== verification/Collector.thy ===== *)
theory Collector
  imports Command_Runner Metrics_Cpu Metrics_Disk Metrics_Metadata Metrics_Power
    Metrics_Temperature Metrics_Uptime
begin

text \<open>
  \<open>src/collector.rs\<close>: one collection cycle.  The three traits \<open>SystemSource\<close>, \<open>CommandRunner\<close> and
  \<open>Clock\<close> are the fields of \<open>Env\<close>, each a function on the state \<open>'s\<close> of the outside world, so two
  reads of the same file may differ.  A collection function returns what the Rust method changes:
  the collector, the readings, the error list and the world.
\<close>

definition PROC_STAT :: path where "PROC_STAT = lit ''/proc/stat''"
definition PROC_LOADAVG :: path where "PROC_LOADAVG = lit ''/proc/loadavg''"
definition PROC_MEMINFO :: path where "PROC_MEMINFO = lit ''/proc/meminfo''"
definition PROC_UPTIME :: path where "PROC_UPTIME = lit ''/proc/uptime''"
definition PROC_CPUINFO :: path where "PROC_CPUINFO = lit ''/proc/cpuinfo''"
definition DEVICE_TREE_MODEL :: path where "DEVICE_TREE_MODEL = lit ''/proc/device-tree/model''"
definition KERNEL_RELEASE :: path where "KERNEL_RELEASE = lit ''/proc/sys/kernel/osrelease''"
definition HOSTNAME :: path where "HOSTNAME = lit ''/etc/hostname''"
definition ETC_OS_RELEASE :: path where "ETC_OS_RELEASE = lit ''/etc/os-release''"
definition THERMAL_ZONE :: path where
  "THERMAL_ZONE = lit ''/sys/class/thermal/thermal_zone0/temp''"
definition FREQUENCY_PATHS :: "path list" where
  "FREQUENCY_PATHS =
     [lit ''/sys/devices/system/cpu/cpu0/cpufreq/scaling_cur_freq'',
      lit ''/sys/devices/system/cpu/cpu0/cpufreq/cpuinfo_cur_freq'']"
definition STANDARD_VCGENCMD_PATHS :: "path list" where
  "STANDARD_VCGENCMD_PATHS = [lit ''/usr/bin/vcgencmd'', lit ''/opt/vc/bin/vcgencmd'']"
definition CPU_WARMUP :: duration where "CPU_WARMUP = from_secs 1"

record DeviceMetadata =
  dv_hostname :: "rstr option"
  dv_model :: "rstr option"
  dv_board_revision :: "rstr option"
  dv_serial_number :: "rstr option"
  dv_kernel_release :: "rstr option"
  dv_operating_system :: "rstr option"

definition DeviceMetadata_default :: DeviceMetadata where
  "DeviceMetadata_default =
     \<lparr>dv_hostname = None, dv_model = None, dv_board_revision = None, dv_serial_number = None,
      dv_kernel_release = None, dv_operating_system = None\<rparr>"

datatype CollectorInitError = FirmwareCommandUnavailable

fun CollectorInitError_display :: "CollectorInitError \<Rightarrow> rstr" where
  "CollectorInitError_display FirmwareCommandUnavailable =
     lit ''vcgencmd was not found at the configured or standard installation paths''"

text \<open>The kinds of \<open>io::Error\<close> the collector distinguishes.\<close>

datatype IoError = IoNotFound | IoOther

record ('s, 'dt) Env =
  env_read_text :: "path \<Rightarrow> 's \<Rightarrow> (IoError + rstr) \<times> 's"
  env_read_bytes :: "path \<Rightarrow> 's \<Rightarrow> (IoError + nat list) \<times> 's"
  env_is_file :: "path \<Rightarrow> 's \<Rightarrow> bool \<times> 's"
  env_statvfs :: "path \<Rightarrow> 's \<Rightarrow> (IoError + StatvfsValues) \<times> 's"
  env_run :: "path \<Rightarrow> rstr list \<Rightarrow> duration \<Rightarrow> 's \<Rightarrow> (CommandFailure + rstr) \<times> 's"
  env_now_utc :: "'s \<Rightarrow> 'dt ObservationTime \<times> 's"
  env_monotonic_now :: "'s \<Rightarrow> nat \<times> 's"
  env_sleep :: "duration \<Rightarrow> 's \<Rightarrow> 's"

record Collector =
  co_root_filesystem :: path
  co_vcgencmd_path :: path
  co_command_timeout :: duration
  co_previous_cpu :: "CpuTimes option"
  co_metadata :: DeviceMetadata

definition push_error :: "char list \<Rightarrow> char list \<Rightarrow> CollectorError list \<Rightarrow> CollectorError list" where
  "push_error metric message errors = errors @ [CollectorError_new (lit metric) (lit message)]"


section \<open>Measurements\<close>

text \<open>\<open>read_text(path)\<close> followed by a parser, both errors dropped: the source's \<open>map_err(|_| ())\<close>.\<close>

definition read_parsed ::
  "('s, 'dt) Env \<Rightarrow> path \<Rightarrow> (rstr \<Rightarrow> ParseError + 'a) \<Rightarrow> 's \<Rightarrow> 'a option \<times> 's" where
  "read_parsed env p parse s =
     (case env_read_text env p s of
        (Inl _, s1) \<Rightarrow> (None, s1)
      | (Inr input, s1) \<Rightarrow> (ok (parse input), s1))"

definition read_cpu_sample :: "('s, 'dt) Env \<Rightarrow> 's \<Rightarrow> CpuTimes option \<times> 's" where
  "read_cpu_sample env s = read_parsed env PROC_STAT parse_proc_stat s"

definition cpu_counters_error :: "CollectorError list \<Rightarrow> CollectorError list" where
  "cpu_counters_error errors =
     push_error ''cpu.usage_percent'' ''aggregate CPU counters are unavailable or malformed'' errors"

text \<open>The part of \<open>collect_cpu_usage\<close> after the previous sample is known.\<close>

definition cpu_usage_since ::
  "('s, 'dt) Env \<Rightarrow> CpuTimes \<Rightarrow> Collector \<Rightarrow> CollectorError list \<Rightarrow> 's \<Rightarrow>
   f64 option \<times> Collector \<times> CollectorError list \<times> 's" where
  "cpu_usage_since env previous c errors s =
     (case read_cpu_sample env s of
        (None, s1) \<Rightarrow> (None, c, cpu_counters_error errors, s1)
      | (Some current, s1) \<Rightarrow>
          (let c1 = c\<lparr>co_previous_cpu := Some current\<rparr> in
           case usage_percent previous current of
             Inr value \<Rightarrow> (value, c1, errors, s1)
           | Inl _ \<Rightarrow>
               (None, c1,
                push_error ''cpu.usage_percent'' ''aggregate CPU counters are inconsistent'' errors,
                s1)))"

definition collect_cpu_usage ::
  "('s, 'dt) Env \<Rightarrow> Collector \<Rightarrow> CollectorError list \<Rightarrow> 's \<Rightarrow>
   f64 option \<times> Collector \<times> CollectorError list \<times> 's" where
  "collect_cpu_usage env c errors s =
     (case co_previous_cpu c of
        Some previous \<Rightarrow> cpu_usage_since env previous c errors s
      | None \<Rightarrow>
          (case read_cpu_sample env s of
             (None, s1) \<Rightarrow> (None, c, cpu_counters_error errors, s1)
           | (Some initial, s1) \<Rightarrow>
               cpu_usage_since env initial (c\<lparr>co_previous_cpu := Some initial\<rparr>) errors
                 (env_sleep env CPU_WARMUP s1)))"

definition collect_load_average ::
  "('s, 'dt) Env \<Rightarrow> CpuMetrics \<Rightarrow> CollectorError list \<Rightarrow> 's \<Rightarrow> CpuMetrics \<times> CollectorError list \<times> 's" where
  "collect_load_average env cpu errors s =
     (case read_parsed env PROC_LOADAVG parse_loadavg s of
        (Some load, s1) \<Rightarrow>
          (cpu\<lparr>cpu_load_1 := Some (la_one_minute load), cpu_load_5 := Some (la_five_minutes load),
               cpu_load_15 := Some (la_fifteen_minutes load)\<rparr>, errors, s1)
      | (None, s1) \<Rightarrow>
          (cpu, push_error ''cpu.load_average'' ''load averages are unavailable or malformed'' errors,
           s1))"

definition collect_temperature ::
  "('s, 'dt) Env \<Rightarrow> Collector \<Rightarrow> CpuMetrics \<Rightarrow> CollectorError list \<Rightarrow> 's \<Rightarrow>
   CpuMetrics \<times> CollectorError list \<times> 's" where
  "collect_temperature env c cpu errors s =
     (let failed = (\<lambda>message. push_error ''cpu.temperature_c'' message errors) in
      case env_read_text env THERMAL_ZONE s of
        (Inr input, s1) \<Rightarrow>
          (case parse_millidegrees_celsius input of
             Inr value \<Rightarrow> (cpu\<lparr>cpu_temperature_c := Some value\<rparr>, errors, s1)
           | Inl _ \<Rightarrow> (cpu, failed ''the thermal-zone temperature is malformed'', s1))
      | (Inl IoNotFound, s1) \<Rightarrow>
          (case env_run env (co_vcgencmd_path c) [lit ''measure_temp''] (co_command_timeout c) s1 of
             (Inr out, s2) \<Rightarrow>
               (case parse_vcgencmd_temperature out of
                  Inr value \<Rightarrow> (cpu\<lparr>cpu_temperature_c := Some value\<rparr>, errors, s2)
                | Inl _ \<Rightarrow> (cpu, failed ''the firmware temperature response is malformed'', s2))
           | (Inl _, s2) \<Rightarrow>
               (cpu, failed ''the firmware temperature command failed or timed out'', s2))
      | (Inl IoOther, s1) \<Rightarrow> (cpu, failed ''the thermal-zone temperature cannot be read'', s1))"

text \<open>The \<open>for\<close> loop over the frequency paths.\<close>

fun frequency_loop ::
  "('s, 'dt) Env \<Rightarrow> path list \<Rightarrow> CpuMetrics \<Rightarrow> CollectorError list \<Rightarrow> 's \<Rightarrow>
   CpuMetrics \<times> CollectorError list \<times> 's" where
  "frequency_loop env [] cpu errors s = (cpu, errors, s)"
| "frequency_loop env (p # ps) cpu errors s =
     (case env_read_text env p s of
        (Inr input, s1) \<Rightarrow>
          (case parse_frequency_khz input of
             Inr value \<Rightarrow> (cpu\<lparr>cpu_frequency_mhz := Some value\<rparr>, errors, s1)
           | Inl _ \<Rightarrow>
               (cpu, push_error ''cpu.frequency_mhz'' ''the CPU frequency value is malformed'' errors,
                s1))
      | (Inl IoNotFound, s1) \<Rightarrow> frequency_loop env ps cpu errors s1
      | (Inl IoOther, s1) \<Rightarrow>
          (cpu, push_error ''cpu.frequency_mhz'' ''the CPU frequency cannot be read'' errors, s1))"

definition collect_frequency ::
  "('s, 'dt) Env \<Rightarrow> CpuMetrics \<Rightarrow> CollectorError list \<Rightarrow> 's \<Rightarrow> CpuMetrics \<times> CollectorError list \<times> 's" where
  "collect_frequency env cpu errors s = frequency_loop env FREQUENCY_PATHS cpu errors s"

definition collect_memory ::
  "('s, 'dt) Env \<Rightarrow> TelemetryReadings \<Rightarrow> CollectorError list \<Rightarrow> 's \<Rightarrow>
   TelemetryReadings \<times> CollectorError list \<times> 's" where
  "collect_memory env readings errors s =
     (case read_parsed env PROC_MEMINFO parse_meminfo s of
        (Some m, s1) \<Rightarrow>
          (readings\<lparr>
             rd_memory :=
               \<lparr>mem_total_bytes = Some (mi_total_bytes m),
                mem_available_bytes = Some (mi_available_bytes m),
                mem_used_bytes = Some (mi_used_bytes m),
                mem_used_percent = Some (mi_used_percent m)\<rparr>,
             rd_swap :=
               \<lparr>swap_total_bytes = Some (mi_swap_total_bytes m),
                swap_used_bytes = Some (mi_swap_used_bytes m),
                swap_used_percent = Some (mi_swap_used_percent m)\<rparr>\<rparr>, errors, s1)
      | (None, s1) \<Rightarrow>
          (readings,
           push_error ''memory'' ''memory and swap information is unavailable or malformed'' errors,
           s1))"

definition collect_uptime ::
  "('s, 'dt) Env \<Rightarrow> TelemetryReadings \<Rightarrow> CollectorError list \<Rightarrow> 's \<Rightarrow>
   TelemetryReadings \<times> CollectorError list \<times> 's" where
  "collect_uptime env readings errors s =
     (case read_parsed env PROC_UPTIME parse_uptime_seconds s of
        (Some value, s1) \<Rightarrow> (readings\<lparr>rd_uptime_seconds := Some value\<rparr>, errors, s1)
      | (None, s1) \<Rightarrow>
          (readings, push_error ''uptime_seconds'' ''system uptime is unavailable or malformed'' errors,
           s1))"

definition collect_disk ::
  "('s, 'dt) Env \<Rightarrow> Collector \<Rightarrow> DiskMetrics \<Rightarrow> CollectorError list \<Rightarrow> 's \<Rightarrow>
   DiskMetrics \<times> CollectorError list \<times> 's" where
  "collect_disk env c disk errors s =
     (case env_statvfs env (co_root_filesystem c) s of (r, s1) \<Rightarrow>
        (case and_then r
                (\<lambda>values. map_err (\<lambda>_. IoOther)
                   (calculate_disk_metrics (co_root_filesystem c) values)) of
           Inr value \<Rightarrow> (value, errors, s1)
         | Inl _ \<Rightarrow>
             (disk,
              push_error ''disk'' ''filesystem statistics are unavailable or inconsistent'' errors,
              s1)))"

definition power_metrics :: "ThrottledStatus \<Rightarrow> PowerMetrics" where
  "power_metrics status =
     \<lparr>pw_throttled_raw = Some (raw_hex status),
      pw_undervoltage_now = Some (ts_undervoltage_now status),
      pw_arm_frequency_capped_now = Some (ts_arm_frequency_capped_now status),
      pw_throttled_now = Some (ts_throttled_now status),
      pw_soft_temperature_limit_now = Some (ts_soft_temperature_limit_now status),
      pw_undervoltage_since_boot = Some (ts_undervoltage_since_boot status),
      pw_arm_frequency_capped_since_boot = Some (ts_arm_frequency_capped_since_boot status),
      pw_throttled_since_boot = Some (ts_throttled_since_boot status),
      pw_soft_temperature_limit_since_boot = Some (ts_soft_temperature_limit_since_boot status)\<rparr>"

definition collect_power ::
  "('s, 'dt) Env \<Rightarrow> Collector \<Rightarrow> PowerMetrics \<Rightarrow> CollectorError list \<Rightarrow> 's \<Rightarrow>
   PowerMetrics \<times> CollectorError list \<times> 's" where
  "collect_power env c pw errors s =
     (case env_run env (co_vcgencmd_path c) [lit ''get_throttled''] (co_command_timeout c) s of
        (r, s1) \<Rightarrow>
          (case and_then (map_err (\<lambda>_. ()) r) (\<lambda>out. map_err (\<lambda>_. ()) (parse_throttled out)) of
             Inr status \<Rightarrow> (power_metrics status, errors, s1)
           | Inl _ \<Rightarrow>
               (pw,
                push_error ''power''
                  ''the firmware throttling command failed, timed out, or returned malformed data''
                  errors, s1)))"


section \<open>The cycle\<close>

definition duration_ms :: "nat \<Rightarrow> u64" where
  "duration_ms d = (if as_millis d < 2 ^ 64 then of_nat (as_millis d) else - 1)"

definition collect ::
  "('s, 'dt) Env \<Rightarrow> Collector \<Rightarrow> 's \<Rightarrow> 'dt TelemetryState \<times> Collector \<times> 's" where
  "collect env c s =
     (let (started, s1) = env_monotonic_now env s;
          (observed_at, s2) = env_now_utc env s1;
          readings = TelemetryReadings_unavailable (co_root_filesystem c);
          (usage, c1, e1, s3) = collect_cpu_usage env c [] s2;
          cpu = (rd_cpu readings)\<lparr>cpu_usage_percent := usage\<rparr>;
          (cpu, e2, s4) = collect_load_average env cpu e1 s3;
          (cpu, e3, s5) = collect_temperature env c1 cpu e2 s4;
          (cpu, e4, s6) = collect_frequency env cpu e3 s5;
          readings = readings\<lparr>rd_cpu := cpu\<rparr>;
          (readings, e5, s7) = collect_memory env readings e4 s6;
          (readings, e6, s8) = collect_uptime env readings e5 s7;
          (disk, e7, s9) = collect_disk env c1 (rd_disk readings) e6 s8;
          readings = readings\<lparr>rd_disk := disk\<rparr>;
          (pw, e8, s10) = collect_power env c1 (rd_power readings) e7 s9;
          readings = readings\<lparr>rd_power := pw\<rparr>;
          (finished, s11) = env_monotonic_now env s10
      in (TelemetryState_new observed_at readings e8 (duration_ms (finished - started)), c1, s11))"


section \<open>Construction\<close>

text \<open>\<open>find\<close> over the standard paths, the test on the configured path first.\<close>

fun find_vcgencmd ::
  "('s, 'dt) Env \<Rightarrow> path \<Rightarrow> path list \<Rightarrow> 's \<Rightarrow> path option \<times> 's" where
  "find_vcgencmd env configured [] s = (None, s)"
| "find_vcgencmd env configured (p # ps) s =
     (if p = configured then find_vcgencmd env configured ps s
      else
        (case env_is_file env p s of (is_file, s1) \<Rightarrow>
           if is_file then (Some p, s1) else find_vcgencmd env configured ps s1))"

definition resolve_vcgencmd ::
  "('s, 'dt) Env \<Rightarrow> path \<Rightarrow> 's \<Rightarrow> (CollectorInitError + path) \<times> 's" where
  "resolve_vcgencmd env configured s =
     (case env_is_file env configured s of (is_file, s1) \<Rightarrow>
        if is_file then (Inr configured, s1)
        else
          (case find_vcgencmd env configured STANDARD_VCGENCMD_PATHS s1 of (found, s2) \<Rightarrow>
             (ok_or found FirmwareCommandUnavailable, s2)))"

definition first_non_empty_line :: "rstr \<Rightarrow> rstr option" where
  "first_non_empty_line input = find_first (\<lambda>line. line \<noteq> []) (map trim (lines input))"

definition operating_system_name :: "OsRelease \<Rightarrow> rstr option" where
  "operating_system_name release =
     or_else (or_pretty_name release)
       (case (or_name release, or_version release) of
          (Some name, Some version) \<Rightarrow>
            if version \<noteq> [] then Some (name @ lit '' '' @ version) else Some name
        | (Some name, None) \<Rightarrow> Some name
        | (None, _) \<Rightarrow> None)"

definition detect_metadata :: "('s, 'dt) Env \<Rightarrow> 's \<Rightarrow> DeviceMetadata \<times> 's" where
  "detect_metadata env s =
     (let (hostname_text, s1) = env_read_text env HOSTNAME s;
          (model_bytes, s2) = env_read_bytes env DEVICE_TREE_MODEL s1;
          (cpuinfo_text, s3) = env_read_text env PROC_CPUINFO s2;
          (kernel_text, s4) = env_read_text env KERNEL_RELEASE s3;
          (os_text, s5) = env_read_text env ETC_OS_RELEASE s4;
          cpuinfo =
            (case ok cpuinfo_text of
               Some value \<Rightarrow> parse_cpuinfo value
             | None \<Rightarrow> \<lparr>cm_revision = None, cm_serial = None\<rparr>)
      in (\<lparr>dv_hostname = Option.bind (ok hostname_text) parse_hostname,
           dv_model = Option.bind (ok model_bytes) parse_device_tree_model,
           dv_board_revision = cm_revision cpuinfo,
           dv_serial_number = cm_serial cpuinfo,
           dv_kernel_release = Option.bind (ok kernel_text) first_non_empty_line,
           dv_operating_system =
             Option.bind (Option.bind (ok os_text) (\<lambda>v. ok (parse_os_release v)))
               operating_system_name\<rparr>, s5))"

definition with_dependencies ::
  "('s, 'dt) Env \<Rightarrow> path \<Rightarrow> path \<Rightarrow> duration \<Rightarrow> 's \<Rightarrow> (CollectorInitError + Collector) \<times> 's" where
  "with_dependencies env root_filesystem configured_vcgencmd command_timeout s =
     (case resolve_vcgencmd env configured_vcgencmd s of
        (Inl e, s1) \<Rightarrow> (Inl e, s1)
      | (Inr vcgencmd_path, s1) \<Rightarrow>
          (case detect_metadata env s1 of (metadata, s2) \<Rightarrow>
             (Inr \<lparr>co_root_filesystem = root_filesystem, co_vcgencmd_path = vcgencmd_path,
                   co_command_timeout = command_timeout, co_previous_cpu = None,
                   co_metadata = metadata\<rparr>, s2)))"

definition Collector_new ::
  "('s, 'dt) Env \<Rightarrow> CollectorConfig \<Rightarrow> 's \<Rightarrow> (CollectorInitError + Collector) \<times> 's" where
  "Collector_new env config s =
     with_dependencies env (cc_root_filesystem config) (cc_vcgencmd_path config)
       (cc_command_timeout config) s"



section \<open>The contract of one measurement\<close>

text \<open>
  Every collection method has the same contract: it may change its own part of the readings and
  leaves the errors alone, or it leaves the readings alone and appends exactly one error, under
  its own metric.  A measurement that is required is available when no error was added.
\<close>

locale measurement =
  fixes step :: "'r \<Rightarrow> CollectorError list \<Rightarrow> 's \<Rightarrow> 'r \<times> CollectorError list \<times> 's"
    and metric :: rstr
  assumes outcome: "step r es s = (r', es', s') \<Longrightarrow>
    es' = es \<or> r' = r \<and> map ce_metric es' = map ce_metric es @ [metric]"
begin

lemma metrics_grow:
  "step r es s = (r', es', s') \<Longrightarrow>
   map ce_metric es' = map ce_metric es \<or> map ce_metric es' = map ce_metric es @ [metric]"
  using outcome by blast

lemma error_keeps_readings:
  "step r es s = (r', es', s') \<Longrightarrow> map ce_metric es' \<noteq> map ce_metric es \<Longrightarrow> r' = r"
  using outcome by blast

end

locale required_measurement = measurement +
  fixes available :: "'a \<Rightarrow> bool"
  assumes success: "step r es s = (r', es, s') \<Longrightarrow> available r'"
begin

lemma reported:
  assumes "step r es s = (r', es', s')"
  obtains "map ce_metric es' = map ce_metric es" "available r'"
    | "map ce_metric es' = map ce_metric es @ [metric]" "r' = r"
  using outcome [OF assms] success assms by blast

end

lemma push_error_metric [simp]:
  "map ce_metric (push_error metric message es) = map ce_metric es @ [lit metric]"
  "push_error metric message es \<noteq> es"
  by (simp_all add: push_error_def CollectorError_new_def)

interpretation load: required_measurement "collect_load_average env" "lit ''cpu.load_average''"
  "\<lambda>cpu. cpu_load_1 cpu \<noteq> None \<and> cpu_load_5 cpu \<noteq> None \<and> cpu_load_15 cpu \<noteq> None"
  for env :: "('s, 'dt) Env"
  by unfold_locales (auto simp: collect_load_average_def split: prod.splits option.splits)

interpretation temperature: required_measurement "collect_temperature env c"
  "lit ''cpu.temperature_c''" "\<lambda>cpu. cpu_temperature_c cpu \<noteq> None"
  for env :: "('s, 'dt) Env" and c
  by unfold_locales
    (auto simp: collect_temperature_def Let_def split: prod.splits sum.splits IoError.splits)

lemma frequency_loop_outcome:
  "frequency_loop env ps cpu es s = (cpu', es', s') \<Longrightarrow>
     es' = es \<or> cpu' = cpu \<and> map ce_metric es' = map ce_metric es @ [lit ''cpu.frequency_mhz'']"
  by (induction ps arbitrary: s) (auto split: prod.splits sum.splits IoError.splits)

interpretation frequency: measurement "collect_frequency env" "lit ''cpu.frequency_mhz''"
  for env :: "('s, 'dt) Env"
  by unfold_locales (simp add: collect_frequency_def frequency_loop_outcome)

interpretation memory: required_measurement "collect_memory env" "lit ''memory''"
  "\<lambda>r. mem_total_bytes (rd_memory r) \<noteq> None \<and> mem_available_bytes (rd_memory r) \<noteq> None \<and>
       mem_used_bytes (rd_memory r) \<noteq> None \<and> mem_used_percent (rd_memory r) \<noteq> None \<and>
       swap_total_bytes (rd_swap r) \<noteq> None \<and> swap_used_bytes (rd_swap r) \<noteq> None \<and>
       swap_used_percent (rd_swap r) \<noteq> None"
  for env :: "('s, 'dt) Env"
  by unfold_locales (auto simp: collect_memory_def split: prod.splits option.splits)

interpretation uptime: required_measurement "collect_uptime env" "lit ''uptime_seconds''"
  "\<lambda>r. rd_uptime_seconds r \<noteq> None"
  for env :: "('s, 'dt) Env"
  by unfold_locales (auto simp: collect_uptime_def split: prod.splits option.splits)

lemma calculate_disk_metrics_available:
  "calculate_disk_metrics m v = Inr d \<Longrightarrow>
     disk_total_bytes d \<noteq> None \<and> disk_available_bytes d \<noteq> None \<and> disk_used_bytes d \<noteq> None \<and>
     disk_used_percent d \<noteq> None"
  by (auto simp: calculate_disk_metrics_ok)

interpretation disk: required_measurement "collect_disk env c" "lit ''disk''"
  "\<lambda>d. disk_total_bytes d \<noteq> None \<and> disk_available_bytes d \<noteq> None \<and> disk_used_bytes d \<noteq> None \<and>
     disk_used_percent d \<noteq> None"
  for env :: "('s, 'dt) Env" and c
  by unfold_locales
    (auto simp: collect_disk_def map_err_eq_Inr result_iff split: prod.splits sum.splits
      dest: calculate_disk_metrics_available)

interpretation power: required_measurement "collect_power env c" "lit ''power''"
  "\<lambda>p. list_all (\<lambda>f. f \<noteq> None)
     [pw_undervoltage_now p, pw_arm_frequency_capped_now p, pw_throttled_now p,
      pw_soft_temperature_limit_now p, pw_undervoltage_since_boot p,
      pw_arm_frequency_capped_since_boot p, pw_throttled_since_boot p,
      pw_soft_temperature_limit_since_boot p] \<and> pw_throttled_raw p \<noteq> None"
  for env :: "('s, 'dt) Env" and c
  by unfold_locales
    (auto simp: collect_power_def power_metrics_def split: prod.splits sum.splits)

text \<open>The CPU usage is the one measurement that also changes the collector.\<close>

lemma collect_cpu_usage_outcome:
  assumes "collect_cpu_usage env c es s = (v, c', es', s')"
  shows "es' = es \<or> v = None \<and> map ce_metric es' = map ce_metric es @ [lit ''cpu.usage_percent'']"
    and "c' = c\<lparr>co_previous_cpu := co_previous_cpu c'\<rparr>"
    and "co_previous_cpu c \<noteq> None \<Longrightarrow> co_previous_cpu c' \<noteq> None"
  using assms
  by (auto simp: collect_cpu_usage_def cpu_usage_since_def cpu_counters_error_def Let_def
      split: option.splits prod.splits sum.splits)



text \<open>
  A usage without an error comes from two samples that were read; it is \<open>null\<close> only when no counter
  moved between them.
\<close>

definition usage_between ::
  "('s, 'dt) Env \<Rightarrow> CpuTimes option \<Rightarrow> CpuTimes option \<Rightarrow> f64 option \<Rightarrow> bool" where
  "usage_between env before after usage \<longleftrightarrow>
     (\<exists>previous current sc sd. read_cpu_sample env sc = (Some current, sd) \<and> after = Some current \<and>
        (case before of
           Some p \<Rightarrow> previous = p
         | None \<Rightarrow> \<exists>sa sb. read_cpu_sample env sa = (Some previous, sb)) \<and>
        usage_percent previous current = Inr usage \<and>
        (usage = None) = (cpu_delta_sum previous current = 0))"

lemma collect_cpu_usage_between:
  assumes "collect_cpu_usage env c es s = (v, c', es, s')"
  shows "usage_between env (co_previous_cpu c) (co_previous_cpu c') v"
proof -
  have zero: "(v = None) = (cpu_delta_sum p q = 0)" if "usage_percent p q = Inr v" for p q v
    using usage_percent_ok(3) [OF that] by simp
  have since: "\<exists>q sc sd. read_cpu_sample env sc = (Some q, sd) \<and> co_previous_cpu c'' = Some q \<and>
      usage_percent p q = Inr v"
    if "cpu_usage_since env p c0 es t = (v, c'', es, t')" for p c0 t c'' t'
    using that
    by (auto simp: cpu_usage_since_def cpu_counters_error_def Let_def
        split: option.splits prod.splits sum.splits) blast
  show ?thesis
  proof (cases "co_previous_cpu c")
    case None
    then obtain p s1 where p: "read_cpu_sample env s = (Some p, s1)"
      and "cpu_usage_since env p (c\<lparr>co_previous_cpu := Some p\<rparr>) es (env_sleep env CPU_WARMUP s1)
        = (v, c', es, s')"
      using assms by (auto simp: collect_cpu_usage_def cpu_counters_error_def split: option.splits prod.splits)
    from since [OF this(2)] obtain q sc sd where "read_cpu_sample env sc = (Some q, sd)"
      "co_previous_cpu c' = Some q" "usage_percent p q = Inr v" by blast
    with zero p None show ?thesis
      unfolding usage_between_def
      by (intro exI [of _ p] exI [of _ q] exI [of _ sc] exI [of _ sd]) auto
  next
    case (Some p)
    then have "cpu_usage_since env p c es s = (v, c', es, s')"
      using assms by (simp add: collect_cpu_usage_def)
    from since [OF this] obtain q sc sd where "read_cpu_sample env sc = (Some q, sd)"
      "co_previous_cpu c' = Some q" "usage_percent p q = Inr v" by blast
    with zero Some show ?thesis
      unfolding usage_between_def
      by (intro exI [of _ p] exI [of _ q] exI [of _ sc] exI [of _ sd]) auto
  qed
qed

text \<open>
  A frequency without an error was read from one of the two files and parsed, or both are absent.
\<close>

definition frequency_read :: "('s, 'dt) Env \<Rightarrow> f64 option \<Rightarrow> bool" where
  "frequency_read env frequency \<longleftrightarrow>
     (case frequency of
        None \<Rightarrow> \<exists>s1 s2 s3. env_read_text env (FREQUENCY_PATHS ! 0) s1 = (Inl IoNotFound, s2) \<and>
           env_read_text env (FREQUENCY_PATHS ! 1) s2 = (Inl IoNotFound, s3)
      | Some v \<Rightarrow> \<exists>p \<in> set FREQUENCY_PATHS. \<exists>s1 s2 input.
           env_read_text env p s1 = (Inr input, s2) \<and> parse_frequency_khz input = Inr v)"

lemma collect_frequency_read:
  assumes "collect_frequency env cpu es s = (cpu', es, s')" "cpu_frequency_mhz cpu = None"
  shows "frequency_read env (cpu_frequency_mhz cpu')"
  using assms
  by (auto simp: collect_frequency_def frequency_read_def FREQUENCY_PATHS_def
      split: prod.splits sum.splits IoError.splits) blast+

text \<open>A cycle as the sequence of its steps.\<close>

lemma collect_steps:
  assumes "collect env c s = (st, c1, s11)"
  obtains started s1 observed_at s2 usage e1 s3 cpu2 e2 s4 cpu3 e3 s5 cpu4 e4 s6 r5 e5 s7 r6 e6 s8
    disk e7 s9 pw e8 s10 finished
  where "env_monotonic_now env s = (started, s1)" "env_now_utc env s1 = (observed_at, s2)"
    "collect_cpu_usage env c [] s2 = (usage, c1, e1, s3)"
    "collect_load_average env (CpuMetrics_default\<lparr>cpu_usage_percent := usage\<rparr>) e1 s3 = (cpu2, e2, s4)"
    "collect_temperature env c1 cpu2 e2 s4 = (cpu3, e3, s5)"
    "collect_frequency env cpu3 e3 s5 = (cpu4, e4, s6)"
    "collect_memory env ((TelemetryReadings_unavailable (co_root_filesystem c))\<lparr>rd_cpu := cpu4\<rparr>) e4 s6
       = (r5, e5, s7)"
    "collect_uptime env r5 e5 s7 = (r6, e6, s8)"
    "collect_disk env c1 (rd_disk r6) e6 s8 = (disk, e7, s9)"
    "collect_power env c1 (rd_power r6) e7 s9 = (pw, e8, s10)"
    "env_monotonic_now env s10 = (finished, s11)"
    "st = TelemetryState_new observed_at (r6\<lparr>rd_disk := disk, rd_power := pw\<rparr>) e8
       (duration_ms (finished - started))"
  using assms unfolding collect_def Let_def
  by (auto simp: TelemetryReadings_unavailable_def split: prod.splits)

text \<open>The readings a method leaves alone.\<close>

lemma collect_load_frame:
  "collect_load_average env r es s = (r', es', s') \<Longrightarrow>
     cpu_usage_percent r' = cpu_usage_percent r \<and> cpu_temperature_c r' = cpu_temperature_c r \<and>
     cpu_frequency_mhz r' = cpu_frequency_mhz r"
  by (auto simp: collect_load_average_def split: prod.splits option.splits)

lemma collect_temperature_frame:
  "collect_temperature env c r es s = (r', es', s') \<Longrightarrow>
     cpu_usage_percent r' = cpu_usage_percent r \<and> cpu_load_1 r' = cpu_load_1 r \<and>
     cpu_load_5 r' = cpu_load_5 r \<and> cpu_load_15 r' = cpu_load_15 r \<and>
     cpu_frequency_mhz r' = cpu_frequency_mhz r"
  by (auto simp: collect_temperature_def Let_def split: prod.splits sum.splits IoError.splits)

lemma collect_frequency_frame:
  "collect_frequency env r es s = (r', es', s') \<Longrightarrow>
     cpu_usage_percent r' = cpu_usage_percent r \<and> cpu_load_1 r' = cpu_load_1 r \<and>
     cpu_load_5 r' = cpu_load_5 r \<and> cpu_load_15 r' = cpu_load_15 r \<and>
     cpu_temperature_c r' = cpu_temperature_c r"
proof -
  have "frequency_loop env ps r es s = (r', es', s') \<Longrightarrow>
     cpu_usage_percent r' = cpu_usage_percent r \<and> cpu_load_1 r' = cpu_load_1 r \<and>
     cpu_load_5 r' = cpu_load_5 r \<and> cpu_load_15 r' = cpu_load_15 r \<and>
     cpu_temperature_c r' = cpu_temperature_c r" for ps
    by (induction ps arbitrary: s) (auto split: prod.splits sum.splits IoError.splits)
  then show "collect_frequency env r es s = (r', es', s') \<Longrightarrow> ?thesis"
    by (simp add: collect_frequency_def)
qed

lemma collect_memory_frame:
  "collect_memory env r es s = (r', es', s') \<Longrightarrow>
     rd_uptime_seconds r' = rd_uptime_seconds r \<and> rd_cpu r' = rd_cpu r \<and> rd_disk r' = rd_disk r \<and>
     rd_power r' = rd_power r"
  by (auto simp: collect_memory_def split: prod.splits option.splits)

lemma collect_uptime_frame:
  "collect_uptime env r es s = (r', es', s') \<Longrightarrow>
     rd_memory r' = rd_memory r \<and> rd_swap r' = rd_swap r \<and> rd_cpu r' = rd_cpu r \<and>
     rd_disk r' = rd_disk r \<and> rd_power r' = rd_power r"
  by (auto simp: collect_uptime_def split: prod.splits option.splits)


section \<open>Properties of a cycle\<close>

text \<open>The metrics a cycle can report, in the order of collection.\<close>

definition collector_metrics :: "rstr list" where
  "collector_metrics =
     [lit ''cpu.usage_percent'', lit ''cpu.load_average'', lit ''cpu.temperature_c'',
      lit ''cpu.frequency_mhz'', lit ''memory'', lit ''uptime_seconds'', lit ''disk'', lit ''power'']"

definition error_metrics :: "'dt TelemetryState \<Rightarrow> rstr set" where
  "error_metrics st = set (map ce_metric (h_collector_errors (st_health st)))"

lemma collect_errors:
  assumes "collect env c s = (st, c1, s11)"
  obtains bu bf where
    "map ce_metric (h_collector_errors (st_health st)) =
       map snd (filter (\<lambda>(ok, m). \<not> ok)
         (zip [bu, cpu_load_1 (st_cpu st) \<noteq> None, cpu_temperature_c (st_cpu st) \<noteq> None, bf,
               mem_total_bytes (st_memory st) \<noteq> None, st_uptime_seconds st \<noteq> None,
               disk_total_bytes (st_disk st) \<noteq> None, pw_undervoltage_now (st_power st) \<noteq> None]
            collector_metrics))"
    "if bu then usage_between env (co_previous_cpu c) (co_previous_cpu c1) (cpu_usage_percent (st_cpu st))
     else cpu_usage_percent (st_cpu st) = None"
    "if bf then frequency_read env (cpu_frequency_mhz (st_cpu st))
     else cpu_frequency_mhz (st_cpu st) = None"
    "(cpu_load_5 (st_cpu st) = None) = (cpu_load_1 (st_cpu st) = None)"
    "(cpu_load_15 (st_cpu st) = None) = (cpu_load_1 (st_cpu st) = None)"
    "list_all (\<lambda>b. b = (mem_total_bytes (st_memory st) = None))
       [mem_available_bytes (st_memory st) = None, mem_used_bytes (st_memory st) = None,
        mem_used_percent (st_memory st) = None, swap_total_bytes (st_swap st) = None,
        swap_used_bytes (st_swap st) = None, swap_used_percent (st_swap st) = None]"
    "list_all (\<lambda>b. b = (disk_total_bytes (st_disk st) = None))
       [disk_available_bytes (st_disk st) = None, disk_used_bytes (st_disk st) = None,
        disk_used_percent (st_disk st) = None]"
    "list_all (\<lambda>f. (f = None) = (pw_undervoltage_now (st_power st) = None))
       [pw_arm_frequency_capped_now (st_power st), pw_throttled_now (st_power st),
        pw_soft_temperature_limit_now (st_power st), pw_undervoltage_since_boot (st_power st),
        pw_arm_frequency_capped_since_boot (st_power st), pw_throttled_since_boot (st_power st),
        pw_soft_temperature_limit_since_boot (st_power st)]"
    "(pw_throttled_raw (st_power st) = None) = (pw_undervoltage_now (st_power st) = None)"
    "health_consistent st" "st_schema_version st = SCHEMA_VERSION"
proof (rule collect_steps [OF assms])
  fix started s1 observed_at s2 usage e1 s3 cpu2 e2 s4 cpu3 e3 s5 cpu4 e4 s6 r5 e5 s7 r6 e6 s8
    disk e7 s9 pw e8 s10 finished
  let ?r0 = "(TelemetryReadings_unavailable (co_root_filesystem c))\<lparr>rd_cpu := cpu4\<rparr>"
  assume u: "collect_cpu_usage env c [] s2 = (usage, c1, e1, s3)"
    and l: "collect_load_average env (CpuMetrics_default\<lparr>cpu_usage_percent := usage\<rparr>) e1 s3 = (cpu2, e2, s4)"
    and t: "collect_temperature env c1 cpu2 e2 s4 = (cpu3, e3, s5)"
    and f: "collect_frequency env cpu3 e3 s5 = (cpu4, e4, s6)"
    and m: "collect_memory env ?r0 e4 s6 = (r5, e5, s7)"
    and up: "collect_uptime env r5 e5 s7 = (r6, e6, s8)"
    and d: "collect_disk env c1 (rd_disk r6) e6 s8 = (disk, e7, s9)"
    and p: "collect_power env c1 (rd_power r6) e7 s9 = (pw, e8, s10)"
    and st: "st = TelemetryState_new observed_at (r6\<lparr>rd_disk := disk, rd_power := pw\<rparr>) e8
       (duration_ms (finished - started))"
  note frames = collect_load_frame [OF l] collect_temperature_frame [OF t]
    collect_frequency_frame [OF f] collect_memory_frame [OF m] collect_uptime_frame [OF up]
  obtain bu where bu: "map ce_metric e1 = (if bu then [] else [lit ''cpu.usage_percent''])"
    "if bu then usage_between env (co_previous_cpu c) (co_previous_cpu c1) usage else usage = None"
  proof (cases "e1 = []")
    case True
    then show thesis using collect_cpu_usage_between u by (intro that [of True]) simp_all
  next
    case False
    then show thesis
      using collect_cpu_usage_outcome(1) [OF u] by (intro that [of False]) simp_all
  qed
  have L: "(map ce_metric e2 = map ce_metric e1 @
      (if cpu_load_1 cpu2 \<noteq> None then [] else [lit ''cpu.load_average''])) \<and>
    ((cpu_load_5 cpu2 = None) = (cpu_load_1 cpu2 = None)) \<and>
    ((cpu_load_15 cpu2 = None) = (cpu_load_1 cpu2 = None))"
    by (cases rule: load.reported [OF l], auto simp: CpuMetrics_default_def)
  have T: "map ce_metric e3 = map ce_metric e2 @
      (if cpu_temperature_c cpu3 \<noteq> None then [] else [lit ''cpu.temperature_c''])"
    by (cases rule: temperature.reported [OF t]) (use frames in \<open>auto simp: CpuMetrics_default_def\<close>)
  obtain bf where F: "map ce_metric e4 = map ce_metric e3 @ (if bf then [] else [lit ''cpu.frequency_mhz''])"
    "if bf then frequency_read env (cpu_frequency_mhz cpu4) else cpu4 = cpu3"
  proof (cases "e4 = e3")
    case True
    then have "frequency_read env (cpu_frequency_mhz cpu4)"
      using f frames by (intro collect_frequency_read) (auto simp: CpuMetrics_default_def)
    then show thesis using True by (intro that [of True]) simp_all
  next
    case False
    then show thesis using frequency.outcome [OF f] by (intro that [of False]) simp_all
  qed
  have M: "(map ce_metric e5 = map ce_metric e4 @
      (if mem_total_bytes (rd_memory r5) \<noteq> None then [] else [lit ''memory''])) \<and>
    (list_all (\<lambda>b. b = (mem_total_bytes (rd_memory r5) = None))
       [mem_available_bytes (rd_memory r5) = None, mem_used_bytes (rd_memory r5) = None,
        mem_used_percent (rd_memory r5) = None, swap_total_bytes (rd_swap r5) = None,
        swap_used_bytes (rd_swap r5) = None, swap_used_percent (rd_swap r5) = None])"
    by (cases rule: memory.reported [OF m], auto simp: TelemetryReadings_unavailable_def
        MemoryMetrics_default_def SwapMetrics_default_def)
  have U: "map ce_metric e6 = map ce_metric e5 @
      (if rd_uptime_seconds r6 \<noteq> None then [] else [lit ''uptime_seconds''])"
    by (cases rule: uptime.reported [OF up])
      (use frames in \<open>auto simp: TelemetryReadings_unavailable_def\<close>)
  have D: "(map ce_metric e7 = map ce_metric e6 @
      (if disk_total_bytes disk \<noteq> None then [] else [lit ''disk''])) \<and>
    (list_all (\<lambda>b. b = (disk_total_bytes disk = None))
       [disk_available_bytes disk = None, disk_used_bytes disk = None, disk_used_percent disk = None])"
    by (cases rule: disk.reported [OF d], use frames in \<open>auto simp:
        TelemetryReadings_unavailable_def DiskMetrics_unavailable_def\<close>)
  have P: "(map ce_metric e8 = map ce_metric e7 @
      (if pw_undervoltage_now pw \<noteq> None then [] else [lit ''power''])) \<and>
    (list_all (\<lambda>f. (f = None) = (pw_undervoltage_now pw = None))
       [pw_arm_frequency_capped_now pw, pw_throttled_now pw,
        pw_soft_temperature_limit_now pw, pw_undervoltage_since_boot pw,
        pw_arm_frequency_capped_since_boot pw, pw_throttled_since_boot pw,
        pw_soft_temperature_limit_since_boot pw]) \<and>
    (pw_throttled_raw pw = None) = (pw_undervoltage_now pw = None)"
    by (cases rule: power.reported [OF p], use frames in \<open>auto simp:
        TelemetryReadings_unavailable_def PowerMetrics_default_def\<close>)
  have cpu: "st_cpu st = cpu4" "cpu_load_1 cpu4 = cpu_load_1 cpu2" "cpu_load_5 cpu4 = cpu_load_5 cpu2"
      "cpu_load_15 cpu4 = cpu_load_15 cpu2" "cpu_temperature_c cpu4 = cpu_temperature_c cpu3"
      "cpu_usage_percent cpu4 = usage" "cpu_frequency_mhz cpu3 = None"
    and parts: "st_memory st = rd_memory r5" "st_swap st = rd_swap r5"
      "st_uptime_seconds st = rd_uptime_seconds r6" "st_disk st = disk" "st_power st = pw"
      "h_collector_errors (st_health st) = e8" "st_schema_version st = SCHEMA_VERSION"
    using frames by (simp_all add: st TelemetryState_new_def CpuMetrics_default_def Health_evaluate_def)
  show thesis
  proof (rule that [of bu bf])
    show "map ce_metric (h_collector_errors (st_health st)) =
       map snd (filter (\<lambda>(ok, m). \<not> ok)
         (zip [bu, cpu_load_1 (st_cpu st) \<noteq> None, cpu_temperature_c (st_cpu st) \<noteq> None, bf,
               mem_total_bytes (st_memory st) \<noteq> None, st_uptime_seconds st \<noteq> None,
               disk_total_bytes (st_disk st) \<noteq> None, pw_undervoltage_now (st_power st) \<noteq> None]
            collector_metrics))"
      unfolding parts cpu P [THEN conjunct1] D [THEN conjunct1] U M [THEN conjunct1] F(1) T
        L [THEN conjunct1] bu(1) collector_metrics_def
      by (simp del: not_None_eq)
    show "health_consistent st" unfolding st by (simp add: health_consistent_iff TelemetryState_new_def
          Health_evaluate_def)
  qed (use bu(2) F(2) L M D P cpu parts in \<open>simp_all split: if_splits\<close>)
qed


text \<open>A section of the payload is missing as a whole or present as a whole.\<close>

definition all_or_nothing :: "bool \<Rightarrow> bool list \<Rightarrow> bool" where
  "all_or_nothing missing parts \<longleftrightarrow> list_all (\<lambda>b. b = missing) parts"

text \<open>
  C7. Every cycle accounts for its nulls: whatever the sources do, each of the eight metrics is
  reported at most once, among fixed names.  Load averages, temperature, memory and swap, uptime, disk
  and power (the raw mask included) are \<open>null\<close>, each section as a whole, exactly when an error for
  them is listed.  CPU usage and frequency are \<open>null\<close> when an error for them is listed; without an
  error, the usage is that between the previous sample, or a first one read in this cycle, and the one
  the collector keeps, and it is \<open>null\<close> only if no counter moved between them; the frequency is the
  parsed content of one of its two files, and \<open>null\<close> only if both are absent.  The health status
  follows the contract.\<close>

theorem collect_explains_nulls:
  "(let (st, c', s') = collect env c s; E = error_metrics st; cpu = st_cpu st; mem = st_memory st;
        swap = st_swap st; disk = st_disk st; p = st_power st
    in distinct (map ce_metric (h_collector_errors (st_health st))) \<and> E \<subseteq> set collector_metrics \<and>
       all_or_nothing (lit ''cpu.load_average'' \<in> E)
         [cpu_load_1 cpu = None, cpu_load_5 cpu = None, cpu_load_15 cpu = None] \<and>
       all_or_nothing (lit ''cpu.temperature_c'' \<in> E) [cpu_temperature_c cpu = None] \<and>
       all_or_nothing (lit ''memory'' \<in> E)
         [mem_total_bytes mem = None, mem_available_bytes mem = None, mem_used_bytes mem = None,
          mem_used_percent mem = None, swap_total_bytes swap = None, swap_used_bytes swap = None,
          swap_used_percent swap = None] \<and>
       all_or_nothing (lit ''uptime_seconds'' \<in> E) [st_uptime_seconds st = None] \<and>
       all_or_nothing (lit ''disk'' \<in> E)
         [disk_total_bytes disk = None, disk_available_bytes disk = None,
          disk_used_bytes disk = None, disk_used_percent disk = None] \<and>
       all_or_nothing (lit ''power'' \<in> E)
         [pw_throttled_raw p = None, pw_undervoltage_now p = None, pw_arm_frequency_capped_now p = None,
          pw_throttled_now p = None, pw_soft_temperature_limit_now p = None,
          pw_undervoltage_since_boot p = None, pw_arm_frequency_capped_since_boot p = None,
          pw_throttled_since_boot p = None, pw_soft_temperature_limit_since_boot p = None] \<and>
       (if lit ''cpu.usage_percent'' \<in> E then cpu_usage_percent cpu = None
        else usage_between env (co_previous_cpu c) (co_previous_cpu c') (cpu_usage_percent cpu)) \<and>
       (if lit ''cpu.frequency_mhz'' \<in> E then cpu_frequency_mhz cpu = None
        else frequency_read env (cpu_frequency_mhz cpu)) \<and>
       health_consistent st)"
proof -
  obtain st c1 s11 where run: "collect env c s = (st, c1, s11)" by (cases "collect env c s")
  show ?thesis
  proof (rule collect_errors [OF run])
    fix bu bf
    let ?bs = "[bu, cpu_load_1 (st_cpu st) \<noteq> None, cpu_temperature_c (st_cpu st) \<noteq> None, bf,
               mem_total_bytes (st_memory st) \<noteq> None, st_uptime_seconds st \<noteq> None,
               disk_total_bytes (st_disk st) \<noteq> None, pw_undervoltage_now (st_power st) \<noteq> None]"
    assume errs: "map ce_metric (h_collector_errors (st_health st)) =
        map snd (filter (\<lambda>(ok, m). \<not> ok) (zip ?bs collector_metrics))"
      and cpu: "if bu then usage_between env (co_previous_cpu c) (co_previous_cpu c1)
            (cpu_usage_percent (st_cpu st)) else cpu_usage_percent (st_cpu st) = None"
        "if bf then frequency_read env (cpu_frequency_mhz (st_cpu st))
         else cpu_frequency_mhz (st_cpu st) = None"
      and rest:
        "(cpu_load_5 (st_cpu st) = None) = (cpu_load_1 (st_cpu st) = None)"
        "(cpu_load_15 (st_cpu st) = None) = (cpu_load_1 (st_cpu st) = None)"
        "list_all (\<lambda>b. b = (mem_total_bytes (st_memory st) = None))
           [mem_available_bytes (st_memory st) = None, mem_used_bytes (st_memory st) = None,
            mem_used_percent (st_memory st) = None, swap_total_bytes (st_swap st) = None,
            swap_used_bytes (st_swap st) = None, swap_used_percent (st_swap st) = None]"
        "list_all (\<lambda>b. b = (disk_total_bytes (st_disk st) = None))
           [disk_available_bytes (st_disk st) = None, disk_used_bytes (st_disk st) = None,
            disk_used_percent (st_disk st) = None]"
        "list_all (\<lambda>f. (f = None) = (pw_undervoltage_now (st_power st) = None))
           [pw_arm_frequency_capped_now (st_power st), pw_throttled_now (st_power st),
            pw_soft_temperature_limit_now (st_power st), pw_undervoltage_since_boot (st_power st),
            pw_arm_frequency_capped_since_boot (st_power st), pw_throttled_since_boot (st_power st),
            pw_soft_temperature_limit_since_boot (st_power st)]"
        "(pw_throttled_raw (st_power st) = None) = (pw_undervoltage_now (st_power st) = None)"
      and health: "health_consistent st"
    have distinct: "distinct (map snd (zip ?bs collector_metrics))"
      by (simp add: collector_metrics_def)
    then have d: "distinct (map ce_metric (h_collector_errors (st_health st)))"
      unfolding errs by (rule distinct_map_filter)
    have mem: "m \<in> error_metrics st \<longleftrightarrow> (False, m) \<in> set (zip ?bs collector_metrics)" for m
      unfolding error_metrics_def errs by force
    have sub: "error_metrics st \<subseteq> set collector_metrics"
      unfolding error_metrics_def errs by (auto dest: set_zip_rightD)
    show ?thesis
      unfolding run fst_conv Let_def prod.case
      by (intro conjI d sub health)
        (use cpu rest in \<open>simp_all add: mem all_or_nothing_def collector_metrics_def split: if_splits\<close>)
  qed
qed



section \<open>What a cycle publishes\<close>

lemma publishable_None [simp]: "publishable (None, d)"
  by (simp add: publishable_def)

lemma publishable_percentage:
  assumes "unat u \<le> unat t"
  shows "publishable (Some (mem_percentage u t), 1)"
  using mem_percentage_published [OF assms] serialize_optional_ok_iff [of 1]
  by (auto simp: serialize_optional_one_decimal_def)

lemma publishable_usage:
  assumes "usage_percent p c = Inr x"
  shows "publishable (x, 1)"
proof (cases "cpu_delta_sum p c = 0")
  case True
  then show ?thesis using usage_percent_ok(3) [OF assms] by simp
next
  case False
  then have "\<exists>r. serialize_optional_one_decimal x = Inr (JF64 (F64_Fin False r))"
    using usage_percent_ok [OF assms]
      serialize_percentage [of "cpu_delta_sum p c - cpu_idle_sum p c" "cpu_delta_sum p c"] by auto
  then show ?thesis
    using serialize_optional_ok_iff [of 1 x] by (auto simp: serialize_optional_one_decimal_def)
qed

lemma publishable_bounded:
  "0 \<le> m \<Longrightarrow> m \<le> pow2 1000 \<Longrightarrow> d = 1 \<or> d = 2 \<Longrightarrow> publishable (Some (F64_Fin s m), d)"
  using rounded_metric_fin [of m d s] by (auto simp: publishable_def)

lemma publishable_thousandth:
  assumes "n < 2 ^ 64"
  shows "publishable (Some (f64_div (f64_of_nat n) (f64_lit 1000)), 1)"
proof -
  have "(of_nat n :: rat) \<le> of_nat (2 ^ 64)" using assms by (intro of_nat_mono) simp
  then have "fl (of_nat n) \<le> fl (pow2 64)" by (intro fl_mono) (simp_all add: pow2_def)
  then have lt: "fl (of_nat n) / 1000 \<le> pow2 64 / 1000"
    by (intro divide_right_mono) (simp_all add: fl_pow2_exact)
  have nn: "0 \<le> fl (of_nat n) / (1000 :: rat)" by (simp add: fl_nonneg)
  have "fl (of_nat n) / 1000 \<le> pow2 64" using lt pow2_pos [of 64] by linarith
  then have le: "fl (fl (of_nat n) / 1000) \<le> pow2 64"
    using fl_mono [OF nn, of "pow2 64"] fl_pow2_exact [of 64] by simp
  have "f64_div (f64_of_nat n) (f64_lit 1000) = F64_Fin False (fl (fl (of_nat n) / 1000))"
    using nn \<open>fl (of_nat n) / 1000 \<le> pow2 64\<close> pow2_64_le(1)
    by (simp add: f64_of_nat_fin [OF assms] f64_lit_1000 mk_f64_fin)
  moreover have "fl (fl (of_nat n) / 1000) \<le> pow2 1000"
    using le pow2_mono [of 64 1000] by simp
  ultimately show ?thesis using nn by (simp add: publishable_bounded fl_nonneg)
qed

lemma publishable_frequency:
  assumes "parse_frequency_khz input = Inr v"
  shows "publishable (Some v, 1)"
proof -
  obtain k :: u64 where "v = f64_div (f64_of_nat (unat k)) (f64_lit 1000)"
    using assms by (auto simp: parse_frequency_khz_def Let_def result_iff split: if_splits)
  then show ?thesis using publishable_thousandth [OF u64_bound] by simp
qed

lemma collect_cpu_usage_publishable:
  assumes "collect_cpu_usage env c es s = (v, c', es', s')"
  shows "publishable (v, 1)"
  using assms publishable_usage
  by (auto simp: collect_cpu_usage_def cpu_usage_since_def Let_def
      split: option.splits prod.splits sum.splits)

lemma collect_frequency_publishable:
  assumes "collect_frequency env r es s = (r', es', s')" "cpu_frequency_mhz r = None"
  shows "publishable (cpu_frequency_mhz r', 1)"
proof -
  have "frequency_loop env ps r es s = (r', es', s') \<Longrightarrow> publishable (cpu_frequency_mhz r', 1)" for ps
    using assms(2)
    by (induction ps arbitrary: s)
      (auto split: prod.splits sum.splits IoError.splits dest: publishable_frequency)
  then show ?thesis using assms(1) by (simp add: collect_frequency_def)
qed

lemma collect_memory_publishable:
  assumes "collect_memory env r es s = (r', es', s')"
    "mem_used_percent (rd_memory r) = None" "swap_used_percent (rd_swap r) = None"
  shows "publishable (mem_used_percent (rd_memory r'), 1)"
    and "publishable (swap_used_percent (rd_swap r'), 1)"
proof -
  have "parse_meminfo input = Inr m \<Longrightarrow> publishable (Some (mi_used_percent m), 1) \<and>
      publishable (Some (mi_swap_used_percent m), 1)" for input m
  proof -
    assume "parse_meminfo input = Inr m"
    then obtain vs where "meminfo_metrics vs = Inr m" by (auto simp: parse_meminfo_def result_iff)
    then show ?thesis
    proof (rule meminfo_metrics_ok)
      assume eqs: "unat (mi_used_bytes m) + unat (mi_available_bytes m) = unat (mi_total_bytes m)"
        "unat (mi_swap_used_bytes m) + unat (mi_swap_free_bytes m) = unat (mi_swap_total_bytes m)"
        and vals: "mi_used_percent m = mem_percentage (mi_used_bytes m) (mi_total_bytes m)"
        "mi_swap_used_percent m = mem_percentage (mi_swap_used_bytes m) (mi_swap_total_bytes m)"
      show ?thesis
        unfolding vals by (intro conjI publishable_percentage; use eqs in linarith)
    qed
  qed
  then show "publishable (mem_used_percent (rd_memory r'), 1)"
    "publishable (swap_used_percent (rd_swap r'), 1)"
    using assms by (auto simp: collect_memory_def read_parsed_def ok_eq_Some
        split: prod.splits option.splits sum.splits)
qed

lemma collect_disk_publishable:
  assumes "collect_disk env c r es s = (r', es', s')" "disk_used_percent r = None"
  shows "publishable (disk_used_percent r', 1)"
proof -
  have "calculate_disk_metrics m v = Inr d \<Longrightarrow> publishable (disk_used_percent d, 1)" for m v d
    by (auto simp: calculate_disk_metrics_ok simp del: One_nat_def intro!: publishable_percentage)
  then show ?thesis
    using assms by (auto simp: collect_disk_def result_iff map_err_eq_Inr split: prod.splits sum.splits)
qed

text \<open>
  C22. The payload of a cycle serializes exactly when the \<open>time\<close> crate formats its timestamp and its
  three load averages and its temperature stay finite when they are rounded; a value that is \<open>null\<close>
  always does.  CPU usage, frequency, memory, swap and disk values, whatever the files held, never
  stand in the way.\<close>

theorem collect_publishable:
  "(let st = fst (collect env c s) in
    (\<exists>j. TelemetryState_serialize lib st = Inr j) \<longleftrightarrow>
      (\<exists>t. tl_format lib (as_datetime (st_observed_at st)) = Inr t) \<and>
      list_all publishable
        [(cpu_load_1 (st_cpu st), 2), (cpu_load_5 (st_cpu st), 2), (cpu_load_15 (st_cpu st), 2),
         (cpu_temperature_c (st_cpu st), 1)])"
proof -
  obtain st c1 s11 where run: "collect env c s = (st, c1, s11)" by (cases "collect env c s")
  have "publishable (cpu_usage_percent (st_cpu st), 1) \<and>
        publishable (cpu_frequency_mhz (st_cpu st), 1) \<and>
        publishable (mem_used_percent (st_memory st), 1) \<and>
        publishable (swap_used_percent (st_swap st), 1) \<and>
        publishable (disk_used_percent (st_disk st), 1)"
  proof (rule collect_steps [OF run])
    fix started s1 observed_at s2 usage e1 s3 cpu2 e2 s4 cpu3 e3 s5 cpu4 e4 s6 r5 e5 s7 r6 e6 s8
      disk e7 s9 pw e8 s10 finished
    let ?r0 = "(TelemetryReadings_unavailable (co_root_filesystem c))\<lparr>rd_cpu := cpu4\<rparr>"
    assume u: "collect_cpu_usage env c [] s2 = (usage, c1, e1, s3)"
      and l: "collect_load_average env (CpuMetrics_default\<lparr>cpu_usage_percent := usage\<rparr>) e1 s3 = (cpu2, e2, s4)"
      and t: "collect_temperature env c1 cpu2 e2 s4 = (cpu3, e3, s5)"
      and f: "collect_frequency env cpu3 e3 s5 = (cpu4, e4, s6)"
      and m: "collect_memory env ?r0 e4 s6 = (r5, e5, s7)"
      and up: "collect_uptime env r5 e5 s7 = (r6, e6, s8)"
      and d: "collect_disk env c1 (rd_disk r6) e6 s8 = (disk, e7, s9)"
      and st: "st = TelemetryState_new observed_at (r6\<lparr>rd_disk := disk, rd_power := pw\<rparr>) e8
         (duration_ms (finished - started))"
    note frames = collect_load_frame [OF l] collect_temperature_frame [OF t]
      collect_frequency_frame [OF f] collect_memory_frame [OF m] collect_uptime_frame [OF up]
    note none = CpuMetrics_default_def TelemetryReadings_unavailable_def MemoryMetrics_default_def
      SwapMetrics_default_def DiskMetrics_unavailable_def
    have "publishable (usage, 1)" by (rule collect_cpu_usage_publishable [OF u])
    moreover have "publishable (cpu_frequency_mhz cpu4, 1)"
      by (rule collect_frequency_publishable [OF f]) (use frames in \<open>simp add: none\<close>)
    moreover have "publishable (mem_used_percent (rd_memory r5), 1)"
        "publishable (swap_used_percent (rd_swap r5), 1)"
      by (rule collect_memory_publishable [OF m]; simp add: none; fail)+
    moreover have "publishable (disk_used_percent disk, 1)"
      by (rule collect_disk_publishable [OF d]) (use frames in \<open>simp add: none\<close>)
    ultimately show "publishable (cpu_usage_percent (st_cpu st), 1) \<and>
        publishable (cpu_frequency_mhz (st_cpu st), 1) \<and>
        publishable (mem_used_percent (st_memory st), 1) \<and>
        publishable (swap_used_percent (st_swap st), 1) \<and>
        publishable (disk_used_percent (st_disk st), 1)"
      using frames by (simp add: st TelemetryState_new_def none)
  qed
  then show ?thesis
    by (simp add: run payload_ok_iff payload_floats_def)
qed


text \<open>
  The firmware command is the first candidate that exists: on a file system whose files are those that
  satisfy \<open>P\<close>, \<open>resolve_vcgencmd\<close> gives the configured path if it is a file, otherwise the first
  standard path that is one, and fails only if there is none.\<close>

theorem resolve_vcgencmd_first:
  "resolve_vcgencmd (env\<lparr>env_is_file := \<lambda>p s. (P p, s)\<rparr>) configured s =
     (ok_or (find_first P (configured # STANDARD_VCGENCMD_PATHS)) FirmwareCommandUnavailable, s)"
proof -
  have "find_vcgencmd (env\<lparr>env_is_file := \<lambda>p s. (P p, s)\<rparr>) configured ps s =
      (find_first P (filter (\<lambda>p. p \<noteq> configured) ps), s)" for ps
    by (induction ps) auto
  moreover have "\<not> P configured \<Longrightarrow>
      find_first P (filter (\<lambda>p. p \<noteq> configured) ps) = find_first P ps" for ps
    by (induction ps) auto
  ultimately show ?thesis
    by (simp add: resolve_vcgencmd_def ok_or_def)
qed

end
