(* ===== verification/Daemon.thy ===== *)
theory Daemon
  imports Mqtt_Supervisor Collector
begin

text \<open>
  \<open>src/daemon.rs\<close>: the collection worker, the scheduler, and the life cycle of the service.  Tasks,
  watched slots, timers and signals are the asynchronous runtime's; \<open>WorkerEnv\<close>, \<open>SchedulerEnv\<close> and
  \<open>ServiceEnv\<close> hold the calls the source makes on them, each as a function on the state of the world.
\<close>

definition MAX_BLOCKING_THREADS :: nat where "MAX_BLOCKING_THREADS = 2"
definition COLLECTOR_DRAIN_TIMEOUT :: duration where "COLLECTOR_DRAIN_TIMEOUT = from_secs 1"
definition RUNTIME_SHUTDOWN_TIMEOUT :: duration where "RUNTIME_SHUTDOWN_TIMEOUT = from_secs 1"
definition SERVICE_MANAGER_STOP_BUDGET :: duration where
  "SERVICE_MANAGER_STOP_BUDGET = from_secs 10"
definition BUSY_WARNING_INTERVAL :: duration where "BUSY_WARNING_INTERVAL = from_secs 60"

text \<open>The assertion the source makes when it is compiled.\<close>

definition shutdown_budget_assertion :: bool where
  "shutdown_budget_assertion \<longleftrightarrow>
     as_secs GRACEFUL_SHUTDOWN_TIMEOUT + as_secs COLLECTOR_DRAIN_TIMEOUT +
     as_secs RUNTIME_SHUTDOWN_TIMEOUT < as_secs SERVICE_MANAGER_STOP_BUDGET"

lemma shutdown_fits_budget: "shutdown_budget_assertion"
  by (simp add: shutdown_budget_assertion_def GRACEFUL_SHUTDOWN_TIMEOUT_def COLLECTOR_DRAIN_TIMEOUT_def
      RUNTIME_SHUTDOWN_TIMEOUT_def SERVICE_MANAGER_STOP_BUDGET_def from_secs_def as_secs_def)

text \<open>The sources of I/O and serialization failures are their messages.\<close>

datatype DaemonError =
    RuntimeInitialization rstr
  | CollectorInitialization CollectorInitError
  | DiscoverySerialization rstr
  | StateSerialization rstr
  | SignalHandling rstr
  | DaemonMqtt MqttError
  | TaskStopped rstr
  | TaskFailed rstr

fun DaemonError_display :: "DaemonError \<Rightarrow> rstr" where
  "DaemonError_display (RuntimeInitialization _) =
     lit ''the asynchronous runtime could not be initialized''"
| "DaemonError_display (CollectorInitialization _) =
     lit ''the telemetry collector could not be initialized''"
| "DaemonError_display (DiscoverySerialization _) =
     lit ''the discovery document could not be serialized''"
| "DaemonError_display (StateSerialization _) = lit ''a telemetry state could not be serialized''"
| "DaemonError_display (SignalHandling _) = lit ''the shutdown signal handler failed''"
| "DaemonError_display (DaemonMqtt _) =
     lit ''the MQTT supervisor encountered an unrecoverable control failure''"
| "DaemonError_display (TaskStopped task) = lit ''the '' @ task @ lit '' task stopped unexpectedly''"
| "DaemonError_display (TaskFailed task) = lit ''the '' @ task @ lit '' task failed''"


section \<open>The discovery message of the service\<close>

definition discovery_settings :: "Config \<Rightarrow> DeviceMetadata \<Rightarrow> DiscoverySettings" where
  "discovery_settings config metadata =
     (let s0 = DiscoverySettings_new (dc_id (cfg_device config)) (dc_name (cfg_device config))
                 (mc_base_topic (cfg_mqtt config)) (mc_discovery_prefix (cfg_mqtt config))
                 (cc_interval (cfg_collector config));
          s1 = (case dv_model metadata of Some model \<Rightarrow> with_model model s0 | None \<Rightarrow> s0);
          s2 = (case dv_serial_number metadata of
                  Some serial \<Rightarrow> with_serial_number serial s1 | None \<Rightarrow> s1)
      in case dv_board_revision metadata of
           Some revision \<Rightarrow> with_hardware_version revision s2 | None \<Rightarrow> s2)"

definition discovery_message ::
  "(json \<Rightarrow> rstr + rstr) \<Rightarrow> Config \<Rightarrow> Collector \<Rightarrow> DaemonError + DiscoveryMessage" where
  "discovery_message to_string config collector =
     map_err DiscoverySerialization
       (build_discovery_message to_string (discovery_settings config (co_metadata collector)))"


section \<open>The collection worker\<close>

text \<open>
  The watched slots and the busy flag.  \<open>wk_changed\<close> waits for a new request and is false once every
  sender is gone; \<open>wk_request\<close> reads the newest one and marks it as seen.
\<close>

record 's WorkerEnv =
  wk_changed :: "'s \<Rightarrow> bool \<times> 's"
  wk_request :: "'s \<Rightarrow> u64 \<times> 's"
  wk_set_busy :: "bool \<Rightarrow> 's \<Rightarrow> 's"
  wk_send_state :: "StateMessage \<Rightarrow> 's \<Rightarrow> 's"

text \<open>\<open>SnapshotCollector\<close>: a collector is its state and the method \<open>collect_payload\<close>.\<close>

type_synonym ('c, 's) snapshot_collector = "'c \<Rightarrow> 's \<Rightarrow> (DaemonError + nat list) \<times> 'c \<times> 's"

definition collect_payload ::
  "(json \<Rightarrow> rstr + nat list) \<Rightarrow> 'dt TimeLib \<Rightarrow> ('s, 'dt) Env \<Rightarrow> (Collector, 's) snapshot_collector"
where
  "collect_payload to_vec lib env c s =
     (case collect env c s of (state, c1, s1) \<Rightarrow>
        (map_err StateSerialization (and_then (TelemetryState_serialize lib state) to_vec), c1, s1))"

text \<open>One request: the body of the worker's loop.\<close>

definition serve_request ::
  "'s WorkerEnv \<Rightarrow> ('c, 's) snapshot_collector \<Rightarrow> 'c \<Rightarrow> 's \<Rightarrow> (DaemonError + unit) \<times> 'c \<times> 's" where
  "serve_request env collector c s =
     (case wk_request env s of (request_id, s1) \<Rightarrow>
        if request_id = 0 then (Inr (), c, s1)
        else
          (case collector c (wk_set_busy env True s1) of
             (Inl e, c1, s2) \<Rightarrow> (Inl e, c1, wk_set_busy env False s2)
           | (Inr payload, c1, s2) \<Rightarrow>
               (Inr (), c1,
                wk_set_busy env False (wk_send_state env (StateMessage_new request_id payload) s2))))"

partial_function (option) collection_worker ::
  "'s WorkerEnv \<Rightarrow> ('c, 's) snapshot_collector \<Rightarrow> 'c \<Rightarrow> 's \<Rightarrow> ((DaemonError + unit) \<times> 's) option" where
  "collection_worker env collector c s =
     (case wk_changed env s of (alive, s1) \<Rightarrow>
        if \<not> alive then Some (Inr (), s1)
        else
          (case serve_request env collector c s1 of
             (Inl e, _, s2) \<Rightarrow> Some (Inl e, s2)
           | (Inr _, c1, s2) \<Rightarrow> collection_worker env collector c1 s2))"


section \<open>The scheduler\<close>

text \<open>
  \<open>sc_wait\<close> is the \<open>select!\<close> of the loop: a tick of the interval, or a change of the shutdown slot
  (false when its sender is gone).
\<close>

datatype SchedulerBranch = Tick | SchedulerShutdownChanged bool

text \<open>The interval as the source asks the runtime for it; \<open>interval_at\<close> panics on an empty period.\<close>

datatype MissedTickBehavior = Burst | Delay | Skip

record Interval =
  iv_start :: nat
  iv_period :: duration
  iv_missed_tick_behavior :: MissedTickBehavior

definition collection_interval :: "nat \<Rightarrow> duration \<Rightarrow> Interval option" where
  "collection_interval now period =
     (if period = 0 then None
      else Some \<lparr>iv_start = now + period, iv_period = period, iv_missed_tick_behavior = Skip\<rparr>)"

record 's SchedulerEnv =
  sc_shutdown_requested :: "'s \<Rightarrow> bool \<times> 's"
  sc_start_interval :: "Interval \<Rightarrow> 's \<Rightarrow> 's"
  sc_wait :: "'s \<Rightarrow> SchedulerBranch \<times> 's"
  sc_busy :: "'s \<Rightarrow> bool \<times> 's"
  sc_now :: "'s \<Rightarrow> nat \<times> 's"
  sc_request_modify :: "(u64 \<Rightarrow> u64 \<times> u64) \<Rightarrow> 's \<Rightarrow> u64 \<times> 's"
  sc_warn :: "nat \<Rightarrow> 's \<Rightarrow> 's"

text \<open>The tick of the interval; the accumulator is \<open>last_busy_warning\<close>.\<close>

definition scheduler_tick ::
  "'s SchedulerEnv \<Rightarrow> nat option \<Rightarrow> 's \<Rightarrow> nat option \<times> 's" where
  "scheduler_tick env last_busy_warning s =
     (case sc_busy env s of (busy, s1) \<Rightarrow>
        if busy then
          (case sc_now env s1 of (now, s2) \<Rightarrow>
             if (case last_busy_warning of
                   None \<Rightarrow> True | Some earlier \<Rightarrow> BUSY_WARNING_INTERVAL \<le> now - earlier)
             then (Some now, sc_warn env now s2)
             else (last_busy_warning, s2))
        else (last_busy_warning, snd (sc_request_modify env request_collection s1)))"

text \<open>One iteration of the loop; \<^term>\<open>None\<close> when the shutdown ends it.\<close>

definition scheduler_iteration ::
  "'s SchedulerEnv \<Rightarrow> nat option \<Rightarrow> 's \<Rightarrow> nat option option \<times> 's" where
  "scheduler_iteration env last_busy_warning s =
     (case sc_wait env s of
        (SchedulerShutdownChanged alive, s1) \<Rightarrow>
          (case (if alive then sc_shutdown_requested env s1 else (True, s1)) of (stop, s2) \<Rightarrow>
             (if stop then None else Some last_busy_warning, s2))
      | (Tick, s1) \<Rightarrow>
          (case scheduler_tick env last_busy_warning s1 of (warned, s2) \<Rightarrow> (Some warned, s2)))"

partial_function (option) scheduler_loop ::
  "'s SchedulerEnv \<Rightarrow> nat option \<Rightarrow> 's \<Rightarrow> 's option" where
  "scheduler_loop env last_busy_warning s =
     (case scheduler_iteration env last_busy_warning s of
        (None, s1) \<Rightarrow> Some s1
      | (Some warned, s1) \<Rightarrow> scheduler_loop env warned s1)"

text \<open>\<^term>\<open>None\<close>: the task does not end, or panics.\<close>

definition collection_scheduler :: "'s SchedulerEnv \<Rightarrow> duration \<Rightarrow> 's \<Rightarrow> 's option" where
  "collection_scheduler env period s =
     (case sc_shutdown_requested env s of (stop, s1) \<Rightarrow>
        if stop then Some s1
        else
          (case sc_request_modify env request_collection s1 of (_, s2) \<Rightarrow>
             (case sc_now env s2 of (now, s3) \<Rightarrow>
                (case collection_interval now period of
                   None \<Rightarrow> None
                 | Some interval \<Rightarrow> scheduler_loop env None (sc_start_interval env interval s3)))))"


section \<open>The service\<close>

text \<open>A joined task: \<^term>\<open>Inl ()\<close> is a \<open>JoinError\<close> (a panic or a cancellation).\<close>

type_synonym 'a joined = "unit + 'a"

datatype Completion =
    CompletionSignal "rstr + unit"
  | CompletionMqtt "(MqttError + unit) joined"
  | CompletionScheduler "unit joined"
  | CompletionCollector "(DaemonError + unit) joined"

definition MQTT_TASK :: rstr where "MQTT_TASK = lit ''MQTT supervisor''"
definition COLLECTOR_TASK :: rstr where "COLLECTOR_TASK = lit ''collector worker''"
definition SCHEDULER_TASK :: rstr where "SCHEDULER_TASK = lit ''collection scheduler''"

definition finish_mqtt :: "(MqttError + unit) joined \<Rightarrow> DaemonError + unit" where
  "finish_mqtt task =
     (case task of Inr r \<Rightarrow> map_err DaemonMqtt r | Inl _ \<Rightarrow> Inl (TaskFailed MQTT_TASK))"

definition finish_collector :: "(DaemonError + unit) joined \<Rightarrow> DaemonError + unit" where
  "finish_collector task =
     (case task of Inr r \<Rightarrow> r | Inl _ \<Rightarrow> Inl (TaskFailed COLLECTOR_TASK))"

text \<open>\<^term>\<open>None\<close>: the worker has not ended within the timeout.\<close>

definition finish_collector_with_timeout ::
  "(DaemonError + unit) joined option \<Rightarrow> DaemonError + bool" where
  "finish_collector_with_timeout task =
     (case task of Some t \<Rightarrow> map_ok (\<lambda>_. True) (finish_collector t) | None \<Rightarrow> Inr False)"

definition drain_collector :: "(DaemonError + unit) joined option \<Rightarrow> DaemonError + unit" where
  "drain_collector task = map_ok (\<lambda>_. ()) (finish_collector_with_timeout task)"

definition finish_task :: "unit joined \<Rightarrow> rstr \<Rightarrow> DaemonError + unit" where
  "finish_task task name = map_err (\<lambda>_. TaskFailed name) task"

definition unexpected_mqtt :: "(MqttError + unit) joined \<Rightarrow> DaemonError + unit" where
  "unexpected_mqtt result =
     (case result of
        Inr (Inr _) \<Rightarrow> Inl (TaskStopped MQTT_TASK)
      | Inr (Inl source) \<Rightarrow> Inl (DaemonMqtt source)
      | Inl _ \<Rightarrow> Inl (TaskFailed MQTT_TASK))"

definition unexpected_collector :: "(DaemonError + unit) joined \<Rightarrow> DaemonError + unit" where
  "unexpected_collector result =
     (case result of
        Inr (Inr _) \<Rightarrow> Inl (TaskStopped COLLECTOR_TASK)
      | Inr (Inl e) \<Rightarrow> Inl e
      | Inl _ \<Rightarrow> Inl (TaskFailed COLLECTOR_TASK))"

definition unexpected_task :: "unit joined \<Rightarrow> rstr \<Rightarrow> DaemonError + unit" where
  "unexpected_task result name =
     (case result of Inr _ \<Rightarrow> Inl (TaskStopped name) | Inl _ \<Rightarrow> Inl (TaskFailed name))"

text \<open>What the source asks of the builder of the runtime.\<close>

record RuntimeOptions =
  ro_current_thread :: bool
  ro_enable_all :: bool
  ro_max_blocking_threads :: nat
  ro_thread_name :: rstr

text \<open>
  The signals: \<open>sg_register\<close> installs a handler, \<open>sg_receive\<close> is the \<open>select!\<close> on both streams and is
  false when the stream that completed has closed.
\<close>

datatype SignalKind = Terminate | Interrupt

record 's SignalEnv =
  sg_register :: "SignalKind \<Rightarrow> 's \<Rightarrow> (rstr + unit) \<times> 's"
  sg_receive :: "'s \<Rightarrow> (SignalKind \<times> bool) \<times> 's"

definition signal_stream_closed :: rstr where
  "signal_stream_closed = lit ''the operating-system signal stream closed''"

definition shutdown_signal :: "'s SignalEnv \<Rightarrow> 's \<Rightarrow> (rstr + unit) \<times> 's" where
  "shutdown_signal env s =
     (case sg_register env Terminate s of
        (Inl e, s1) \<Rightarrow> (Inl e, s1)
      | (Inr _, s1) \<Rightarrow>
          (case sg_register env Interrupt s1 of
             (Inl e, s2) \<Rightarrow> (Inl e, s2)
           | (Inr _, s2) \<Rightarrow>
               (case sg_receive env s2 of ((kind, received), s3) \<Rightarrow>
                  (if received then Inr () else Inl signal_stream_closed, s3))))"

text \<open>
  The tasks.  \<open>se_start\<close> creates the slots and spawns the three tasks, \<open>se_first\<close> is the \<open>select!\<close> on
  the signal and the tasks.  Each \<open>join!\<close> of the source is one call that awaits its tasks together, the
  worker at most for the given time (\<^term>\<open>None\<close> when it has not ended by then).
\<close>

record 's ServiceEnv =
  se_start :: "Collector \<Rightarrow> MqttSupervisor \<Rightarrow> duration \<Rightarrow> 's \<Rightarrow> 's"
  se_first :: "'s \<Rightarrow> Completion \<times> 's"
  se_send_shutdown :: "'s \<Rightarrow> 's"
  se_join_all :: "duration \<Rightarrow> 's \<Rightarrow>
    ((MqttError + unit) joined \<times> unit joined \<times> (DaemonError + unit) joined option) \<times> 's"
  se_join_scheduler_collector :: "duration \<Rightarrow> 's \<Rightarrow>
    (unit joined \<times> (DaemonError + unit) joined option) \<times> 's"
  se_join_mqtt_collector :: "duration \<Rightarrow> 's \<Rightarrow>
    ((MqttError + unit) joined \<times> (DaemonError + unit) joined option) \<times> 's"
  se_join_mqtt_scheduler :: "'s \<Rightarrow> ((MqttError + unit) joined \<times> unit joined) \<times> 's"
  se_build_runtime :: "RuntimeOptions \<Rightarrow> 's \<Rightarrow> (rstr + unit) \<times> 's"
  se_shutdown_runtime :: "duration \<Rightarrow> 's \<Rightarrow> 's"

definition build_runtime :: "'s ServiceEnv \<Rightarrow> 's \<Rightarrow> (DaemonError + unit) \<times> 's" where
  "build_runtime env s =
     (case se_build_runtime env
        \<lparr>ro_current_thread = True, ro_enable_all = True, ro_max_blocking_threads = MAX_BLOCKING_THREADS,
         ro_thread_name = lit ''rpi-health-worker''\<rparr> s of
        (r, s1) \<Rightarrow> (map_err RuntimeInitialization r, s1))"

definition run_service ::
  "'s ServiceEnv \<Rightarrow> Collector \<Rightarrow> DiscoveryMessage \<Rightarrow> MqttSettings \<Rightarrow> MqttCredentials \<Rightarrow> duration \<Rightarrow> 's \<Rightarrow>
   (DaemonError + unit) \<times> 's" where
  "run_service env collector discovery settings credentials interval s =
     (let sv = fst (MqttSupervisor_new settings credentials (dm_payload discovery));
          (completion, s1) = se_first env (se_start env collector sv interval s);
          s2 = se_send_shutdown env s1 in
      case completion of
        CompletionSignal signal \<Rightarrow>
          (let primary = map_err SignalHandling signal;
               ((m, t, c), s3) = se_join_all env COLLECTOR_DRAIN_TIMEOUT s2
           in (and_result (and_result (and_result primary (finish_mqtt m))
                 (finish_task t SCHEDULER_TASK)) (drain_collector c), s3))
      | CompletionMqtt completed \<Rightarrow>
          (let primary = unexpected_mqtt completed;
               ((t, c), s3) = se_join_scheduler_collector env COLLECTOR_DRAIN_TIMEOUT s2
           in (and_result (and_result primary (finish_task t SCHEDULER_TASK)) (drain_collector c), s3))
      | CompletionScheduler completed \<Rightarrow>
          (let primary = unexpected_task completed SCHEDULER_TASK;
               ((m, c), s3) = se_join_mqtt_collector env COLLECTOR_DRAIN_TIMEOUT s2
           in (and_result (and_result primary (finish_mqtt m)) (drain_collector c), s3))
      | CompletionCollector completed \<Rightarrow>
          (let primary = unexpected_collector completed;
               ((m, t), s3) = se_join_mqtt_scheduler env s2
           in (and_result (and_result primary (finish_mqtt m)) (finish_task t SCHEDULER_TASK), s3)))"

definition daemon_run ::
  "(json \<Rightarrow> rstr + rstr) \<Rightarrow> ('s, 'dt) Env \<Rightarrow> 's ServiceEnv \<Rightarrow> Config \<Rightarrow> MqttCredentials \<Rightarrow> 's \<Rightarrow>
   (DaemonError + unit) \<times> 's" where
  "daemon_run to_string cenv env config credentials s =
     (case Collector_new cenv (cfg_collector config) s of
        (Inl source, s1) \<Rightarrow> (Inl (CollectorInitialization source), s1)
      | (Inr collector, s1) \<Rightarrow>
          (case discovery_message to_string config collector of
             Inl e \<Rightarrow> (Inl e, s1)
           | Inr discovery \<Rightarrow>
               (let settings = MqttSettings_new (cfg_mqtt config) (dc_id (cfg_device config));
                    interval = cc_interval (cfg_collector config) in
                case build_runtime env s1 of
                  (Inl e, s2) \<Rightarrow> (Inl e, s2)
                | (Inr _, s2) \<Rightarrow>
                    (case run_service env collector discovery settings credentials interval s2 of
                       (r, s3) \<Rightarrow> (r, se_shutdown_runtime env RUNTIME_SHUTDOWN_TIMEOUT s3)))))"

section \<open>How the service ends\<close>

lemma unexpected_results [simp]:
  "unexpected_mqtt r1 \<noteq> Inr u" "unexpected_collector r2 \<noteq> Inr u" "unexpected_task r3 n \<noteq> Inr u"
  by (auto simp: unexpected_mqtt_def unexpected_collector_def unexpected_task_def split: sum.splits)

lemma finish_results [simp]:
  "finish_mqtt m = Inr u \<longleftrightarrow> m = Inr (Inr ())"
  "finish_task t n = Inr u \<longleftrightarrow> t = Inr ()"
  "drain_collector c = Inr u \<longleftrightarrow> c = None \<or> c = Some (Inr (Inr ()))"
  by (auto simp: finish_mqtt_def finish_task_def drain_collector_def finish_collector_with_timeout_def
      finish_collector_def map_err_def map_ok_def split: sum.splits option.splits)

lemma and_result_Inr [simp]: "and_result a b = Inr u \<longleftrightarrow> (\<exists>v. a = Inr v) \<and> b = Inr u"
  by (cases a) (simp_all add: and_result_def)

lemma run_service_ok:
  "fst (run_service env collector discovery settings credentials interval s) = Inr () \<longleftrightarrow>
     (let sv = fst (MqttSupervisor_new settings credentials (dm_payload discovery));
          (completion, s1) = se_first env (se_start env collector sv interval s);
          ((m, t, c), s2) = se_join_all env COLLECTOR_DRAIN_TIMEOUT (se_send_shutdown env s1)
      in completion = CompletionSignal (Inr ()) \<and> m = Inr (Inr ()) \<and> t = Inr () \<and>
         (c = None \<or> c = Some (Inr (Inr ()))))"
  by (auto simp: run_service_def Let_def map_err_eq_Inr split: prod.splits Completion.splits sum.splits)

text \<open>
  C9. The service succeeds only when it was told to stop: \<open>run_service\<close> returns \<open>Ok\<close> exactly when the
  shutdown signal came first and was received without an error, the supervisor and the scheduler then
  ended in order, and the worker did not fail (one that outlasts the drain time is let go).  A task
  that ends by itself is always an error, whatever the task says.\<close>

theorem run_service_ok_iff:
  "fst (run_service env collector discovery settings credentials interval s) = Inr () \<longleftrightarrow>
     (let sv = fst (MqttSupervisor_new settings credentials (dm_payload discovery));
          (completion, s1) = se_first env (se_start env collector sv interval s);
          ((m, t, c), s2) = se_join_all env COLLECTOR_DRAIN_TIMEOUT (se_send_shutdown env s1)
      in completion = CompletionSignal (Inr ()) \<and> m = Inr (Inr ()) \<and> t = Inr () \<and>
         (c = None \<or> c = Some (Inr (Inr ()))))"
  by (rule run_service_ok)


section \<open>The worker\<close>

datatype WorkerCall = TookRequest u64 | SetBusy bool | Sent StateMessage

definition worker_logged :: "'s WorkerEnv \<Rightarrow> ('s \<times> WorkerCall list) WorkerEnv" where
  "worker_logged env =
     \<lparr>wk_changed = lifted (wk_changed env),
      wk_request = (\<lambda>w. case wk_request env (fst w) of (i, s) \<Rightarrow> (i, s, snd w @ [TookRequest i])),
      wk_set_busy = (\<lambda>b w. (wk_set_busy env b (fst w), snd w @ [SetBusy b])),
      wk_send_state = (\<lambda>m w. (wk_send_state env m (fst w), snd w @ [Sent m]))\<rparr>"

definition collector_logged :: "('c, 's) snapshot_collector \<Rightarrow> ('c, 's \<times> 'l) snapshot_collector" where
  "collector_logged collector c w = (case collector c (fst w) of (r, c1, s1) \<Rightarrow> (r, c1, s1, snd w))"

text \<open>
  The first \<open>n\<close> rounds of the worker: its result when it has ended, the collector and the world.
\<close>

fun worker_rounds ::
  "'s WorkerEnv \<Rightarrow> ('c, 's) snapshot_collector \<Rightarrow> nat \<Rightarrow> 'c \<Rightarrow> 's \<Rightarrow>
   (DaemonError + unit) option \<times> 'c \<times> 's" where
  "worker_rounds env collector 0 c s = (None, c, s)"
| "worker_rounds env collector (Suc n) c s =
     (case wk_changed env s of (alive, s1) \<Rightarrow>
        if \<not> alive then (Some (Inr ()), c, s1)
        else
          (case serve_request env collector c s1 of
             (Inl e, c1, s2) \<Rightarrow> (Some (Inl e), c1, s2)
           | (Inr _, c1, s2) \<Rightarrow> worker_rounds env collector n c1 s2))"

lemma worker_rounds_result:
  "worker_rounds env collector n c s = (Some r, c', s') \<Longrightarrow>
     collection_worker env collector c s = Some (r, s')"
proof (induction n arbitrary: c s)
  case (Suc n)
  then show ?case
    by (subst collection_worker.simps) (auto split: prod.splits sum.splits if_splits)
qed simp

text \<open>A served request and the calls that serve it.\<close>

definition served_calls :: "u64 \<times> nat list \<Rightarrow> WorkerCall list" where
  "served_calls r =
     (if fst r = 0 then [TookRequest 0]
      else [TookRequest (fst r), SetBusy True, Sent (StateMessage_new (fst r) (snd r)), SetBusy False])"

locale payload_source =
  fixes collector :: "('c, 's) snapshot_collector"
    and good :: "nat list \<Rightarrow> bool"
    and failure :: "DaemonError \<Rightarrow> bool"
  assumes payload: "collector c s = (Inr p, c', s') \<Longrightarrow> good p"
    and error: "collector c s = (Inl e, c', s') \<Longrightarrow> failure e"
begin

definition served :: "u64 \<times> nat list \<Rightarrow> bool" where
  "served r \<longleftrightarrow> fst r = 0 \<or> good (snd r)"

lemma serve_request_calls:
  assumes "serve_request (worker_logged env) (collector_logged collector) c w = (r, c', w')"
  shows "(\<exists>b. r = Inr () \<and> served b \<and> snd w' = snd w @ served_calls b) \<or>
    (\<exists>e i. r = Inl e \<and> failure e \<and> i \<noteq> 0 \<and>
       snd w' = snd w @ [TookRequest i, SetBusy True, SetBusy False])"
proof -
  obtain i s1 where i: "wk_request env (fst w) = (i, s1)" by (cases "wk_request env (fst w)")
  show ?thesis
  proof (cases "i = 0")
    case True
    then show ?thesis using assms i
      by (intro disjI1 exI [of _ "(0, [])"])
        (auto simp: serve_request_def worker_logged_def served_def served_calls_def)
  next
    case False
    obtain q c1 s2 where q: "collector c (wk_set_busy env True s1) = (q, c1, s2)"
      by (cases "collector c (wk_set_busy env True s1)")
    show ?thesis
    proof (cases q)
      case (Inl e)
      then show ?thesis using assms i q False error [of c _ e c1 s2]
        by (auto simp: serve_request_def worker_logged_def collector_logged_def)
    next
      case (Inr p)
      then show ?thesis using assms i q False payload [of c _ p c1 s2]
        by (intro disjI1 exI [of _ "(i, p)"])
          (auto simp: serve_request_def worker_logged_def collector_logged_def served_def
            served_calls_def)
    qed
  qed
qed

lemma worker_rounds_calls:
  assumes "worker_rounds (worker_logged env) (collector_logged collector) n c w = (r, c', w')"
  shows "\<exists>bs i. list_all served bs \<and> i \<noteq> 0 \<and>
    snd w' = snd w @ concat (map served_calls bs) @
      (case r of Some (Inl e) \<Rightarrow> [TookRequest i, SetBusy True, SetBusy False] | _ \<Rightarrow> []) \<and>
    (case r of Some (Inl e) \<Rightarrow> failure e | _ \<Rightarrow> True)"
  using assms
proof (induction n arbitrary: c w)
  case 0
  then show ?case by (auto intro!: exI [of _ "[]"] exI [of _ "1 :: u64"])
next
  case (Suc n)
  obtain alive w1 where w1: "wk_changed (worker_logged env) w = (alive, w1)"
    by (cases "wk_changed (worker_logged env) w")
  then have s1: "snd w1 = snd w"
    by (auto simp: worker_logged_def lifted_def split: prod.splits)
  obtain q c1 w2 where q: "serve_request (worker_logged env) (collector_logged collector) c w1 = (q, c1, w2)"
    by (cases "serve_request (worker_logged env) (collector_logged collector) c w1")
  show ?case
  proof (cases alive)
    case False
    then show ?thesis using Suc.prems w1 s1
      by (auto intro!: exI [of _ "[]"] exI [of _ "1 :: u64"])
  next
    case True
    from serve_request_calls [OF q] show ?thesis
    proof (elim disjE exE conjE)
      fix b assume b: "q = Inr ()" "served b" "snd w2 = snd w1 @ served_calls b"
      then have "worker_rounds (worker_logged env) (collector_logged collector) n c1 w2 = (r, c', w')"
        using Suc.prems w1 q True by simp
      from Suc.IH [OF this] obtain bs i where h: "list_all served bs" "i \<noteq> 0"
        "snd w' = snd w2 @ concat (map served_calls bs) @
          (case r of Some (Inl e) \<Rightarrow> [TookRequest i, SetBusy True, SetBusy False] | _ \<Rightarrow> [])"
        "case r of Some (Inl e) \<Rightarrow> failure e | _ \<Rightarrow> True" by auto
      then show ?thesis using b s1
        by (intro exI [of _ "b # bs"] exI [of _ i]) simp
    next
      fix e i assume "q = Inl e" "failure e" "i \<noteq> 0"
        "snd w2 = snd w1 @ [TookRequest i, SetBusy True, SetBusy False]"
      then show ?thesis using Suc.prems w1 s1 q True
        by (intro exI [of _ "[]"] exI [of _ i]) auto
    qed
  qed
qed

end

text \<open>The collector of the service: its payloads are serialized telemetry states.\<close>

definition serialized_state :: "(json \<Rightarrow> rstr + nat list) \<Rightarrow> 'dt TimeLib \<Rightarrow> nat list \<Rightarrow> bool" where
  "serialized_state to_vec lib p \<longleftrightarrow>
     (\<exists>st. and_then (TelemetryState_serialize lib st) to_vec = Inr p \<and> health_consistent st)"

fun serialization_failure :: "DaemonError \<Rightarrow> bool" where
  "serialization_failure (StateSerialization _) = True"
| "serialization_failure _ = False"

interpretation telemetry: payload_source "collect_payload to_vec lib env"
  "serialized_state to_vec lib" serialization_failure
  for to_vec and lib :: "'dt TimeLib" and env :: "('s, 'dt) Env"
proof
  fix c s p c' s' assume "collect_payload to_vec lib env c s = (Inr p, c', s')"
  then obtain st where st: "collect env c s = (st, c', s')"
    "and_then (TelemetryState_serialize lib st) to_vec = Inr p"
    by (auto simp: collect_payload_def map_err_eq_Inr split: prod.splits)
  then show "serialized_state to_vec lib p"
    unfolding serialized_state_def by (blast elim: collect_errors)
qed (auto simp: collect_payload_def map_err_def split: prod.splits sum.splits)

text \<open>
  C6. Every request is answered by its own state: over any number of rounds the worker takes a
  request, raises the busy flag, publishes one state under the identifier it has just taken, whose
  payload is a serialized telemetry state with a consistent health summary, and lowers the flag.  The
  initial identifier 0 is passed over.  The flag is never left raised: not even when serialization
  fails, the only failure that ends the worker.\<close>

theorem worker_answers_requests:
  "case worker_rounds (worker_logged env) (collector_logged (collect_payload to_vec lib cenv)) n c
          (s, []) of
     (r, c', s', calls) \<Rightarrow>
       \<exists>bs i. list_all (\<lambda>b. fst b = 0 \<or> serialized_state to_vec lib (snd b)) bs \<and> i \<noteq> 0 \<and>
         calls = concat (map served_calls bs) @
           (case r of Some (Inl e) \<Rightarrow> [TookRequest i, SetBusy True, SetBusy False] | _ \<Rightarrow> []) \<and>
         (case r of Some (Inl e) \<Rightarrow> serialization_failure e | _ \<Rightarrow> True)"
proof -
  obtain r c' s' calls where run: "worker_rounds (worker_logged env)
      (collector_logged (collect_payload to_vec lib cenv)) n c (s, []) = (r, c', s', calls)"
    by (cases "worker_rounds (worker_logged env)
      (collector_logged (collect_payload to_vec lib cenv)) n c (s, [])") auto
  show ?thesis
    using telemetry.worker_rounds_calls [OF run] unfolding run telemetry.served_def by simp
qed


section \<open>The scheduler at work\<close>

datatype SchedulerCall = SawBusy bool | Requested | Warned nat

definition scheduler_logged :: "'s SchedulerEnv \<Rightarrow> ('s \<times> SchedulerCall list) SchedulerEnv" where
  "scheduler_logged env =
     \<lparr>sc_shutdown_requested = lifted (sc_shutdown_requested env),
      sc_start_interval = (\<lambda>d w. (sc_start_interval env d (fst w), snd w)),
      sc_wait = lifted (sc_wait env),
      sc_busy = (\<lambda>w. case sc_busy env (fst w) of (b, s) \<Rightarrow> (b, s, snd w @ [SawBusy b])),
      sc_now = lifted (sc_now env),
      sc_request_modify = (\<lambda>f w. case sc_request_modify env f (fst w) of
         (i, s) \<Rightarrow> (i, s, snd w @ [Requested])),
      sc_warn = (\<lambda>now w. (sc_warn env now (fst w), snd w @ [Warned now]))\<rparr>"

text \<open>
  The first \<open>n\<close> iterations of the loop: whether it has ended, the time of the last warning, the world.
\<close>

fun scheduler_rounds ::
  "'s SchedulerEnv \<Rightarrow> nat \<Rightarrow> nat option \<Rightarrow> 's \<Rightarrow> bool \<times> nat option \<times> 's" where
  "scheduler_rounds env 0 last_warning s = (False, last_warning, s)"
| "scheduler_rounds env (Suc n) last_warning s =
     (case scheduler_iteration env last_warning s of
        (None, s1) \<Rightarrow> (True, last_warning, s1)
      | (Some warned, s1) \<Rightarrow> scheduler_rounds env n warned s1)"

lemma scheduler_rounds_result:
  "scheduler_rounds env n last_warning s = (True, l', s') \<Longrightarrow>
     scheduler_loop env last_warning s = Some s'"
proof (induction n arbitrary: last_warning s)
  case (Suc n)
  then show ?case by (subst scheduler_loop.simps) (auto split: prod.splits option.splits)
qed simp

text \<open>A tick as the calls it makes, and the warnings among the ticks.\<close>

datatype TickOutcome = Asked | Skipped | SkippedAloud nat

fun tick_calls :: "TickOutcome \<Rightarrow> SchedulerCall list" where
  "tick_calls Asked = [SawBusy False, Requested]"
| "tick_calls Skipped = [SawBusy True]"
| "tick_calls (SkippedAloud now) = [SawBusy True, Warned now]"

fun warning_times :: "TickOutcome list \<Rightarrow> nat list" where
  "warning_times [] = []"
| "warning_times (SkippedAloud now # ts) = now # warning_times ts"
| "warning_times (_ # ts) = warning_times ts"

lemma warning_times_append: "warning_times (a @ b) = warning_times a @ warning_times b"
  by (induction a rule: warning_times.induct) auto

text \<open>Two successive times are a warning interval apart.\<close>

fun spaced :: "nat list \<Rightarrow> bool" where
  "spaced (a # b # ts) \<longleftrightarrow> a + BUSY_WARNING_INTERVAL \<le> b \<and> spaced (b # ts)"
| "spaced _ \<longleftrightarrow> True"

definition spaced_after :: "nat option \<Rightarrow> nat list \<Rightarrow> bool" where
  "spaced_after last_warning ts \<longleftrightarrow>
     spaced (case last_warning of None \<Rightarrow> ts | Some t \<Rightarrow> t # ts)"

lemma spaced_Cons: "spaced (a # ts) \<Longrightarrow> spaced ts"
  by (cases ts) auto

lemma scheduler_iteration_calls:
  assumes "scheduler_iteration (scheduler_logged env) last_warning w = (r, w')"
  shows "case r of
      None \<Rightarrow> snd w' = snd w
    | Some warned \<Rightarrow>
        (\<exists>ts. snd w' = snd w @ concat (map tick_calls ts) \<and>
           (\<forall>later. spaced_after warned later \<longrightarrow> spaced_after last_warning (warning_times ts @ later)))"
proof -
  obtain branch s1 where b: "sc_wait env (fst w) = (branch, s1)" by (cases "sc_wait env (fst w)")
  show ?thesis
  proof (cases branch)
    case (SchedulerShutdownChanged alive)
    then show ?thesis using assms b
      by (auto simp: scheduler_iteration_def scheduler_logged_def lifted_def
          split: prod.splits if_splits intro!: exI [of _ "[]"])
  next
    case Tick
    obtain busy s2 where busy: "sc_busy env s1 = (busy, s2)" by (cases "sc_busy env s1")
    obtain now s3 where now: "sc_now env s2 = (now, s3)" by (cases "sc_now env s2")
    show ?thesis
    proof (cases busy)
      case False
      then show ?thesis using assms b Tick busy
        by (auto simp: scheduler_iteration_def scheduler_tick_def scheduler_logged_def lifted_def
            split: prod.splits intro!: exI [of _ "[Asked]"])
    next
      case True
      show ?thesis
      proof (cases "case last_warning of None \<Rightarrow> True
          | Some earlier \<Rightarrow> BUSY_WARNING_INTERVAL \<le> now - earlier")
        case due: True
        have "spaced_after last_warning (now # later)" if "spaced (now # later)" for later
          using due that by (cases last_warning) (auto simp: spaced_after_def BUSY_WARNING_INTERVAL_def from_secs_def)
        then show ?thesis using assms b Tick busy now True due
          by (auto simp: scheduler_iteration_def scheduler_tick_def scheduler_logged_def lifted_def
              spaced_after_def [of "Some _"] intro!: exI [of _ "[SkippedAloud now]"])
      next
        case False
        then show ?thesis using assms b Tick busy now True
          by (auto simp: scheduler_iteration_def scheduler_tick_def scheduler_logged_def lifted_def
              split: option.splits intro!: exI [of _ "[Skipped]"])
      qed
    qed
  qed
qed

lemma scheduler_rounds_calls:
  assumes "scheduler_rounds (scheduler_logged env) n last_warning w = (e, l', w')"
  shows "\<exists>ts. snd w' = snd w @ concat (map tick_calls ts) \<and> spaced_after last_warning (warning_times ts)"
  using assms
proof (induction n arbitrary: last_warning w)
  case 0
  then show ?case
    by (auto simp: spaced_after_def split: option.splits intro!: exI [of _ "[]"])
next
  case (Suc n)
  obtain r w1 where i: "scheduler_iteration (scheduler_logged env) last_warning w = (r, w1)"
    by (cases "scheduler_iteration (scheduler_logged env) last_warning w")
  note calls = scheduler_iteration_calls [OF i]
  show ?case
  proof (cases r)
    case None
    then show ?thesis using Suc.prems i calls
      by (auto simp: spaced_after_def split: option.splits intro!: exI [of _ "[]"])
  next
    case (Some warned)
    then have "scheduler_rounds (scheduler_logged env) n warned w1 = (e, l', w')"
      using Suc.prems i by simp
    from Suc.IH [OF this] obtain ts where ts: "snd w' = snd w1 @ concat (map tick_calls ts)"
      "spaced_after warned (warning_times ts)" by auto
    moreover obtain t0 where "snd w1 = snd w @ concat (map tick_calls t0)"
      "spaced_after last_warning (warning_times t0 @ warning_times ts)"
      using calls Some ts(2) by auto
    ultimately show ?thesis
      by (intro exI [of _ "t0 @ ts"]) (simp add: warning_times_append)
  qed
qed

text \<open>
  C21. The scheduler asks for a collection at each tick that finds the worker idle and never while it is
  busy; the warnings about skipped ticks are at least sixty seconds apart, however often the
  interval ticks and whatever the clock does.\<close>

theorem scheduler_asks_when_idle:
  "case scheduler_rounds (scheduler_logged env) n None (s, []) of
     (ended, last_warning, s', calls) \<Rightarrow>
       \<exists>ts. calls = concat (map tick_calls ts) \<and> spaced (warning_times ts)"
proof -
  obtain e l s' calls where run: "scheduler_rounds (scheduler_logged env) n None (s, []) = (e, l, s', calls)"
    by (cases "scheduler_rounds (scheduler_logged env) n None (s, [])") auto
  show ?thesis
    using scheduler_rounds_calls [OF run] unfolding run by (simp add: spaced_after_def)
qed


section \<open>One vocabulary of topics\<close>

lemma trim_slashes_concrete: "concrete_topic t \<Longrightarrow> trim_slashes t = t"
proof (cases t rule: rev_cases)
  case (snoc a c)
  assume "concrete_topic t"
  then have "c \<noteq> 47"
    using snoc topic_levels_append [of a "[]"]
    by (auto simp: concrete_topic_def topic_levels_def)
  then show ?thesis using snoc by (simp add: trim_slashes_def trim_end_matches_id)
qed (simp add: trim_slashes_def trim_end_matches_def)

lemma discovery_settings_kept [simp]:
  "ds_base_topic (discovery_settings c m) = mc_base_topic (cfg_mqtt c)"
  "ds_discovery_prefix (discovery_settings c m) = mc_discovery_prefix (cfg_mqtt c)"
  "ds_device_id (discovery_settings c m) = dc_id (cfg_device c)"
  "ds_interval (discovery_settings c m) = cc_interval (cfg_collector c)"
  by (simp_all add: discovery_settings_def DiscoverySettings_new_def with_model_def
      with_serial_number_def with_hardware_version_def Let_def split: option.splits)

text \<open>A retained announcement: the topic and the text are those under two keys of the document.\<close>

definition announced_as :: "json \<Rightarrow> char list \<Rightarrow> char list \<Rightarrow> Publication option \<Rightarrow> bool" where
  "announced_as doc topic_key text_key publication \<longleftrightarrow>
     (case (json_get doc (lit topic_key), json_get doc (lit text_key), publication) of
        (Some (JStr topic), Some (JStr txt), Some p) \<Rightarrow>
          p = \<lparr>pub_topic = topic, pub_qos = AtLeastOnce, pub_retain = True, pub_payload = str_bytes txt\<rparr>
      | _ \<Rightarrow> False)"

text \<open>
  C13. Home Assistant is told the truth: for every accepted configuration, the discovery message is the
  printed discovery document, sent retained to the topic it was built for; the availability topic and
  the two payloads in the document are those of the retained \<open>online\<close> and \<open>offline\<close> publications of the
  supervisor and of the last will the broker keeps, and its state topic is the one the supervisor
  publishes states to.\<close>

theorem discovery_agrees_with_supervisor:
  "case RawConfig_validate r of
     Inl _ \<Rightarrow> True
   | Inr c \<Rightarrow>
       (let doc = discovery_document (discovery_settings c metadata) in
        case build_discovery_message to_string (discovery_settings c metadata) of
          Inl e \<Rightarrow> to_string doc = Inl e
        | Inr message \<Rightarrow>
            (let settings = MqttSettings_new (cfg_mqtt c) (dc_id (cfg_device c));
                 sv = fst (MqttSupervisor_new settings credentials (dm_payload message));
                 will = opt_last_will (mqtt_options settings credentials)
             in to_string doc = Inr (dm_payload message) \<and>
                action_publication sv PublishDiscovery None =
                  Some \<lparr>pub_topic = dm_topic message, pub_qos = AtLeastOnce, pub_retain = True,
                        pub_payload = str_bytes (dm_payload message)\<rparr> \<and>
                announced_as doc ''availability_topic'' ''payload_available''
                  (action_publication sv PublishOnline None) \<and>
                announced_as doc ''availability_topic'' ''payload_not_available''
                  (action_publication sv PublishOffline None) \<and>
                announced_as doc ''availability_topic'' ''payload_not_available'' will \<and>
                map_option (\<lambda>p. JStr (pub_topic p)) (action_publication sv PublishState payload) =
                  json_get doc (lit ''state_topic'')))"
proof (cases "RawConfig_validate r")
  case (Inr c)
  then have "concrete_topic (mc_base_topic (cfg_mqtt c))" "concrete_topic (mc_discovery_prefix (cfg_mqtt c))"
    by (simp_all add: validate_iff raw_ok_def config_of_def Let_def)
  then show ?thesis
    using Inr
    by (cases "to_string (discovery_document (discovery_settings c metadata))")
      (simp_all add: Let_def build_discovery_message_def and_then_def announced_as_def
        discovery_document_def [of "discovery_settings c metadata"] MqttSettings_new_def
        MqttSupervisor_new_def mqtt_options_def
        ds_discovery_topic_def ds_availability_topic_def ds_state_topic_def child_topic_def
        trim_slashes_concrete state_topic_def availability_topic_def discovery_topic_def
        ONLINE_PAYLOAD_def OFFLINE_PAYLOAD_def lit_Cons)
qed simp


section \<open>A payload that cannot be published\<close>

definition huge_load :: rstr where "huge_load = lit ''8e307 0 0 1/1 1''"

text \<open>The same sources, except for the text of \<open>/proc/loadavg\<close>.\<close>

definition with_load :: "rstr \<Rightarrow> ('s, 'dt) Env \<Rightarrow> ('s, 'dt) Env" where
  "with_load load env =
     env\<lparr>env_read_text := (\<lambda>p s. if p = PROC_LOADAVG then (Inr load, s) else env_read_text env p s)\<rparr>"

lemma parse_huge:
  "parse_f64 (lit ''8e307'') = Some (F64_Fin False (fl (8 * 10 ^ 307)))"
  "parse_f64 (lit ''0'') = Some (F64_Fin False 0)"
proof -
  have "parse_f64 (lit ''8e307'') = Some (mk_f64 False (8 * 10 ^ 307))"
    by (simp add: parse_f64_defs)
  moreover have "(8 * 10 ^ 307 :: rat) \<le> pow2 1023" by (simp add: pow2_def)
  ultimately show "parse_f64 (lit ''8e307'') = Some (F64_Fin False (fl (8 * 10 ^ 307)))"
    by (simp add: mk_f64_fin)
qed (simp add: parse_f64_defs mk_f64_def)

lemma huge_split: "split_whitespace huge_load = [lit ''8e307'', lit ''0'', lit ''0'', lit ''1/1'', lit ''1'']"
  by (simp add: huge_load_def str_eval)

lemma huge_load_parsed:
  "\<exists>l. parse_loadavg huge_load = Inr l \<and> la_one_minute l = F64_Fin False (fl (8 * 10 ^ 307))"
  by (simp add: parse_loadavg_def Let_def huge_split nth_opt_def parse_non_negative_float_def
      parse_huge ok_or_def f64_is_finite_def f64_is_sign_negative_def)

lemma huge_unpublishable: "\<not> publishable (Some (F64_Fin False (fl (8 * 10 ^ 307))), 2)"
proof -
  have "pow2 1022 \<le> (8 * 10 ^ 307 :: rat)" by (simp add: pow2_def)
  then have "pow2 1022 \<le> fl (8 * 10 ^ 307)"
    using fl_mono [of "pow2 1022" "8 * 10 ^ 307"] pow2_pos [of 1022] fl_pow2_exact [of 1022] by simp
  then have "pow2 1022 * 100 \<le> fl (8 * 10 ^ 307) * 100" by simp
  moreover have "pow2 1024 \<le> pow2 1022 * 100" by (simp add: pow2_def)
  ultimately have "pow2 1024 \<le> fl (8 * 10 ^ 307) * 100" by linarith
  then have "pow2 1024 \<le> fl (fl (8 * 10 ^ 307) * 100)"
    using fl_mono [of "pow2 1024" "fl (8 * 10 ^ 307) * 100"] pow2_pos [of 1024] fl_pow2_exact [of 1024]
    by simp
  then have "mk_f64 False (fl (8 * 10 ^ 307) * 100) = F64_Inf False"
    by (simp add: mk_f64_def pow2_def)
  then show ?thesis
    using powi_10(2)
    by (simp add: publishable_def rounded_metric_def f64_is_finite_def Let_def numeral_2_eq_2)
qed

lemma collect_load:
  assumes "collect (with_load load env) c s = (st, c', s')" "parse_loadavg load = Inr l"
  shows "cpu_load_1 (st_cpu st) = Some (la_one_minute l)"
proof (rule collect_steps [OF assms(1)])
  fix started s1 observed_at s2 usage e1 s3 cpu2 e2 s4 cpu3 e3 s5 cpu4 e4 s6 r5 e5 s7 r6 e6 s8
    disk e7 s9 pw e8 s10 finished
  let ?env = "with_load load env"
  let ?r0 = "(TelemetryReadings_unavailable (co_root_filesystem c))\<lparr>rd_cpu := cpu4\<rparr>"
  assume l: "collect_load_average ?env (CpuMetrics_default\<lparr>cpu_usage_percent := usage\<rparr>) e1 s3 = (cpu2, e2, s4)"
    and t: "collect_temperature ?env c' cpu2 e2 s4 = (cpu3, e3, s5)"
    and f: "collect_frequency ?env cpu3 e3 s5 = (cpu4, e4, s6)"
    and m: "collect_memory ?env ?r0 e4 s6 = (r5, e5, s7)"
    and up: "collect_uptime ?env r5 e5 s7 = (r6, e6, s8)"
    and st: "st = TelemetryState_new observed_at (r6\<lparr>rd_disk := disk, rd_power := pw\<rparr>) e8
       (duration_ms (finished - started))"
  have "cpu_load_1 cpu2 = Some (la_one_minute l)"
    using l assms(2)
    by (auto simp: collect_load_average_def with_load_def read_parsed_def ok_eq_Some
        split: prod.splits option.splits)
  then show ?thesis
    using collect_temperature_frame [OF t] collect_frequency_frame [OF f]
      collect_memory_frame [OF m] collect_uptime_frame [OF up]
    by (simp add: st TelemetryState_new_def)
qed

lemma huge_load_payload:
  "\<exists>e. fst (collect_payload to_vec lib (with_load huge_load cenv) c s) = Inl (StateSerialization e)"
proof -
  obtain st c' s' where run: "collect (with_load huge_load cenv) c s = (st, c', s')"
    by (cases "collect (with_load huge_load cenv) c s")
  obtain l where l: "parse_loadavg huge_load = Inr l" "la_one_minute l = F64_Fin False (fl (8 * 10 ^ 307))"
    using huge_load_parsed by blast
  have "\<not> list_all publishable (payload_floats st)"
    using collect_load [OF run l(1)] huge_unpublishable l(2) by (simp add: payload_floats_def)
  then have "\<nexists>j. TelemetryState_serialize lib st = Inr j" using payload_ok_iff [of lib st] by blast
  then obtain e where "TelemetryState_serialize lib st = Inl e"
    by (cases "TelemetryState_serialize lib st") auto
  then show ?thesis using run by (simp add: collect_payload_def)
qed

text \<open>
  C23. A readable but enormous load average ends the worker: if \<open>/proc/loadavg\<close> begins with
  \<open>8e307\<close>, the value is accepted as a finite number, overflows when it is scaled for rounding, and
  the state cannot be serialized, whatever the other sources give: the next request makes the worker
  return \<open>StateSerialization\<close>, and with it the service, instead of leaving the metric out.\<close>

theorem huge_load_stops_worker:
  "case wk_changed env s of (alive, s1) \<Rightarrow>
     if alive \<and> fst (wk_request env s1) \<noteq> 0
     then (case collection_worker env (collect_payload to_vec lib (with_load huge_load cenv)) c s of
             Some (Inl e, _) \<Rightarrow> serialization_failure e
           | _ \<Rightarrow> False)
     else True"
proof -
  obtain alive s1 where a: "wk_changed env s = (alive, s1)" by (cases "wk_changed env s")
  obtain i s2 where i: "wk_request env s1 = (i, s2)" by (cases "wk_request env s1")
  obtain r c1 s3 where r: "collect_payload to_vec lib (with_load huge_load cenv) c
      (wk_set_busy env True s2) = (r, c1, s3)"
    by (cases "collect_payload to_vec lib (with_load huge_load cenv) c (wk_set_busy env True s2)")
  obtain e where e: "r = Inl (StateSerialization e)"
    using huge_load_payload [of to_vec lib cenv c "wk_set_busy env True s2"] r by auto
  show ?thesis
    unfolding a by (subst collection_worker.simps) (simp add: a serve_request_def i r e)
qed

end
