(* ===== verification/Cli.thy ===== *)
theory Cli
  imports Rust_Str
begin

text \<open>
  \<open>src/cli.rs\<close>: the parsed command line and the exit codes.  The parser itself is derived by the
  \<open>clap\<close> library and is a parameter of the program.
\<close>

definition DEFAULT_CONFIG_PATH :: rstr where
  "DEFAULT_CONFIG_PATH = lit ''/etc/rpi-health-mqtt/config.toml''"
definition SUCCESS :: u8 where "SUCCESS = 0"
definition USAGE_ERROR :: u8 where "USAGE_ERROR = 2"
definition CONFIG_ERROR :: u8 where "CONFIG_ERROR = 3"
definition DIAGNOSTIC_ERROR :: u8 where "DIAGNOSTIC_ERROR = 4"
definition COLLECTION_ERROR :: u8 where "COLLECTION_ERROR = 5"
definition RUNTIME_ERROR :: u8 where "RUNTIME_ERROR = 6"

datatype Command = Check (skip_mqtt: bool) | PrintOnce

record Cli =
  cli_config :: rstr
  cli_command :: "Command option"

end
