(* ===== verification/Diagnostics.thy ===== *)
theory Diagnostics
  imports Mqtt_Supervisor Collector Cli
begin

text \<open>
  \<open>src/diagnostics.rs\<close>: the preflight checks of the \<open>check\<close> command and the MQTT probe.  The calls
  of the probe on the client library, and the read of the process status, are the fields of
  \<open>DiagEnv\<close>; the collector and the credential loader are the models of their own modules.
\<close>

definition MQTT_PROBE_TIMEOUT :: duration where "MQTT_PROBE_TIMEOUT = from_secs 3"
definition MQTT_CONNECTION_TIMEOUT_SECONDS :: u64 where "MQTT_CONNECTION_TIMEOUT_SECONDS = 3"
definition MQTT_REQUEST_CAPACITY :: nat where "MQTT_REQUEST_CAPACITY = 4"
definition MQTT_MAX_PACKET_BYTES :: nat where "MQTT_MAX_PACKET_BYTES = 64 * 1024"
definition MQTT_PROBE_CLIENT_ID_LIMIT :: nat where "MQTT_PROBE_CLIENT_ID_LIMIT = 128"
definition CREDENTIALS_CHECK :: rstr where "CREDENTIALS_CHECK = lit ''credentials''"
definition IDENTITY_CHECK :: rstr where "IDENTITY_CHECK = lit ''runtime identity''"
definition ARCHITECTURE_CHECK :: rstr where "ARCHITECTURE_CHECK = lit ''architecture''"
definition COLLECTOR_CHECK :: rstr where "COLLECTOR_CHECK = lit ''collector''"
definition METADATA_CHECK :: rstr where "METADATA_CHECK = lit ''metadata''"
definition POWER_CHECK :: rstr where "POWER_CHECK = lit ''power''"
definition MQTT_CHECK :: rstr where "MQTT_CHECK = lit ''mqtt''"


section \<open>Checks and reports\<close>

datatype CheckStatus = CheckPass | CheckWarning | CheckFailure | CheckSkipped

fun label :: "CheckStatus \<Rightarrow> rstr" where
  "label CheckPass = lit ''PASS''"
| "label CheckWarning = lit ''WARNING''"
| "label CheckFailure = lit ''FAILURE''"
| "label CheckSkipped = lit ''SKIPPED''"

record DiagnosticCheck =
  ck_name :: rstr
  ck_status :: CheckStatus
  ck_summary :: rstr

definition DiagnosticCheck_new :: "rstr \<Rightarrow> CheckStatus \<Rightarrow> rstr \<Rightarrow> DiagnosticCheck" where
  "DiagnosticCheck_new name status summary =
     \<lparr>ck_name = name, ck_status = status, ck_summary = summary\<rparr>"

type_synonym DiagnosticReport = "DiagnosticCheck list"

definition has_failures :: "DiagnosticReport \<Rightarrow> bool" where
  "has_failures checks \<longleftrightarrow> list_ex (\<lambda>check. ck_status check = CheckFailure) checks"

definition exit_code :: "DiagnosticReport \<Rightarrow> u8" where
  "exit_code checks = (if has_failures checks then DIAGNOSTIC_ERROR else SUCCESS)"

definition DiagnosticReport_display :: "DiagnosticReport \<Rightarrow> rstr" where
  "DiagnosticReport_display checks =
     str_join [10]
       (map (\<lambda>check. lit ''['' @ label (ck_status check) @ lit ''] '' @ ck_name check @ lit '': '' @
               ck_summary check) checks)"


section \<open>Credentials\<close>

fun credential_failure_summary :: "ConfigError \<Rightarrow> rstr" where
  "credential_failure_summary (CredentialRead _ _) = lit ''credential file could not be read''"
| "credential_failure_summary (CredentialNotAFile _) = lit ''credential path is not a regular file''"
| "credential_failure_summary (CredentialTooLarge _) =
     lit ''credential file exceeds the 64 KiB limit''"
| "credential_failure_summary (CredentialEncoding _) = lit ''credential file is not valid UTF-8''"
| "credential_failure_summary (CredentialEmpty _) = lit ''credential file is empty''"
| "credential_failure_summary (CredentialTooLong _) =
     lit ''credential exceeds the MQTT UTF-8 field limit''"
| "credential_failure_summary (CredentialPermissions _) =
     lit ''credential file grants access beyond its owner and group''"
| "credential_failure_summary _ = lit ''credential validation could not be completed''"

definition load_credentials :: "FsLib \<Rightarrow> Config \<Rightarrow> DiagnosticCheck \<times> MqttCredentials option" where
  "load_credentials fs config =
     (case MqttCredentials_load fs (cfg_mqtt config) of
        Inr credentials \<Rightarrow>
          (DiagnosticCheck_new CREDENTIALS_CHECK CheckPass
             (lit ''credential file is readable and passes permission checks''), Some credentials)
      | Inl error \<Rightarrow>
          (DiagnosticCheck_new CREDENTIALS_CHECK CheckFailure (credential_failure_summary error),
           None))"


section \<open>The identity of the process\<close>

record ProcessIdentity =
  id_effective_uid :: u32
  id_effective_gid :: u32
  id_supplementary_groups :: "u32 list"

definition parse_status_numbers :: "rstr \<Rightarrow> rstr \<Rightarrow> u32 list option" where
  "parse_status_numbers status field =
     Option.bind (find_map (strip_prefix field) (lines status)) (\<lambda>rest.
     Option.bind (collect_options (map (from_str_radix 10) (split_ascii_whitespace rest))) (\<lambda>values.
       if field = lit ''Groups:'' \<or> values \<noteq> [] then Some values else None))"

definition parse_process_identity :: "rstr \<Rightarrow> ProcessIdentity option" where
  "parse_process_identity status =
     Option.bind (parse_status_numbers status (lit ''Uid:'')) (\<lambda>uid.
     Option.bind (parse_status_numbers status (lit ''Gid:'')) (\<lambda>gid.
     Option.bind (parse_status_numbers status (lit ''Groups:'')) (\<lambda>groups.
     Option.bind (nth_opt uid 1) (\<lambda>effective_uid.
     Option.bind (nth_opt gid 1) (\<lambda>effective_gid.
       Some \<lparr>id_effective_uid = effective_uid, id_effective_gid = effective_gid,
             id_supplementary_groups = groups\<rparr>)))))"

definition identity_check :: "ProcessIdentity option \<Rightarrow> DiagnosticCheck" where
  "identity_check identity =
     (case identity of
        Some i \<Rightarrow>
          (if id_effective_uid i = 0 then
             DiagnosticCheck_new IDENTITY_CHECK CheckFailure
               (lit ''process has effective UID 0; run it as the dedicated service account'')
           else if id_effective_gid i = 0 \<or> 0 \<in> set (id_supplementary_groups i) then
             DiagnosticCheck_new IDENTITY_CHECK CheckWarning
               (lit ''process is non-root but retains membership in group 0'')
           else
             (let groups = str_join (lit '', '')
                    (map (\<lambda>g. show_nat (unat g)) (remdups_adj (sort (id_supplementary_groups i))))
              in DiagnosticCheck_new IDENTITY_CHECK CheckPass
                   (lit ''effective UID '' @ show_nat (unat (id_effective_uid i)) @
                    lit '', effective GID '' @ show_nat (unat (id_effective_gid i)) @
                    lit '', supplementary groups ['' @ groups @ lit '']'')))
      | None \<Rightarrow>
          DiagnosticCheck_new IDENTITY_CHECK CheckFailure
            (lit ''effective UID, GID, and supplementary groups could not be read''))"


section \<open>Architecture, snapshot, power\<close>

definition architecture_check :: "rstr \<Rightarrow> bool \<Rightarrow> DiagnosticCheck" where
  "architecture_check architecture is_armv7 =
     (if is_armv7 then
        DiagnosticCheck_new ARCHITECTURE_CHECK CheckPass
          (lit ''running on supported ARM architecture ('' @ architecture @ lit '')'')
      else
        DiagnosticCheck_new ARCHITECTURE_CHECK CheckWarning
          (lit ''running on '' @ architecture @
           lit ''; deploy the ARMv7 build to Raspberry Pi 2''))"

definition check_power :: "PowerMetrics \<Rightarrow> DiagnosticCheck" where
  "check_power pw =
     (if has_current_problem pw then
        DiagnosticCheck_new POWER_CHECK CheckWarning
          (lit ''a current undervoltage, throttling, frequency-cap, or thermal-limit flag is active'')
      else if has_historical_problem pw then
        DiagnosticCheck_new POWER_CHECK CheckWarning
          (lit ''a historical undervoltage, throttling, frequency-cap, or thermal-limit flag is set'')
      else if pw_throttled_raw pw \<noteq> None then
        DiagnosticCheck_new POWER_CHECK CheckPass
          (lit ''firmware power flags are available and clear'')
      else
        DiagnosticCheck_new POWER_CHECK CheckSkipped
          (lit ''power flags are unavailable; the collector result reports the cause''))"

text \<open>\<open>sort_unstable\<close> on strings (equal strings cannot be told apart).\<close>

fun str_insert :: "rstr \<Rightarrow> rstr list \<Rightarrow> rstr list" where
  "str_insert s [] = [s]"
| "str_insert s (t # ts) = (if str_less t s then t # str_insert s ts else s # t # ts)"

definition str_sort :: "rstr list \<Rightarrow> rstr list" where
  "str_sort ts = foldr str_insert ts []"

definition collector_check :: "CollectorError list \<Rightarrow> DiagnosticCheck" where
  "collector_check errors =
     (if errors = [] then
        DiagnosticCheck_new COLLECTOR_CHECK CheckPass (lit ''one complete snapshot was collected'')
      else
        (let metrics = remdups_adj (str_sort (map ce_metric errors));
             only_optional_frequency = (metrics = [lit ''cpu.frequency_mhz''])
         in DiagnosticCheck_new COLLECTOR_CHECK
              (if only_optional_frequency then CheckWarning else CheckFailure)
              (lit ''snapshot reported '' @ show_nat (length metrics) @
               lit '' unavailable metric source(s): '' @ str_join (lit '', '') metrics)))"

definition metadata_check :: "DeviceMetadata \<Rightarrow> DiagnosticCheck" where
  "metadata_check metadata =
     (let missing = map fst (filter snd
            [(lit ''model'', dv_model metadata = None),
             (lit ''board revision'', dv_board_revision metadata = None),
             (lit ''kernel release'', dv_kernel_release metadata = None),
             (lit ''operating system'', dv_operating_system metadata = None)])
      in if missing = [] then
           DiagnosticCheck_new METADATA_CHECK CheckPass
             (lit ''model, board revision, kernel release, and operating system metadata are available'')
         else
           DiagnosticCheck_new METADATA_CHECK CheckWarning
             (lit ''metadata unavailable: '' @ str_join (lit '', '') missing))"

definition check_snapshot ::
  "DeviceMetadata \<Rightarrow> 'dt TelemetryState \<Rightarrow> DiagnosticCheck list" where
  "check_snapshot metadata snapshot =
     [collector_check (h_collector_errors (st_health snapshot)), metadata_check metadata,
      check_power (st_power snapshot)]"


section \<open>The MQTT probe\<close>

datatype MqttProbeFailure =
  ProbeRejected | ProbeUnreachable | ProbeTimedOut | ProbeProtocol | ProbeControlQueue

fun mqtt_failure_summary :: "MqttProbeFailure \<Rightarrow> rstr" where
  "mqtt_failure_summary ProbeRejected =
     lit ''broker rejected the diagnostic connection; verify credentials and connection policy''"
| "mqtt_failure_summary ProbeUnreachable =
     lit ''broker address could not be resolved or reached before the deadline''"
| "mqtt_failure_summary ProbeTimedOut = lit ''broker connection timed out after three seconds''"
| "mqtt_failure_summary ProbeProtocol =
     lit ''broker returned an invalid or unsupported MQTT response''"
| "mqtt_failure_summary ProbeControlQueue = lit ''diagnostic MQTT control queue was unavailable''"

definition mqtt_failure_check :: "MqttProbeFailure \<Rightarrow> DiagnosticCheck" where
  "mqtt_failure_check failure =
     DiagnosticCheck_new MQTT_CHECK CheckFailure (mqtt_failure_summary failure)"

fun classify_connection_error :: "ConnectionError \<Rightarrow> MqttProbeFailure" where
  "classify_connection_error (ConnectionRefused _) = ProbeRejected"
| "classify_connection_error NetworkTimeout = ProbeTimedOut"
| "classify_connection_error FlushTimeout = ProbeTimedOut"
| "classify_connection_error IoFailure = ProbeUnreachable"
| "classify_connection_error MqttState = ProbeProtocol"
| "classify_connection_error NotConnAck = ProbeProtocol"
| "classify_connection_error RequestsDone = ProbeProtocol"

text \<open>\<open>&s[..n]\<close>: \<^term>\<open>None\<close> is its panic, when \<open>n\<close> is no character boundary or past the end.\<close>

fun slice_to :: "nat \<Rightarrow> rstr \<Rightarrow> rstr option" where
  "slice_to n [] = (if n = 0 then Some [] else None)"
| "slice_to n (c # cs) =
     (if n = 0 then Some []
      else if length (utf8_encode_char c) \<le> n
      then map_option (Cons c) (slice_to (n - length (utf8_encode_char c)) cs) else None)"

text \<open>The identifier (\<^term>\<open>None\<close> is a panic) and the advanced \<open>MQTT_PROBE_SEQUENCE\<close>.\<close>

definition probe_suffix :: "u32 \<Rightarrow> u64 \<Rightarrow> rstr" where
  "probe_suffix process_id sequence =
     lit ''-check-'' @ show_nat (unat process_id) @ lit ''-'' @ show_nat (unat sequence)"

definition unique_probe_client_id :: "u32 \<Rightarrow> rstr \<Rightarrow> u64 \<Rightarrow> rstr option \<times> u64" where
  "unique_probe_client_id process_id base sequence =
     (let suf = probe_suffix process_id sequence;
          prefix_length = MQTT_PROBE_CLIENT_ID_LIMIT - str_len suf
      in (map_option (\<lambda>prefix. prefix @ suf) (slice_to (min (str_len base) prefix_length) base),
          sequence + 1))"

definition probe_options :: "rstr \<Rightarrow> MqttConfig \<Rightarrow> MqttCredentials \<Rightarrow> ConnectOptions" where
  "probe_options client_id config credentials =
     \<lparr>opt_client_id = client_id, opt_host = mc_host config, opt_port = mc_port config,
      opt_clean_session = True, opt_keep_alive = min (mc_keep_alive config) (from_secs 30),
      opt_credentials = (cr_username credentials, cr_password credentials),
      opt_last_will = None,
      opt_max_packet_size = (MQTT_MAX_PACKET_BYTES, MQTT_MAX_PACKET_BYTES),
      opt_request_channel_capacity = MQTT_REQUEST_CAPACITY, opt_inflight = 1\<rparr>"

record 's DiagEnv =
  dg_process_status :: "'s \<Rightarrow> rstr option \<times> 's"
  dg_open :: "ConnectOptions \<Rightarrow> u64 \<Rightarrow> 's \<Rightarrow> 's"
  dg_start_deadline :: "duration \<Rightarrow> 's \<Rightarrow> 's"
  dg_poll :: "'s \<Rightarrow> (ConnectionError + Event) option \<times> 's"
  dg_try_disconnect :: "'s \<Rightarrow> bool \<times> 's"

text \<open>
  The body of the probe's loop after a poll: \<^term>\<open>Inl\<close> the result, or \<^term>\<open>Inr\<close> the new value of
  \<open>connected\<close>.  A poll is \<^term>\<open>None\<close> when the probe's deadline comes first.
\<close>

definition probe_event ::
  "'s DiagEnv \<Rightarrow> bool \<Rightarrow> (ConnectionError + Event) option \<Rightarrow> 's \<Rightarrow>
   ((MqttProbeFailure + unit) + bool) \<times> 's" where
  "probe_event env accepted polled s =
     (case polled of
        None \<Rightarrow> (Inl (Inl ProbeTimedOut), s)
      | Some (Inr event) \<Rightarrow>
          (if event = IncomingConnAck Success then
             (case dg_try_disconnect env s of (queued, s1) \<Rightarrow>
                (if queued then Inr True else Inl (Inl ProbeControlQueue), s1))
           else if event = OutgoingDisconnectEvent \<and> accepted then (Inl (Inr ()), s)
           else (Inr accepted, s))
      | Some (Inl error) \<Rightarrow>
          (Inl (if accepted then Inr () else Inl (classify_connection_error error)), s))"

partial_function (option) probe_loop ::
  "'s DiagEnv \<Rightarrow> bool \<Rightarrow> 's \<Rightarrow> ((MqttProbeFailure + unit) \<times> 's) option" where
  "probe_loop env accepted s =
     (case dg_poll env s of (polled, s1) \<Rightarrow>
        (case probe_event env accepted polled s1 of
           (Inl r, s2) \<Rightarrow> Some (r, s2)
         | (Inr accepted1, s2) \<Rightarrow> probe_loop env accepted1 s2))"

text \<open>\<^term>\<open>None\<close>: the probe panics or never comes back.\<close>

definition probe_mqtt ::
  "'s DiagEnv \<Rightarrow> u32 \<Rightarrow> MqttConfig \<Rightarrow> MqttCredentials \<Rightarrow> u64 \<times> 's \<Rightarrow>
   ((MqttProbeFailure + unit) \<times> u64 \<times> 's) option" where
  "probe_mqtt env process_id config credentials w =
     (case w of (sequence, s) \<Rightarrow>
      case unique_probe_client_id process_id (mc_client_id config) sequence of
        (None, _) \<Rightarrow> None
      | (Some client_id, sequence1) \<Rightarrow>
          (let options = probe_options client_id config credentials;
               s1 = dg_start_deadline env MQTT_PROBE_TIMEOUT
                      (dg_open env options MQTT_CONNECTION_TIMEOUT_SECONDS s)
           in map_option (\<lambda>(r, s2). (r, sequence1, s2)) (probe_loop env False s1)))"

definition check_mqtt ::
  "'s DiagEnv \<Rightarrow> u32 \<Rightarrow> MqttConfig \<Rightarrow> MqttCredentials \<Rightarrow> u64 \<times> 's \<Rightarrow>
   (DiagnosticCheck \<times> u64 \<times> 's) option" where
  "check_mqtt env process_id config credentials w =
     map_option
       (\<lambda>(r, w1).
          (case r of
             Inr _ \<Rightarrow>
               DiagnosticCheck_new MQTT_CHECK CheckPass
                 (lit ''authenticated clean-session connection succeeded without publishing'')
           | Inl failure \<Rightarrow> mqtt_failure_check failure, w1))
       (probe_mqtt env process_id config credentials w)"


section \<open>The run\<close>

datatype MqttProbe = ProbeEnabled | ProbeSkipped

text \<open>What is fixed when the program is built or started.\<close>

record HostPlatform =
  pf_arch :: rstr
  pf_is_arm :: bool
  pf_process_id :: u32

definition check_runtime_identity :: "'s DiagEnv \<Rightarrow> 's \<Rightarrow> DiagnosticCheck \<times> 's" where
  "check_runtime_identity env s =
     (case dg_process_status env s of (status, s1) \<Rightarrow>
        (identity_check (Option.bind status parse_process_identity), s1))"

definition collector_checks ::
  "('s, 'dt) Env \<Rightarrow> Config \<Rightarrow> 's \<Rightarrow> DiagnosticCheck list \<times> 's" where
  "collector_checks cenv config s =
     (case Collector_new cenv (cfg_collector config) s of
        (Inr collector, s1) \<Rightarrow>
          (case collect cenv collector s1 of (snapshot, _, s2) \<Rightarrow>
             (check_snapshot (co_metadata collector) snapshot, s2))
      | (Inl _, s1) \<Rightarrow>
          ([DiagnosticCheck_new COLLECTOR_CHECK CheckFailure
              (lit ''vcgencmd was not found at the configured or standard locations''),
            DiagnosticCheck_new METADATA_CHECK CheckSkipped
              (lit ''hardware metadata was not checked because the collector could not start''),
            DiagnosticCheck_new POWER_CHECK CheckSkipped
              (lit ''power flags were not checked because the collector could not start'')], s1))"

definition probe_check ::
  "'s DiagEnv \<Rightarrow> u32 \<Rightarrow> Config \<Rightarrow> MqttProbe \<Rightarrow> MqttCredentials option \<Rightarrow> u64 \<times> 's \<Rightarrow>
   (DiagnosticCheck \<times> u64 \<times> 's) option" where
  "probe_check env process_id config mqtt_probe credentials w =
     (case mqtt_probe of
        ProbeSkipped \<Rightarrow>
          Some (DiagnosticCheck_new MQTT_CHECK CheckSkipped
                  (lit ''broker connectivity was explicitly skipped''), w)
      | ProbeEnabled \<Rightarrow>
          (case credentials of
             Some cr \<Rightarrow> check_mqtt env process_id (cfg_mqtt config) cr w
           | None \<Rightarrow>
               Some (DiagnosticCheck_new MQTT_CHECK CheckSkipped
                       (lit ''broker connectivity requires a valid credential file''), w)))"

definition run_checks ::
  "FsLib \<Rightarrow> ('s, 'dt) Env \<Rightarrow> 's DiagEnv \<Rightarrow> HostPlatform \<Rightarrow> Config \<Rightarrow> MqttProbe \<Rightarrow> u64 \<times> 's \<Rightarrow>
   (DiagnosticReport \<times> u64 \<times> 's) option" where
  "run_checks fs cenv env platform config mqtt_probe w =
     (case w of (sequence, s) \<Rightarrow>
      let (credential_check, credentials) = load_credentials fs config;
          (identity, s1) = check_runtime_identity env s;
          architecture = architecture_check (pf_arch platform) (pf_is_arm platform);
          (snapshot, s2) = collector_checks cenv config s1
      in map_option
           (\<lambda>(mqtt, w1). ([credential_check, identity, architecture] @ snapshot @ [mqtt], w1))
           (probe_check env (pf_process_id platform) config mqtt_probe credentials (sequence, s2)))"


section \<open>Facts: the probe\<close>

lemma slice_to_length: "slice_to n s = Some t \<Longrightarrow> str_len t = n"
  by (induction n s arbitrary: t rule: slice_to.induct) (auto simp: str_len_def split: if_splits)

lemma slice_to_take: "list_all (\<lambda>c. c < 128) s \<Longrightarrow> n \<le> length s \<Longrightarrow> slice_to n s = Some (take n s)"
proof (induction s arbitrary: n)
  case (Cons c s)
  then show ?case by (cases n) (simp_all add: utf8_encode_char_def)
qed simp

lemma probe_suffix_length: "length (probe_suffix pid n) \<le> 38"
proof -
  have "unat pid < 10 ^ 10" using unsigned_less [where 'a = nat, of pid] by simp
  then have "length (show_nat (unat pid)) \<le> 10"
    using nat_digits_length [of "unat pid" 10] by (simp add: to_radix_def)
  moreover have "unat n < 10 ^ 20" using unsigned_less [where 'a = nat, of n] by simp
  then have "length (show_nat (unat n)) \<le> 20"
    using nat_digits_length [of "unat n" 20] by (simp add: to_radix_def)
  ultimately show ?thesis by (simp add: probe_suffix_def lit_Cons)
qed

lemma probe_suffix_chars:
  "list_all (\<lambda>c. is_ascii_alphanumeric c \<or> c = 45) (probe_suffix pid n)"
  using to_radix_digits
  by (auto simp: probe_suffix_def list_all_iff lit_Cons is_ascii_alphanumeric_def is_ascii_digit_def
      is_ascii_lowercase_def)

lemma probe_suffix_ascii: "list_all (\<lambda>c. c < 128) (probe_suffix pid n)"
  using probe_suffix_chars [of pid n] alphanumeric_facts(2) by (auto simp: list_all_iff)

lemma unique_probe_client_id_ascii:
  assumes "list_all (\<lambda>c. c < 128) base"
  shows "unique_probe_client_id pid base n =
    (Some (take (128 - length (probe_suffix pid n)) base @ probe_suffix pid n), n + 1)"
proof -
  have "str_len base = length base" "str_len (probe_suffix pid n) = length (probe_suffix pid n)"
    using assms probe_suffix_ascii by (simp_all add: str_len_ascii)
  then show ?thesis
    using assms by (simp add: unique_probe_client_id_def Let_def MQTT_PROBE_CLIENT_ID_LIMIT_def
        slice_to_take take_all_iff min_def)
qed

text \<open>Two texts that end in a dash and digits agree on the digits.\<close>

lemma dash_split:
  assumes "a @ (45 :: rchar) # d = b @ 45 # e" "45 \<notin> set d" "45 \<notin> set e"
  shows "a = b \<and> d = e"
proof -
  have "rev d @ 45 # rev a = rev e @ 45 # rev b"
    using arg_cong [OF assms(1), of rev] by simp
  moreover from this have "takeWhile (\<lambda>c. c \<noteq> 45) (rev d @ 45 # rev a) =
      takeWhile (\<lambda>c. c \<noteq> 45) (rev e @ 45 # rev b)" by simp
  then have "rev d = rev e" using assms(2,3) by (subst (asm) (1 2) takeWhile_append2) auto
  ultimately show ?thesis by simp
qed

lemma probe_suffix_inj:
  assumes "a @ probe_suffix p m = b @ probe_suffix q n"
  shows "p = q \<and> m = n"
proof -
  have no: "45 \<notin> set (show_nat k)" for k using to_radix_digits [of 45 k] by auto
  have eq: "(a @ lit ''-check-'' @ show_nat (unat p)) @ 45 # show_nat (unat m) =
      (b @ lit ''-check-'' @ show_nat (unat q)) @ 45 # show_nat (unat n)"
    using assms by (simp add: probe_suffix_def lit_Cons)
  then have m: "show_nat (unat m) = show_nat (unat n)"
    and "a @ lit ''-check-'' @ show_nat (unat p) = b @ lit ''-check-'' @ show_nat (unat q)"
    using dash_split [OF eq no no] by simp_all
  then have "(a @ lit ''-check'') @ 45 # show_nat (unat p) = (b @ lit ''-check'') @ 45 # show_nat (unat q)"
    by (simp add: lit_Cons)
  then have "show_nat (unat p) = show_nat (unat q)" using dash_split no by blast
  then show ?thesis using m to_radix_inj by (metis unsigned_word_eqI)
qed

text \<open>
  C34. The identifier of a probe is fit for use and unique: for an accepted configuration the slice of the
  configured identifier does not panic, the result is an identifier of at most 128 bytes with the
  allowed characters only, and identifiers of different processes or of different probes of one
  process never collide, whatever the configured identifiers are.\<close>

theorem probe_client_id_unique:
  "case (RawConfig_validate r1, RawConfig_validate r2) of
     (Inr c1, Inr c2) \<Rightarrow>
       (case (fst (unique_probe_client_id p1 (mc_client_id (cfg_mqtt c1)) n1),
              fst (unique_probe_client_id p2 (mc_client_id (cfg_mqtt c2)) n2)) of
          (Some a, Some b) \<Rightarrow>
            identifier_ok 128 (lit ''._-'') a \<and> identifier_ok 128 (lit ''._-'') b \<and>
            (if a = b then p1 = p2 \<and> n1 = n2 else True)
        | _ \<Rightarrow> False)
   | _ \<Rightarrow> True"
proof -
  have one: "list_all (\<lambda>c. c < 128) (mc_client_id (cfg_mqtt c)) \<and>
      identifier_ok 128 (lit ''._-'') (take (128 - length (probe_suffix p n)) (mc_client_id (cfg_mqtt c)) @
        probe_suffix p n)"
    if "RawConfig_validate r = Inr c" for r c p n
  proof -
    have id: "identifier_ok 128 (lit ''._-'') (mc_client_id (cfg_mqtt c))"
      using that by (simp add: validate_iff raw_ok_def config_of_def Let_def)
    then have "list_all (\<lambda>c. c < 128) (mc_client_id (cfg_mqtt c))"
      using alphanumeric_facts(2) by (auto simp: identifier_ok_def list_all_iff lit_Cons)
    moreover have "probe_suffix p n \<noteq> []" by (simp add: probe_suffix_def lit_Cons)
    ultimately show ?thesis
      using id probe_suffix_length [of p n] probe_suffix_chars [of p n]
      by (auto simp: identifier_ok_def list_all_iff lit_Cons dest: in_set_takeD)
  qed
  show ?thesis
  proof (cases "RawConfig_validate r1")
    case c1: (Inr c1)
    show ?thesis
    proof (cases "RawConfig_validate r2")
      case c2: (Inr c2)
      show ?thesis
        using one [OF c1, of p1 n1] one [OF c2, of p2 n2] c1 c2
        by (auto simp: unique_probe_client_id_ascii dest: probe_suffix_inj)
    qed (simp add: c1)
  qed simp
qed


section \<open>Facts: the status of the process\<close>

lemma numbers_parsed:
  "collect_options (map (from_str_radix 10) (map (\<lambda>w :: u32. show_nat (unat w)) ws)) = Some ws"
  by (induction ws) (simp_all add: from_str_radix_to_radix)

text \<open>The kernel's rendering of the identity lines of \<open>/proc/self/status\<close>.\<close>

definition tab_numbers :: "u32 list \<Rightarrow> rstr" where
  "tab_numbers ws = concat (map (\<lambda>w. 9 # show_nat (unat w)) ws)"

definition kernel_status_lines :: "u32 list \<Rightarrow> u32 list \<Rightarrow> nat \<Rightarrow> u32 list \<Rightarrow> rstr list" where
  "kernel_status_lines uids gids fd_size groups =
     [lit ''Uid:'' @ tab_numbers uids, lit ''Gid:'' @ tab_numbers gids,
      lit ''FDSize:'' @ [9] @ show_nat fd_size,
      lit ''Groups:'' @ [9] @ concat (map (\<lambda>w. show_nat (unat w) @ [32]) groups)]"

definition kernel_status ::
  "rstr list \<Rightarrow> u32 list \<Rightarrow> u32 list \<Rightarrow> nat \<Rightarrow> u32 list \<Rightarrow> rstr \<Rightarrow> rstr" where
  "kernel_status before uids gids fd_size groups after =
     concat (map (\<lambda>l. l @ [10]) (before @ kernel_status_lines uids gids fd_size groups)) @ after"

definition other_line :: "rstr \<Rightarrow> bool" where
  "other_line l \<longleftrightarrow> 10 \<notin> set l \<and> 13 \<notin> set l \<and>
     strip_prefix (lit ''Uid:'') l = None \<and> strip_prefix (lit ''Gid:'') l = None \<and>
     strip_prefix (lit ''Groups:'') l = None"

lemma tab_numbers_split:
  "split_ascii_whitespace (tab_numbers ws) = map (\<lambda>w. show_nat (unat w)) ws"
  using split_ascii_words(1) [of "map (\<lambda>w. show_nat (unat w)) ws"]
  by (simp add: tab_numbers_def list_all_iff ascii_word_show comp_def)

lemma group_numbers_split:
  "split_ascii_whitespace (9 # concat (map (\<lambda>w. show_nat (unat w) @ [32]) ws)) =
     map (\<lambda>w. show_nat (unat w)) ws"
proof -
  have "split_ascii_whitespace (9 # t) = split_ascii_whitespace t" for t
    by (simp add: split_ascii_whitespace_def is_ascii_whitespace_def)
  then show ?thesis
    using split_ascii_words(2) [of "map (\<lambda>w. show_nat (unat w)) ws"]
    by (simp add: list_all_iff ascii_word_show comp_def)
qed

lemma kernel_lines_no_break:
  "list_all (\<lambda>l. 10 \<notin> set l \<and> 13 \<notin> set l) (kernel_status_lines uids gids fd_size groups)"
proof -
  have "c \<in> set (show_nat n) \<Longrightarrow> c \<noteq> 10 \<and> c \<noteq> 13" for c n
    using to_radix_chars [of c 10 n] by auto
  then show ?thesis
    by (auto simp: kernel_status_lines_def tab_numbers_def lit_Cons)
qed

lemma kernel_status_lines_of:
  assumes "list_all other_line before"
  shows "lines (kernel_status before uids gids fd_size groups after) =
    before @ kernel_status_lines uids gids fd_size groups @ lines after"
  unfolding kernel_status_def
  by (subst lines_terminated) (use assms kernel_lines_no_break in \<open>auto simp: other_line_def list_all_iff\<close>)

lemma kernel_status_fields:
  assumes "list_all other_line before"
  shows "parse_status_numbers (kernel_status before uids gids fd_size groups after) (lit ''Uid:'') =
      (if uids = [] then None else Some uids)"
    and "parse_status_numbers (kernel_status before uids gids fd_size groups after) (lit ''Gid:'') =
      (if gids = [] then None else Some gids)"
    and "parse_status_numbers (kernel_status before uids gids fd_size groups after) (lit ''Groups:'') =
      Some groups"
proof -
  have other: "find_map (strip_prefix f) before = None"
    if "f \<in> {lit ''Uid:'', lit ''Gid:'', lit ''Groups:''}" for f
    using that assms by (intro find_map_None) (auto simp: list_all_iff other_line_def)
  have found: "find_map (strip_prefix f) (lines (kernel_status before uids gids fd_size groups after)) =
      find_map (strip_prefix f) (kernel_status_lines uids gids fd_size groups @ lines after)"
    if "f \<in> {lit ''Uid:'', lit ''Gid:'', lit ''Groups:''}" for f
    using other [OF that] by (simp add: kernel_status_lines_of [OF assms] find_map_append)
  note parsed = numbers_parsed [unfolded map_map comp_def]
  show "parse_status_numbers (kernel_status before uids gids fd_size groups after) (lit ''Uid:'') =
      (if uids = [] then None else Some uids)"
    using found [of "lit ''Uid:''"] numbers_parsed
    by (simp add: parse_status_numbers_def kernel_status_lines_def tab_numbers_split lit_Cons)
  show "parse_status_numbers (kernel_status before uids gids fd_size groups after) (lit ''Gid:'') =
      (if gids = [] then None else Some gids)"
    using found [of "lit ''Gid:''"] numbers_parsed
    by (simp add: parse_status_numbers_def kernel_status_lines_def tab_numbers_split lit_Cons)
  show "parse_status_numbers (kernel_status before uids gids fd_size groups after) (lit ''Groups:'') =
      Some groups"
    using found [of "lit ''Groups:''"] numbers_parsed
    by (simp add: parse_status_numbers_def kernel_status_lines_def group_numbers_split lit_Cons)
qed

text \<open>
  C35. The identity check sees the process as the kernel describes it: from a status file with the kernel's
  lines for the four user and group identifiers and the supplementary groups, after any other lines
  and before any text, the effective identifiers and the groups are read; the check fails exactly for
  effective user 0, and passes exactly when no identifier it read is 0.\<close>

theorem identity_check_kernel_status:
  assumes "list_all other_line before"
  shows "let identity = parse_process_identity
            (kernel_status before [ru, eu, su, fu] [rg, eg, sg, fg] fd_size groups after);
           status = ck_status (identity_check identity)
         in identity = Some \<lparr>id_effective_uid = eu, id_effective_gid = eg,
                             id_supplementary_groups = groups\<rparr> \<and>
            (status = CheckFailure) = (eu = 0) \<and> (status = CheckPass) = (0 \<notin> {eu, eg} \<union> set groups)"
  by (auto simp: parse_process_identity_def kernel_status_fields [OF assms] nth_opt_def
      identity_check_def DiagnosticCheck_new_def Let_def)

theorem identity_check_kernel_status_witness:
  "list_all other_line [lit ''State: S''] \<and>
   ck_status (identity_check (parse_process_identity
     (kernel_status [lit ''State: S''] [999, 999, 999, 999] [990, 990, 990, 990] 64 [44] []))) = CheckPass"
proof -
  have h: "list_all other_line [lit ''State: S'']" by (simp add: other_line_def lit_Cons)
  show ?thesis
    using h identity_check_kernel_status [OF h, of 999 999 999 999 990 990 990 990 64 "[44]" "[]"]
    unfolding Let_def by auto
qed


section \<open>What a report says\<close>

lemma set_str_insert [simp]: "set (str_insert s ts) = insert s (set ts)"
  by (induction ts) auto

lemma set_str_sort [simp]: "set (str_sort ts) = set ts"
  unfolding str_sort_def by (induction ts) auto

lemma remdups_adj_single: "remdups_adj xs = [a] \<longleftrightarrow> set xs = {a}"
proof
  assume "set xs = {a}"
  then show "remdups_adj xs = [a]"
    by (induction xs rule: remdups_adj.induct) (auto simp: subset_singleton_iff split: if_splits)
next
  assume "remdups_adj xs = [a]"
  then show "set xs = {a}" using remdups_adj_set [of xs] by simp
qed

lemma collector_check_status:
  "ck_status (collector_check errors) \<noteq> CheckFailure \<longleftrightarrow>
     set (map ce_metric errors) \<subseteq> {lit ''cpu.frequency_mhz''}"
  by (auto simp: collector_check_def DiagnosticCheck_new_def Let_def remdups_adj_single
      subset_singleton_iff)

lemma never_failures [simp]:
  "ck_status (architecture_check a b) \<noteq> CheckFailure"
  "ck_status (check_power p) \<noteq> CheckFailure"
  "ck_status (metadata_check m) \<noteq> CheckFailure"
  by (simp_all add: architecture_check_def check_power_def metadata_check_def DiagnosticCheck_new_def
      Let_def)

lemma identity_failure [simp]:
  "ck_status (identity_check i) = CheckFailure \<longleftrightarrow>
     (case i of None \<Rightarrow> True | Some p \<Rightarrow> id_effective_uid p = 0)"
  by (auto simp: identity_check_def DiagnosticCheck_new_def Let_def split: option.splits)

definition CHECK_NAMES :: "rstr list" where
  "CHECK_NAMES =
     [CREDENTIALS_CHECK, IDENTITY_CHECK, ARCHITECTURE_CHECK, COLLECTOR_CHECK, METADATA_CHECK,
      POWER_CHECK, MQTT_CHECK]"

lemma check_names [simp]:
  "ck_name (fst (load_credentials fs config)) = CREDENTIALS_CHECK"
  "ck_name (identity_check i) = IDENTITY_CHECK"
  "ck_name (architecture_check a b) = ARCHITECTURE_CHECK"
  "ck_name (collector_check es) = COLLECTOR_CHECK"
  "ck_name (metadata_check m) = METADATA_CHECK"
  "ck_name (check_power p) = POWER_CHECK"
  "ck_name (mqtt_failure_check f) = MQTT_CHECK"
  by (simp_all add: load_credentials_def identity_check_def architecture_check_def collector_check_def
      metadata_check_def check_power_def mqtt_failure_check_def DiagnosticCheck_new_def Let_def
      split: sum.split option.split)

lemma collector_checks_names:
  "map ck_name (fst (collector_checks cenv config s)) = [COLLECTOR_CHECK, METADATA_CHECK, POWER_CHECK]"
  by (auto simp: collector_checks_def check_snapshot_def DiagnosticCheck_new_def
      split: prod.splits sum.splits)

text \<open>The fixed texts of the checks that handle the password and the broker's answers.\<close>

definition credential_texts :: "rstr list" where
  "credential_texts =
     [lit ''credential file is readable and passes permission checks'',
      lit ''credential file could not be read'', lit ''credential path is not a regular file'',
      lit ''credential file exceeds the 64 KiB limit'', lit ''credential file is not valid UTF-8'',
      lit ''credential file is empty'', lit ''credential exceeds the MQTT UTF-8 field limit'',
      lit ''credential file grants access beyond its owner and group'',
      lit ''credential validation could not be completed'']"

definition mqtt_texts :: "rstr list" where
  "mqtt_texts =
     [lit ''authenticated clean-session connection succeeded without publishing'',
      lit ''broker connectivity was explicitly skipped'',
      lit ''broker connectivity requires a valid credential file''] @
     map mqtt_failure_summary
       [ProbeRejected, ProbeUnreachable, ProbeTimedOut, ProbeProtocol, ProbeControlQueue]"

lemma credential_summary_text: "credential_failure_summary e \<in> set credential_texts"
  by (cases e) (simp_all only: credential_failure_summary.simps credential_texts_def list.set insert_iff simp_thms)

lemma load_credentials_text: "ck_summary (fst (load_credentials fs config)) \<in> set credential_texts"
  using credential_summary_text
  by (auto simp: load_credentials_def DiagnosticCheck_new_def credential_texts_def split: sum.split)

lemma mqtt_failure_text: "mqtt_failure_summary f \<in> set mqtt_texts"
  by (cases f) (simp_all only: mqtt_texts_def set_append list.map list.set insert_iff Un_iff simp_thms)

lemma check_mqtt_cases:
  assumes "check_mqtt env pid config cr w = Some (check, w1)"
  obtains (accepted) "probe_mqtt env pid config cr w = Some (Inr (), w1)"
      "check = DiagnosticCheck_new MQTT_CHECK CheckPass
         (lit ''authenticated clean-session connection succeeded without publishing'')"
    | (failed) f where "probe_mqtt env pid config cr w = Some (Inl f, w1)" "check = mqtt_failure_check f"
proof -
  obtain r where r: "probe_mqtt env pid config cr w = Some (r, w1)"
    "check = (case r of
        Inr _ \<Rightarrow> DiagnosticCheck_new MQTT_CHECK CheckPass
          (lit ''authenticated clean-session connection succeeded without publishing'')
      | Inl failure \<Rightarrow> mqtt_failure_check failure)"
    using assms by (auto simp: check_mqtt_def)
  then show thesis by (cases r) (auto intro: that)
qed

lemma probe_check_text:
  "probe_check env pid config probe credentials w = Some (check, w1) \<Longrightarrow>
     ck_name check = MQTT_CHECK \<and> ck_summary check \<in> set mqtt_texts"
proof -
  assume run: "probe_check env pid config probe credentials w = Some (check, w1)"
  have fixed: "lit ''authenticated clean-session connection succeeded without publishing'' \<in> set mqtt_texts"
    "lit ''broker connectivity was explicitly skipped'' \<in> set mqtt_texts"
    "lit ''broker connectivity requires a valid credential file'' \<in> set mqtt_texts"
    by (simp_all only: mqtt_texts_def set_append list.set insert_iff Un_iff simp_thms)
  have "ck_name check = MQTT_CHECK \<and> ck_summary check \<in> set mqtt_texts"
    if "check_mqtt env pid (cfg_mqtt config) cr w = Some (check, w1)" for cr
    using that
    by (cases rule: check_mqtt_cases)
      (simp_all add: fixed mqtt_failure_text mqtt_failure_check_def DiagnosticCheck_new_def
        del: mqtt_failure_summary.simps)
  then show ?thesis
    using run fixed
    by (auto simp: probe_check_def DiagnosticCheck_new_def split: MqttProbe.splits option.splits)
qed

lemma run_checks_parts:
  assumes "run_checks fs cenv env platform config probe (sequence, s) = Some (report, w1)"
  obtains status s1 s2 mqtt where
    "dg_process_status env s = (status, s1)"
    "s2 = snd (collector_checks cenv config s1)"
    "probe_check env (pf_process_id platform) config probe (snd (load_credentials fs config))
       (sequence, s2) = Some (mqtt, w1)"
    "report = [fst (load_credentials fs config),
       identity_check (Option.bind status parse_process_identity),
       architecture_check (pf_arch platform) (pf_is_arm platform)] @
       fst (collector_checks cenv config s1) @ [mqtt]"
  using assms that
  by (auto simp: run_checks_def check_runtime_identity_def Let_def split: prod.splits)

text \<open>
  C33. A report is complete, ordered and free of secrets: it holds the seven checks under their stable
  names and in their stable order, and the summaries of the two checks that handle the password and
  the broker's answers are among seventeen fixed texts, so neither the password nor a raw transport
  error can appear in them.\<close>

theorem report_ordered_and_secret_free:
  "case run_checks fs cenv env platform config probe (sequence, s) of
     None \<Rightarrow> True
   | Some (report, w1) \<Rightarrow>
       map ck_name report = CHECK_NAMES \<and>
       ck_summary (hd report) \<in> set credential_texts \<and> ck_summary (last report) \<in> set mqtt_texts"
proof (cases "run_checks fs cenv env platform config probe (sequence, s)")
  case (Some r)
  obtain report w1 where run: "run_checks fs cenv env platform config probe (sequence, s) = Some (report, w1)"
    using Some by (cases r) simp
  obtain status s1 s2 mqtt where p:
    "probe_check env (pf_process_id platform) config probe (snd (load_credentials fs config))
       (sequence, s2) = Some (mqtt, w1)"
    "report = [fst (load_credentials fs config),
       identity_check (Option.bind status parse_process_identity),
       architecture_check (pf_arch platform) (pf_is_arm platform)] @
       fst (collector_checks cenv config s1) @ [mqtt]"
    by (rule run_checks_parts [OF run])
  show ?thesis
    using probe_check_text [OF p(1)] load_credentials_text [of fs config]
      collector_checks_names [of cenv config s1]
    by (simp add: run p(2) CHECK_NAMES_def)
qed simp

lemma collector_checks_failures:
  "has_failures (fst (collector_checks cenv config s)) \<longleftrightarrow>
     (case Collector_new cenv (cfg_collector config) s of
        (Inl _, _) \<Rightarrow> True
      | (Inr collector, s1) \<Rightarrow>
          \<not> error_metrics (fst (collect cenv collector s1)) \<subseteq> {lit ''cpu.frequency_mhz''})"
proof -
  have "ck_status (collector_check (h_collector_errors (st_health st))) = CheckFailure \<longleftrightarrow>
      \<not> error_metrics st \<subseteq> {lit ''cpu.frequency_mhz''}" for st :: "'b TelemetryState"
    using collector_check_status [of "h_collector_errors (st_health st)"] by (simp only: error_metrics_def) blast
  then show ?thesis
    by (simp add: collector_checks_def check_snapshot_def has_failures_def DiagnosticCheck_new_def
        split: prod.split sum.split)
qed

text \<open>
  C12. Exit code 0 of \<open>check\<close> means that the service can start: it is returned exactly when the credential
  file loads, the process has a known effective user other than 0, a firmware command was found and
  one cycle reported no error except possibly the optional CPU frequency, and the broker accepted the
  probe or the operator skipped it.\<close>

theorem check_succeeds_iff:
  "case run_checks fs cenv env platform config probe (sequence, s) of
     None \<Rightarrow> True
   | Some (report, w1) \<Rightarrow>
       exit_code report = SUCCESS \<longleftrightarrow>
         (let (status, s1) = dg_process_status env s in
          (\<exists>cr i collector s2.
             MqttCredentials_load fs (cfg_mqtt config) = Inr cr \<and>
             Option.bind status parse_process_identity = Some i \<and> id_effective_uid i \<noteq> 0 \<and>
             Collector_new cenv (cfg_collector config) s1 = (Inr collector, s2) \<and>
             (case collect cenv collector s2 of (st, _, s3) \<Rightarrow>
                error_metrics st \<subseteq> {lit ''cpu.frequency_mhz''} \<and>
                (probe = ProbeSkipped \<or>
                 map_option fst (probe_mqtt env (pf_process_id platform) (cfg_mqtt config) cr
                   (sequence, s3)) = Some (Inr ())))))"
proof (cases "run_checks fs cenv env platform config probe (sequence, s)")
  case (Some r)
  obtain report w1 where run: "run_checks fs cenv env platform config probe (sequence, s) = Some (report, w1)"
    using Some by (cases r) simp
  obtain status s1 s2 mqtt where p: "dg_process_status env s = (status, s1)"
    "s2 = snd (collector_checks cenv config s1)"
    "probe_check env (pf_process_id platform) config probe (snd (load_credentials fs config))
       (sequence, s2) = Some (mqtt, w1)"
    "report = [fst (load_credentials fs config),
       identity_check (Option.bind status parse_process_identity),
       architecture_check (pf_arch platform) (pf_is_arm platform)] @
       fst (collector_checks cenv config s1) @ [mqtt]"
    by (rule run_checks_parts [OF run])
  have report: "exit_code report = SUCCESS \<longleftrightarrow>
      ck_status (fst (load_credentials fs config)) \<noteq> CheckFailure \<and>
      (\<exists>i. Option.bind status parse_process_identity = Some i \<and> id_effective_uid i \<noteq> 0) \<and>
      \<not> has_failures (fst (collector_checks cenv config s1)) \<and> ck_status mqtt \<noteq> CheckFailure"
    by (auto simp: exit_code_def has_failures_def p(4) DIAGNOSTIC_ERROR_def SUCCESS_def
        split: option.splits)
  have mqtt: "ck_status mqtt \<noteq> CheckFailure \<longleftrightarrow>
      probe = ProbeSkipped \<or> snd (load_credentials fs config) = None \<or>
      (\<exists>cr. snd (load_credentials fs config) = Some cr \<and>
        map_option fst (probe_mqtt env (pf_process_id platform) (cfg_mqtt config) cr (sequence, s2)) =
          Some (Inr ()))"
  proof -
    have "ck_status mqtt \<noteq> CheckFailure \<longleftrightarrow>
        map_option fst (probe_mqtt env (pf_process_id platform) (cfg_mqtt config) cr (sequence, s2)) =
          Some (Inr ())"
      if "check_mqtt env (pf_process_id platform) (cfg_mqtt config) cr (sequence, s2) = Some (mqtt, w1)" for cr
      using that
      by (cases rule: check_mqtt_cases)
        (simp_all add: mqtt_failure_check_def DiagnosticCheck_new_def)
    then show ?thesis
      using p(3)
      by (auto simp: probe_check_def DiagnosticCheck_new_def split: MqttProbe.splits option.splits)
  qed
  have creds: "ck_status (fst (load_credentials fs config)) \<noteq> CheckFailure \<longleftrightarrow>
      (\<exists>cr. MqttCredentials_load fs (cfg_mqtt config) = Inr cr)"
    "snd (load_credentials fs config) = ok (MqttCredentials_load fs (cfg_mqtt config))"
    by (auto simp: load_credentials_def DiagnosticCheck_new_def ok_def split: sum.splits)
  show ?thesis
    using p(2) unfolding run option.case prod.case report mqtt creds collector_checks_failures
    by (auto simp: p(1) ok_def collector_checks_def split: sum.splits prod.splits)
qed simp


section \<open>The probe comes back with the right answer\<close>

datatype ProbeCall =
    OpenedWith ConnectOptions
  | PolledResult "(ConnectionError + Event) option"
  | AskedDisconnect

definition probe_logged :: "'s DiagEnv \<Rightarrow> ('s \<times> ProbeCall list) DiagEnv" where
  "probe_logged env =
     \<lparr>dg_process_status = lifted (dg_process_status env),
      dg_open = (\<lambda>options timeout w.
        (dg_open env options timeout (fst w), snd w @ [OpenedWith options])),
      dg_start_deadline = (\<lambda>d w. (dg_start_deadline env d (fst w), snd w)),
      dg_poll = (\<lambda>w. case dg_poll env (fst w) of (p, s) \<Rightarrow> (p, s, snd w @ [PolledResult p])),
      dg_try_disconnect = (\<lambda>w. case dg_try_disconnect env (fst w) of
         (b, s) \<Rightarrow> (b, s, snd w @ [AskedDisconnect]))\<rparr>"

text \<open>
  What the runtime promises of the deadline: it comes after finitely many polls, however much happens
  before.
\<close>

definition probe_laws :: "'s DiagEnv \<Rightarrow> ('s \<Rightarrow> nat) \<Rightarrow> bool" where
  "probe_laws env fuel \<longleftrightarrow>
     (\<forall>s. case dg_poll env s of (None, _) \<Rightarrow> True | (Some _, s') \<Rightarrow> fuel s' < fuel s) \<and>
     (\<forall>s. fuel (snd (dg_try_disconnect env s)) \<le> fuel s)"

abbreviation accepted_poll :: "(ConnectionError + Event) option" where
  "accepted_poll \<equiv> Some (Inr (IncomingConnAck Success))"

text \<open>Each acceptance by the broker is answered by a disconnect, and by nothing else.\<close>

definition probe_calls :: "(ConnectionError + Event) option list \<Rightarrow> ProbeCall list" where
  "probe_calls ps =
     concat (map (\<lambda>p. PolledResult p # (if p = accepted_poll then [AskedDisconnect] else [])) ps)"

text \<open>The verdict on a sequence of polls; \<open>b\<close> tells of an acceptance before them.\<close>

definition probe_verdict ::
  "bool \<Rightarrow> (ConnectionError + Event) option list \<Rightarrow> MqttProbeFailure + unit \<Rightarrow> bool" where
  "probe_verdict b ps r \<longleftrightarrow>
     (case last ps of
        None \<Rightarrow> r = Inl ProbeTimedOut
      | Some (Inl e) \<Rightarrow>
          r = (if b \<or> accepted_poll \<in> set ps then Inr () else Inl (classify_connection_error e))
      | Some (Inr event) \<Rightarrow>
          if event = OutgoingDisconnectEvent then (b \<or> accepted_poll \<in> set ps) \<and> r = Inr ()
          else event = IncomingConnAck Success \<and> r = Inl ProbeControlQueue)"

lemma probe_verdict_Cons:
  "ps \<noteq> [] \<Longrightarrow> probe_verdict (b \<or> p = accepted_poll) ps r \<Longrightarrow> probe_verdict b (p # ps) r"
  by (auto simp: probe_verdict_def split: option.splits sum.splits if_splits)

lemma probe_loop_outcome:
  assumes "probe_laws env fuel"
  shows "\<exists>ps r w'. probe_loop (probe_logged env) b w = Some (r, w') \<and> ps \<noteq> [] \<and>
    snd w' = snd w @ probe_calls ps \<and> probe_verdict b ps r"
proof (induction "fuel (fst w)" arbitrary: b w rule: less_induct)
  case less
  obtain p s1 where p: "dg_poll env (fst w) = (p, s1)" by (cases "dg_poll env (fst w)")
  let ?w1 = "(s1, snd w @ [PolledResult p])"
  have poll: "dg_poll (probe_logged env) w = (p, ?w1)" using p by (simp add: probe_logged_def)
  obtain out w2 where out: "probe_event (probe_logged env) b p ?w1 = (out, w2)"
    by (cases "probe_event (probe_logged env) b p ?w1")
  have calls: "snd w2 = snd w @ probe_calls [p]"
    using out by (auto simp: probe_event_def probe_logged_def probe_calls_def
        split: option.splits sum.splits prod.splits if_splits)
  show ?case
  proof (cases out)
    case (Inl r)
    then have "probe_verdict b [p] r"
      using out by (auto simp: probe_event_def probe_verdict_def split: option.splits sum.splits
          prod.splits if_splits)
    moreover have "probe_loop (probe_logged env) b w = Some (r, w2)"
      by (subst probe_loop.simps) (simp add: poll out Inl)
    ultimately show ?thesis using calls by blast
  next
    case (Inr b1)
    have b1: "b1 = (b \<or> p = accepted_poll)"
      using out Inr by (auto simp: probe_event_def split: option.splits sum.splits prod.splits if_splits)
    have "p \<noteq> None" using out Inr by (auto simp: probe_event_def split: option.splits)
    then have "fuel s1 < fuel (fst w)"
      using assms p by (auto simp: probe_laws_def dest: spec [of _ "fst w"])
    moreover have "fuel (fst w2) \<le> fuel s1"
      using out Inr assms
      by (auto simp: probe_event_def probe_logged_def probe_laws_def split: option.splits sum.splits
          prod.splits if_splits) (metis snd_conv)
    ultimately have "fuel (fst w2) < fuel (fst w)" by simp
    from less [OF this, of b1] obtain ps r w' where h:
      "probe_loop (probe_logged env) b1 w2 = Some (r, w')" "ps \<noteq> []"
      "snd w' = snd w2 @ probe_calls ps" "probe_verdict b1 ps r" by blast
    have "probe_loop (probe_logged env) b w = Some (r, w')"
      by (subst probe_loop.simps) (simp add: poll out Inr h(1))
    moreover have "snd w' = snd w @ probe_calls (p # ps)" using h(3) calls by (simp add: probe_calls_def)
    moreover have "probe_verdict b (p # ps) r" using h(2,4) b1 by (intro probe_verdict_Cons) auto
    ultimately show ?thesis by blast
  qed
qed

text \<open>
  C14. The probe comes back, harmless and right: with an accepted configuration it neither panics nor
  outlives its deadline; it opens one clean session without a last will and asks for nothing but to
  disconnect, once per acceptance; it passes exactly when the broker accepted the connection and the
  disconnect went out or the connection ended, and otherwise names the failure by the last poll.\<close>

theorem probe_returns_verdict:
  assumes "probe_laws env fuel" "RawConfig_validate raw = Inr config"
  shows "\<exists>ps options r w'.
    probe_mqtt (probe_logged env) pid (cfg_mqtt config) cr (sequence, s, []) =
      Some (r, sequence + 1, w') \<and>
    snd w' = OpenedWith options # probe_calls ps \<and> opt_clean_session options \<and>
    opt_last_will options = None \<and> opt_keep_alive options \<le> from_secs 30 \<and>
    probe_verdict False ps r"
proof -
  have ascii: "list_all (\<lambda>c. c < 128) (mc_client_id (cfg_mqtt config))"
    using assms(2) alphanumeric_facts(2)
    by (auto simp: validate_iff raw_ok_def config_of_def Let_def identifier_ok_def list_all_iff lit_Cons)
  obtain client_id where id: "unique_probe_client_id pid (mc_client_id (cfg_mqtt config)) sequence =
      (Some client_id, sequence + 1)"
    using unique_probe_client_id_ascii [OF ascii] by blast
  let ?options = "probe_options client_id (cfg_mqtt config) cr"
  let ?w = "dg_start_deadline (probe_logged env) MQTT_PROBE_TIMEOUT
      (dg_open (probe_logged env) ?options MQTT_CONNECTION_TIMEOUT_SECONDS (s, []))"
  obtain ps r w' where h: "probe_loop (probe_logged env) False ?w = Some (r, w')"
    "snd w' = snd ?w @ probe_calls ps" "probe_verdict False ps r"
    using probe_loop_outcome [OF assms(1), of False ?w] by blast
  have "probe_mqtt (probe_logged env) pid (cfg_mqtt config) cr (sequence, s, []) =
      Some (r, sequence + 1, w')"
    by (simp add: probe_mqtt_def id h(1) Let_def)
  moreover have "snd w' = OpenedWith ?options # probe_calls ps"
    using h(2) by (simp add: probe_logged_def)
  moreover have "opt_clean_session ?options \<and> opt_last_will ?options = None \<and>
      opt_keep_alive ?options \<le> from_secs 30"
    by (simp add: probe_options_def)
  ultimately show ?thesis using h(3) by blast
qed

text \<open>A broker that accepts, and then lets the disconnect out, for the witness.\<close>

definition accepting_broker :: "nat DiagEnv" where
  "accepting_broker =
     \<lparr>dg_process_status = (\<lambda>n. (None, n)), dg_open = (\<lambda>_ _ _. 2), dg_start_deadline = (\<lambda>_ n. n),
      dg_poll = (\<lambda>n. (if n = 0 then None else if n = 1 then Some (Inr OutgoingDisconnectEvent)
                      else accepted_poll, n - 1)),
      dg_try_disconnect = (\<lambda>n. (True, n))\<rparr>"

definition sample_raw :: RawConfig where
  "sample_raw =
     \<lparr>raw_device = \<lparr>rw_id = lit ''pi'', rw_name = lit ''Pi''\<rparr>,
      raw_mqtt = \<lparr>rm_host = default_host, rm_port = default_port, rm_client_id = lit ''pi'',
        rm_username = lit ''pi'', rm_password_file = lit ''/p'', rm_base_topic = lit ''b'',
        rm_discovery_prefix = default_discovery_prefix, rm_keep_alive_seconds = default_keep_alive\<rparr>,
      raw_collector = RawCollector_default\<rparr>"

theorem probe_returns_verdict_witness:
  "\<exists>config. RawConfig_validate sample_raw = Inr config \<and>
     (\<forall>cr. \<exists>r w. probe_mqtt (probe_logged accepting_broker) 7 (cfg_mqtt config) cr (1, 0, []) =
        Some (r, w))"
proof -
  have laws: "probe_laws accepting_broker id" by (auto simp: probe_laws_def accepting_broker_def)
  have "raw_ok sample_raw"
    by (simp add: raw_ok_def sample_raw_def Let_def identifier_ok_def text_ok_def host_ok_def
        concrete_topic_def topic_levels_def is_absolute_def RawCollector_default_def default_host_def
        default_port_def default_discovery_prefix_def default_keep_alive_def default_interval_def
        default_root_def default_vcgencmd_def default_command_timeout_def str_eval)
  then have config: "RawConfig_validate sample_raw = Inr (config_of sample_raw)"
    by (simp add: validate_iff)
  show ?thesis
    using config probe_returns_verdict [OF laws config, of 7 _ 1 0] by blast
qed


lemma probe_loop_returns:
  assumes "probe_laws env fuel"
  shows "\<exists>r s'. probe_loop env b s = Some (r, s')"
proof (induction "fuel s" arbitrary: b s rule: less_induct)
  case less
  obtain p s1 where p: "dg_poll env s = (p, s1)" by (cases "dg_poll env s")
  obtain out s2 where out: "probe_event env b p s1 = (out, s2)" by (cases "probe_event env b p s1")
  show ?case
  proof (cases out)
    case (Inl r)
    then show ?thesis using p out by (subst probe_loop.simps) simp
  next
    case (Inr b1)
    then have "p \<noteq> None" using out by (auto simp: probe_event_def split: option.splits)
    then have "fuel s1 < fuel s"
      using assms p by (auto simp: probe_laws_def dest: spec [of _ s])
    moreover have "fuel s2 \<le> fuel s1"
      using out Inr assms
      by (auto simp: probe_event_def probe_laws_def split: option.splits sum.splits
          prod.splits if_splits) (metis snd_conv)
    ultimately obtain r s' where "probe_loop env b1 s2 = Some (r, s')" using less [of s2 b1] by auto
    then show ?thesis using p out Inr by (subst probe_loop.simps) simp
  qed
qed

lemma run_checks_returns:
  assumes "probe_laws env fuel" "list_all (\<lambda>c. c < 128) (mc_client_id (cfg_mqtt config))"
  shows "\<exists>report w1. run_checks fs cenv env platform config probe w = Some (report, w1)"
proof -
  have mqtt: "\<exists>r w1. probe_mqtt env pid (cfg_mqtt config) cr (sequence, s) = Some (r, w1)"
    for pid cr sequence s
  proof -
    obtain client_id where id: "unique_probe_client_id pid (mc_client_id (cfg_mqtt config)) sequence =
        (Some client_id, sequence + 1)"
      using unique_probe_client_id_ascii [OF assms(2)] by blast
    obtain r s' where "probe_loop env False (dg_start_deadline env MQTT_PROBE_TIMEOUT
        (dg_open env (probe_options client_id (cfg_mqtt config) cr) MQTT_CONNECTION_TIMEOUT_SECONDS s)) =
        Some (r, s')"
      using probe_loop_returns [OF assms(1)] by blast
    then show ?thesis by (simp add: probe_mqtt_def id Let_def)
  qed
  have "\<exists>check w1. probe_check env pid config probe creds (sequence, s) = Some (check, w1)"
    for pid creds sequence s
  proof (cases probe)
    case ProbeEnabled
    show ?thesis
    proof (cases creds)
      case (Some cr)
      obtain r w1 where "probe_mqtt env pid (cfg_mqtt config) cr (sequence, s) = Some (r, w1)"
        using mqtt by blast
      then show ?thesis using ProbeEnabled Some by (simp add: probe_check_def check_mqtt_def)
    qed (simp add: probe_check_def ProbeEnabled)
  qed (simp add: probe_check_def)
  then have total: "probe_check env pid config probe creds (sequence, s) \<noteq> None" for pid creds sequence s
    by (metis option.distinct(1))
  obtain sequence s where w: "w = (sequence, s)" by (cases w)
  have "run_checks fs cenv env platform config probe w \<noteq> None"
    using total by (simp add: w run_checks_def Let_def split_beta del: not_None_eq)
  then show ?thesis by (metis not_None_eq prod.exhaust)
qed

end
