(* ===== verification/Program.thy ===== *)
theory Program
  imports Daemon Diagnostics
begin

text \<open>
  \<open>src/main.rs\<close>: the commands and their exit codes.  \<open>Host\<close> gathers the libraries and the outside
  world the program is linked with; what is printed is returned as a list of lines.
\<close>

datatype Printed = Stdout rstr | Stderr rstr

record ('s, 'dt) Host =
  ho_fs :: FsLib
  ho_toml :: toml_lib
  ho_time :: "'dt TimeLib"
  ho_to_string :: "json \<Rightarrow> rstr + rstr"
  ho_to_string_pretty :: "json \<Rightarrow> rstr + rstr"
  ho_sources :: "('s, 'dt) Env"
  ho_service :: "'s ServiceEnv"
  ho_diagnostics :: "'s DiagEnv"
  ho_platform :: HostPlatform
  ho_build_runtime :: "'s \<Rightarrow> bool \<times> 's"

definition print_once ::
  "('s, 'dt) Host \<Rightarrow> CollectorConfig \<Rightarrow> 's \<Rightarrow> u8 \<times> Printed list \<times> 's" where
  "print_once host config s =
     (case Collector_new (ho_sources host) config s of
        (Inl error, s1) \<Rightarrow>
          (COLLECTION_ERROR,
           [Stderr (lit ''Collection error: '' @ CollectorInitError_display error)], s1)
      | (Inr collector, s1) \<Rightarrow>
          (case collect (ho_sources host) collector s1 of (state, _, s2) \<Rightarrow>
             (case and_then (TelemetryState_serialize (ho_time host) state)
                     (ho_to_string_pretty host) of
                Inr json \<Rightarrow> (SUCCESS, [Stdout json], s2)
              | Inl error \<Rightarrow>
                  (COLLECTION_ERROR,
                   [Stderr (lit ''Collection error: state serialization failed: '' @ error)], s2))))"

definition run_diagnostics ::
  "('s, 'dt) Host \<Rightarrow> Config \<Rightarrow> bool \<Rightarrow> u64 \<times> 's \<Rightarrow> (u8 \<times> Printed list \<times> u64 \<times> 's) option" where
  "run_diagnostics host config skip w =
     (case ho_build_runtime host (snd w) of
        (False, s1) \<Rightarrow>
          Some (DIAGNOSTIC_ERROR,
                [Stdout (lit ''[FAILURE] runtime: diagnostic runtime could not start'')], fst w, s1)
      | (True, s1) \<Rightarrow>
          (let mqtt_probe = (if skip then ProbeSkipped else ProbeEnabled) in
           map_option
             (\<lambda>(report, w1). (exit_code report, [Stdout (DiagnosticReport_display report)], w1))
             (run_checks (ho_fs host) (ho_sources host) (ho_diagnostics host) (ho_platform host)
                config mqtt_probe (fst w, s1))))"

text \<open>\<open>run\<close>: \<^term>\<open>None\<close> only when a diagnostic probe does not come back.\<close>

definition main_run ::
  "('s, 'dt) Host \<Rightarrow> Cli \<Rightarrow> u64 \<times> 's \<Rightarrow> (u8 \<times> Printed list \<times> u64 \<times> 's) option" where
  "main_run host cli w =
     (case Config_load (ho_fs host) (ho_toml host) (cli_config cli) of
        Inl error \<Rightarrow>
          Some (CONFIG_ERROR, [Stderr (lit ''Configuration error: '' @ ConfigError_display error)], w)
      | Inr config \<Rightarrow>
          (case cli_command cli of
             Some PrintOnce \<Rightarrow>
               (case print_once host (cfg_collector config) (snd w) of
                  (code, printed, s1) \<Rightarrow> Some (code, printed, fst w, s1))
           | Some (Check skip) \<Rightarrow> run_diagnostics host config skip w
           | None \<Rightarrow>
               (case MqttCredentials_load (ho_fs host) (cfg_mqtt config) of
                  Inr credentials \<Rightarrow>
                    (case daemon_run (ho_to_string host) (ho_sources host) (ho_service host) config
                            credentials (snd w) of
                       (Inr _, s1) \<Rightarrow> Some (SUCCESS, [], fst w, s1)
                     | (Inl error, s1) \<Rightarrow>
                         Some (RUNTIME_ERROR,
                               [Stderr (lit ''Runtime error: '' @ DaemonError_display error)],
                               fst w, s1))
                | Inl error \<Rightarrow>
                    Some (CONFIG_ERROR,
                          [Stderr (lit ''Configuration error: '' @ ConfigError_display error)], w))))"

text \<open>
  A rejected command line: whether it goes to standard error, its exit code and its text
  (\<open>--help\<close> and \<open>--version\<close> are such rejections too).
\<close>

record CliError =
  ce_use_stderr :: bool
  ce_exit_code :: int
  ce_text :: rstr

definition cli_error_code :: "CliError \<Rightarrow> u8" where
  "cli_error_code error =
     (let code = (if ce_use_stderr error then ce_exit_code error else uint SUCCESS)
      in if 0 \<le> code \<and> code < 2 ^ 8 then of_int code else 2)"

definition main ::
  "('s, 'dt) Host \<Rightarrow> CliError + Cli \<Rightarrow> u64 \<times> 's \<Rightarrow> (u8 \<times> Printed list \<times> u64 \<times> 's) option" where
  "main host parsed w =
     (case parsed of
        Inr cli \<Rightarrow> main_run host cli w
      | Inl error \<Rightarrow>
          Some (cli_error_code error,
                [(if ce_use_stderr error then Stderr else Stdout) (ce_text error)], w))"


section \<open>The printed report\<close>

text \<open>A report is printed one check to a line: no part of a check contains a line break.\<close>

definition one_line :: "rstr \<Rightarrow> bool" where
  "one_line s \<longleftrightarrow> 10 \<notin> set s"

lemma one_line_simps [simp]:
  "one_line []" "one_line (c # s) \<longleftrightarrow> c \<noteq> 10 \<and> one_line s" "one_line (s @ t) \<longleftrightarrow> one_line s \<and> one_line t"
  by (auto simp: one_line_def)

lemma one_line_digits [simp]: "one_line (show_nat n)"
  using to_radix_digits [of 10 n] by (auto simp: one_line_def)

lemma one_line_join: "one_line sep \<Longrightarrow> list_all one_line ws \<Longrightarrow> one_line (str_join sep ws)"
  using set_str_join [of sep ws] by (auto simp: one_line_def list_all_iff)

lemma one_line_texts: "list_all one_line credential_texts" "list_all one_line mqtt_texts"
    "list_all one_line CHECK_NAMES" "list_all one_line collector_metrics"
  by (simp_all add: credential_texts_def mqtt_texts_def CHECK_NAMES_def collector_metrics_def
      CREDENTIALS_CHECK_def IDENTITY_CHECK_def ARCHITECTURE_CHECK_def COLLECTOR_CHECK_def
      METADATA_CHECK_def POWER_CHECK_def MQTT_CHECK_def lit_Cons)

definition check_row :: "DiagnosticCheck \<Rightarrow> rstr" where
  "check_row check =
     lit ''['' @ label (ck_status check) @ lit ''] '' @ ck_name check @ lit '': '' @ ck_summary check"

lemma check_row_one_line:
  "one_line (ck_name check) \<Longrightarrow> one_line (ck_summary check) \<Longrightarrow> one_line (check_row check)"
  by (cases "ck_status check") (simp_all add: check_row_def lit_Cons)

lemma check_row_failure: "starts_with (check_row check) (lit ''[FAILURE]'') = (ck_status check = CheckFailure)"
  by (cases "ck_status check") (auto simp: check_row_def starts_with_iff lit_Cons)

lemma split_joined:
  "list_all one_line rows \<Longrightarrow> rows \<noteq> [] \<Longrightarrow> split_on (\<lambda>c. c = 10) (str_join [10] rows) = rows"
proof (induction "[10 :: rchar]" rows rule: str_join.induct)
  case (2 w)
  then have "split_on (\<lambda>c. c = 10) w = [w]" by (intro split_on_none) (auto simp: one_line_def list_all_iff)
  then show ?case by simp
next
  case (3 w v ws)
  then have "split_on (\<lambda>c. c = 10) w = [w]" by (intro split_on_none) (auto simp: one_line_def list_all_iff)
  then show ?case using 3 by (simp add: split_on_sep)
qed simp

text \<open>The lines of a text that report a failure.\<close>

definition failure_lines :: "rstr \<Rightarrow> rstr list" where
  "failure_lines s = filter (\<lambda>row. starts_with row (lit ''[FAILURE]'')) (split_on (\<lambda>c. c = 10) s)"

lemma report_failure_lines:
  assumes "list_all (\<lambda>check. one_line (ck_name check) \<and> one_line (ck_summary check)) report" "report \<noteq> []"
  shows "failure_lines (DiagnosticReport_display report) =
    map check_row (filter (\<lambda>check. ck_status check = CheckFailure) report)"
proof -
  have display: "DiagnosticReport_display report = str_join [10] (map check_row report)"
    by (simp add: DiagnosticReport_display_def check_row_def [abs_def])
  have "list_all one_line (map check_row report)"
    using assms(1) by (auto simp: list_all_iff intro: check_row_one_line)
  from split_joined [OF this] assms(2) show ?thesis
    by (simp add: failure_lines_def display filter_map comp_def check_row_failure)
qed

lemma collected_metrics:
  assumes "collect env c s = (st, c1, s1)"
  shows "set (map ce_metric (h_collector_errors (st_health st))) \<subseteq> set collector_metrics"
proof (rule collect_errors [OF assms], goal_cases)
  case (1 bu bf)
  show ?case unfolding 1(1) set_map by (auto dest: set_zip_rightD)
qed

lemma collector_checks_one_line:
  "list_all (\<lambda>check. one_line (ck_summary check)) (fst (collector_checks cenv config s))"
proof -
  have power: "one_line (ck_summary (check_power p))" for p
    by (simp add: check_power_def DiagnosticCheck_new_def lit_Cons)
  have metadata: "one_line (ck_summary (metadata_check m))" for m
    by (auto simp: metadata_check_def DiagnosticCheck_new_def Let_def lit_Cons list_all_iff
        intro!: one_line_join)
  have metrics: "one_line (ck_summary (collector_check errors))"
    if "set (map ce_metric errors) \<subseteq> set collector_metrics" for errors
  proof -
    have "one_line (str_join (lit '', '') (remdups_adj (str_sort (map ce_metric errors))))"
      using that one_line_texts(4) by (intro one_line_join) (auto simp: lit_Cons list_all_iff)
    then show ?thesis by (simp add: collector_check_def DiagnosticCheck_new_def Let_def lit_Cons)
  qed
  show ?thesis
  proof (cases "Collector_new cenv (cfg_collector config) s")
    case (Pair r s1)
    show ?thesis
    proof (cases r)
      case (Inl e)
      then show ?thesis using Pair
        by (simp add: collector_checks_def DiagnosticCheck_new_def lit_Cons)
    next
      case (Inr collector)
      obtain st c1 s2 where run: "collect cenv collector s1 = (st, c1, s2)"
        by (cases "collect cenv collector s1")
      show ?thesis using Pair Inr run metrics [OF collected_metrics [OF run]] power metadata
        by (simp add: collector_checks_def check_snapshot_def)
    qed
  qed
qed

lemma run_checks_one_line:
  assumes "run_checks fs cenv env platform config probe w = Some (report, w1)"
    and "one_line (pf_arch platform)"
  shows "list_all (\<lambda>check. one_line (ck_name check) \<and> one_line (ck_summary check)) report \<and> report \<noteq> []"
proof -
  obtain sequence s where w: "w = (sequence, s)" by (cases w)
  obtain status s1 s2 mqtt where p:
    "probe_check env (pf_process_id platform) config probe (snd (load_credentials fs config))
       (sequence, s2) = Some (mqtt, w1)"
    "report = [fst (load_credentials fs config),
       identity_check (Option.bind status parse_process_identity),
       architecture_check (pf_arch platform) (pf_is_arm platform)] @
       fst (collector_checks cenv config s1) @ [mqtt]"
    by (rule run_checks_parts [OF assms(1) [unfolded w]])
  have identity: "one_line (ck_summary (identity_check i))" for i
    by (auto simp: identity_check_def DiagnosticCheck_new_def Let_def lit_Cons list_all_iff
        intro!: one_line_join split: option.split)
  have architecture: "one_line (ck_summary (architecture_check (pf_arch platform) b))" for b
    using assms(2) by (simp add: architecture_check_def DiagnosticCheck_new_def lit_Cons)
  have "map ck_name report = CHECK_NAMES"
    using probe_check_text [OF p(1)] collector_checks_names [of cenv config s1]
    by (simp add: p(2) CHECK_NAMES_def)
  then have "list_all (\<lambda>check. one_line (ck_name check)) report"
    using one_line_texts(3) list.pred_map [of one_line ck_name report] by (simp add: comp_def)
  moreover have "list_all (\<lambda>check. one_line (ck_summary check)) report"
    using probe_check_text [OF p(1)] load_credentials_text [of fs config]
      collector_checks_one_line [of cenv config s1] one_line_texts(1,2) identity architecture
    by (simp add: p(2) list_all_iff)
  ultimately show ?thesis by (auto simp: list_all_iff p(2))
qed


section \<open>Exit codes\<close>

text \<open>
  The service ran its course: the collector was found, the discovery document printed, the runtime
  built, and then the signal came first and every task ended in order.
\<close>

definition service_told_to_stop :: "('s, 'dt) Host \<Rightarrow> Config \<Rightarrow> MqttCredentials \<Rightarrow> 's \<Rightarrow> bool" where
  "service_told_to_stop host config credentials s \<longleftrightarrow>
     (case Collector_new (ho_sources host) (cfg_collector config) s of
        (Inl _, _) \<Rightarrow> False
      | (Inr collector, s1) \<Rightarrow>
          (case (discovery_message (ho_to_string host) config collector, build_runtime (ho_service host) s1) of
             (Inr discovery, Inr _, s2) \<Rightarrow>
               (let env = ho_service host;
                    settings = MqttSettings_new (cfg_mqtt config) (dc_id (cfg_device config));
                    sv = fst (MqttSupervisor_new settings credentials (dm_payload discovery));
                    (completion, s3) = se_first env (se_start env collector sv (cc_interval (cfg_collector config)) s2);
                    ((m, t, c), s4) = se_join_all env COLLECTOR_DRAIN_TIMEOUT (se_send_shutdown env s3)
                in completion = CompletionSignal (Inr ()) \<and> m = Inr (Inr ()) \<and> t = Inr () \<and>
                   (c = None \<or> c = Some (Inr (Inr ()))))
           | _ \<Rightarrow> False))"

lemma daemon_run_ok:
  "fst (daemon_run (ho_to_string host) (ho_sources host) (ho_service host) config credentials s) = Inr () \<longleftrightarrow>
     service_told_to_stop host config credentials s"
proof -
  obtain r s1 where r: "Collector_new (ho_sources host) (cfg_collector config) s = (r, s1)"
    by (cases "Collector_new (ho_sources host) (cfg_collector config) s")
  obtain q s2 where q: "build_runtime (ho_service host) s1 = (q, s2)"
    by (cases "build_runtime (ho_service host) s1")
  show ?thesis
  proof (cases r)
    case (Inr collector)
    show ?thesis
    proof (cases "discovery_message (ho_to_string host) config collector")
      case (Inr discovery)
      let ?settings = "MqttSettings_new (cfg_mqtt config) (dc_id (cfg_device config))"
      show ?thesis
        using run_service_ok [of "ho_service host" collector discovery ?settings credentials
            "cc_interval (cfg_collector config)" s2] r q \<open>r = Inr collector\<close> Inr
        by (cases q) (simp_all add: daemon_run_def service_told_to_stop_def Let_def split_beta)
    qed (use r Inr in \<open>simp add: daemon_run_def service_told_to_stop_def\<close>)
  qed (use r in \<open>simp add: daemon_run_def service_told_to_stop_def\<close>)
qed

text \<open>The document that \<open>print-once\<close> prints, if there is one.\<close>

definition snapshot_document :: "('s, 'dt) Host \<Rightarrow> CollectorConfig \<Rightarrow> 's \<Rightarrow> rstr option" where
  "snapshot_document host config s =
     (case Collector_new (ho_sources host) config s of
        (Inl _, _) \<Rightarrow> None
      | (Inr collector, s1) \<Rightarrow>
          ok (and_then (TelemetryState_serialize (ho_time host) (fst (collect (ho_sources host) collector s1)))
                (ho_to_string_pretty host)))"

lemma print_once_result:
  "case print_once host config s of (code, out, s1) \<Rightarrow>
     (case snapshot_document host config s of
        Some document \<Rightarrow> code = SUCCESS \<and> out = [Stdout document]
      | None \<Rightarrow> code = COLLECTION_ERROR \<and> (\<exists>text. out = [Stderr (lit ''Collection error: '' @ text)]))"
proof -
  obtain r s1 where r: "Collector_new (ho_sources host) config s = (r, s1)"
    by (cases "Collector_new (ho_sources host) config s")
  show ?thesis
  proof (cases r)
    case (Inr collector)
    obtain st c1 s2 where run: "collect (ho_sources host) collector s1 = (st, c1, s2)"
      by (cases "collect (ho_sources host) collector s1")
    show ?thesis
      using r Inr run
      by (cases "and_then (TelemetryState_serialize (ho_time host) st) (ho_to_string_pretty host)")
        (simp_all add: print_once_def snapshot_document_def lit_Cons)
  qed (use r in \<open>simp add: print_once_def snapshot_document_def\<close>)
qed

lemma run_diagnostics_result:
  assumes "run_diagnostics host config skip w = Some (code, out, w1)" "one_line (pf_arch (ho_platform host))"
  shows "\<exists>report. out = [Stdout report] \<and>
    code = (if failure_lines report = [] then SUCCESS else DIAGNOSTIC_ERROR)"
proof (cases "fst (ho_build_runtime host (snd w))")
  case True
  then obtain probe w2 report where run: "run_checks (ho_fs host) (ho_sources host) (ho_diagnostics host)
      (ho_platform host) config probe w2 = Some (report, w1)"
    and out: "code = exit_code report" "out = [Stdout (DiagnosticReport_display report)]"
    using assms(1) by (auto simp: run_diagnostics_def Let_def split: prod.splits bool.splits)
  have "failure_lines (DiagnosticReport_display report) = [] \<longleftrightarrow> \<not> has_failures report"
    using report_failure_lines run_checks_one_line [OF run assms(2)]
    by (auto simp: has_failures_def list_ex_iff filter_empty_conv)
  then show ?thesis by (simp add: out exit_code_def)
next
  case False
  have "failure_lines (lit ''[FAILURE] runtime: diagnostic runtime could not start'') \<noteq> []"
  proof -
    have "list_all (\<lambda>c. c \<noteq> 10) (lit ''[FAILURE] runtime: diagnostic runtime could not start'')"
      by (simp add: lit_Cons)
    from split_on_none [OF this] show ?thesis
      by (simp add: failure_lines_def starts_with_iff) (simp add: lit_Cons)
  qed
  then show ?thesis using assms(1) False
    by (auto simp: run_diagnostics_def split: prod.splits bool.splits)
qed

text \<open>
  C29. The exit code tells what went wrong, error by error.  3: the configuration, or for the service
  also the credentials, could not be loaded; the message is on standard error and nothing else has
  happened.  For \<open>print-once\<close>, 0 and the document on standard output if there is one, otherwise (no
  firmware command, or no document) 5 and a message.  For \<open>check\<close>, 4 exactly when the printed report
  has a line that starts with \<open>[FAILURE]\<close>, otherwise 0.  For the service, 0 and silence exactly when it
  was told to stop and every task ended in order; any other end, whatever its error, is 6 with a message.\<close>

theorem exit_code_classifies:
  "case main_run host cli w of
     None \<Rightarrow> \<exists>skip. cli_command cli = Some (Check skip)
   | Some (code, out, w1) \<Rightarrow>
       (case Config_load (ho_fs host) (ho_toml host) (cli_config cli) of
          Inl error \<Rightarrow>
            code = CONFIG_ERROR \<and> w1 = w \<and>
            out = [Stderr (lit ''Configuration error: '' @ ConfigError_display error)]
        | Inr config \<Rightarrow>
            (case cli_command cli of
               Some PrintOnce \<Rightarrow>
                 (case snapshot_document host (cfg_collector config) (snd w) of
                    Some document \<Rightarrow> code = SUCCESS \<and> out = [Stdout document]
                  | None \<Rightarrow>
                      code = COLLECTION_ERROR \<and>
                      (\<exists>text. out = [Stderr (lit ''Collection error: '' @ text)]))
             | Some (Check skip) \<Rightarrow>
                 if one_line (pf_arch (ho_platform host))
                 then \<exists>report. out = [Stdout report] \<and>
                        code = (if failure_lines report = [] then SUCCESS else DIAGNOSTIC_ERROR)
                 else True
             | None \<Rightarrow>
                 (case MqttCredentials_load (ho_fs host) (cfg_mqtt config) of
                    Inl error \<Rightarrow>
                      code = CONFIG_ERROR \<and> w1 = w \<and>
                      out = [Stderr (lit ''Configuration error: '' @ ConfigError_display error)]
                  | Inr credentials \<Rightarrow>
                      if service_told_to_stop host config credentials (snd w)
                      then code = SUCCESS \<and> out = []
                      else code = RUNTIME_ERROR \<and>
                           (\<exists>text. out = [Stderr (lit ''Runtime error: '' @ text)]))))"
proof (cases "Config_load (ho_fs host) (ho_toml host) (cli_config cli)")
  case (Inr config)
  note config = this
  show ?thesis
  proof (cases "cli_command cli")
    case None
    show ?thesis
    proof (cases "MqttCredentials_load (ho_fs host) (cfg_mqtt config)")
      case (Inr credentials)
      obtain r s1 where r: "daemon_run (ho_to_string host) (ho_sources host) (ho_service host) config
          credentials (snd w) = (r, s1)" by fastforce
      then show ?thesis
        using config None Inr daemon_run_ok [of host config credentials "snd w"]
        by (cases r) (simp_all add: main_run_def)
    qed (use config None in \<open>simp add: main_run_def\<close>)
  next
    case (Some command)
    show ?thesis
    proof (cases command)
      case (Check skip)
      show ?thesis
      proof (cases "run_diagnostics host config skip w")
        case (Some y)
        obtain code out w1 where y: "y = (code, out, w1)" by (cases y)
        show ?thesis
          using config \<open>cli_command cli = Some command\<close> Check Some y
            run_diagnostics_result [of host config skip w code out w1]
          by (simp add: main_run_def)
      qed (use config Some Check in \<open>simp add: main_run_def\<close>)
    next
      case PrintOnce
      obtain code out s1 where p: "print_once host (cfg_collector config) (snd w) = (code, out, s1)"
        by (cases "print_once host (cfg_collector config) (snd w)")
      show ?thesis
        using config Some PrintOnce p print_once_result [of host "cfg_collector config" "snd w"]
        by (simp add: main_run_def)
    qed
  qed
qed (simp add: main_run_def)

end
