(* ===== verification/Mqtt_Contract.thy ===== *)
theory Mqtt_Contract
  imports Mqtt_Supervisor
begin

text \<open>
  What the event loop of \<open>Mqtt_Supervisor\<close> promises: its requests to the client are those of a run of the
  session contract, and no collected state is forgotten.  Both are invariants of the loop.
\<close>

section \<open>What the supervisor publishes\<close>

text \<open>
  An environment that also records, in order, what the loop is told and what it asks for: that the
  broker accepted the connection, that the connection ended (a poll error of the loop, or the disconnect
  has left), each state message it reads, each request number it makes, and the requests handed to the
  client.
\<close>

datatype LogEntry =
    BrokerAccepted
  | ConnectionEnded
  | StateRead StateMessage
  | RequestMade u64
  | Published Publication
  | Disconnecting

fun event_entries :: "Event \<Rightarrow> LogEntry list" where
  "event_entries OutgoingDisconnectEvent = [ConnectionEnded]"
| "event_entries _ = []"

fun branch_entries :: "Branch \<Rightarrow> LogEntry list" where
  "branch_entries (Polled (Inl _)) = [ConnectionEnded]"
| "branch_entries (Polled (Inr event)) =
     (if event = IncomingConnAck Success then [BrokerAccepted] else event_entries event)"
| "branch_entries _ = []"

fun deadline_entries :: "(ConnectionError + Event) option \<Rightarrow> LogEntry list" where
  "deadline_entries (Some (Inr event)) = event_entries event"
| "deadline_entries _ = []"

definition logged :: "'s MqttEnv \<Rightarrow> ('s \<times> LogEntry list) MqttEnv" where
  "logged env =
     \<lparr>mq_open = (\<lambda>options timeout w. (mq_open env options timeout (fst w), snd w)),
      mq_try_publish = (\<lambda>p w. case mq_try_publish env p (fst w) of
         (b, s) \<Rightarrow> (b, s, snd w @ [Published p])),
      mq_try_disconnect = (\<lambda>w. case mq_try_disconnect env (fst w) of
         (b, s) \<Rightarrow> (b, s, snd w @ [Disconnecting])),
      mq_shutdown_requested = lifted (mq_shutdown_requested env),
      mq_select = (\<lambda>accepts w. case mq_select env accepts (fst w) of
         (branch, s) \<Rightarrow> (branch, s, snd w @ branch_entries branch)),
      mq_states_update = (\<lambda>w. case mq_states_update env (fst w) of
         (x, s) \<Rightarrow> (x, s, snd w @ (case x of None \<Rightarrow> [] | Some message \<Rightarrow> [StateRead message]))),
      mq_request_modify = (\<lambda>f w. case mq_request_modify env f (fst w) of
         (r, s) \<Rightarrow> (r, s, snd w @ [RequestMade r])),
      mq_status = (\<lambda>status w. (mq_status env status (fst w), snd w)),
      mq_sleep_or_shutdown = (\<lambda>d. lifted (mq_sleep_or_shutdown env d)),
      mq_start_deadline = (\<lambda>d w. (mq_start_deadline env d (fst w), snd w)),
      mq_poll_deadline = (\<lambda>w. case mq_poll_deadline env (fst w) of
         (p, s) \<Rightarrow> (p, s, snd w @ deadline_entries p)),
      mq_seed = lifted (mq_seed env)\<rparr>"

text \<open>
  The entries that stand for a step of the session contract; \<^term>\<open>None\<close> is the reading of a message
  that is not published.  A session begins when the broker has accepted the connection (a message that
  is there already is read and dropped, and the request is made), and a state carries the payload and
  the request number of the message just read.
\<close>

fun session_entries :: "MqttSupervisor \<Rightarrow> SessionLabel option \<Rightarrow> LogEntry list \<Rightarrow> bool" where
  "session_entries sv (Some (SAnnounce r)) es =
     (case es of
        BrokerAccepted # rest \<Rightarrow>
          (case rest of StateRead _ # rest' \<Rightarrow> rest' | _ \<Rightarrow> rest) =
            [RequestMade r,
             Published \<lparr>pub_topic = ms_discovery_topic (sv_settings sv), pub_qos = AtLeastOnce,
                        pub_retain = True, pub_payload = sv_discovery_payload sv\<rparr>]
      | _ \<Rightarrow> False)"
| "session_entries sv (Some SOnline) es =
     (es = [Published \<lparr>pub_topic = ms_availability_topic (sv_settings sv), pub_qos = AtLeastOnce,
                       pub_retain = True, pub_payload = str_bytes (lit ''online'')\<rparr>])"
| "session_entries sv (Some (SState i)) es =
     (case es of
        [StateRead message, Published p] \<Rightarrow>
          sm_request_id message = i \<and>
          p = \<lparr>pub_topic = ms_state_topic (sv_settings sv), pub_qos = AtMostOnce, pub_retain = False,
               pub_payload = sm_payload message\<rparr>
      | _ \<Rightarrow> False)"
| "session_entries sv (Some SOffline) es =
     (es = [Published \<lparr>pub_topic = ms_availability_topic (sv_settings sv), pub_qos = AtLeastOnce,
                       pub_retain = True, pub_payload = str_bytes (lit ''offline'')\<rparr>])"
| "session_entries sv (Some SDisconnect) es = (es = [Disconnecting])"
| "session_entries sv (Some SLost) es = (es = [ConnectionEnded])"
| "session_entries sv (Some SMisplaced) es = False"
| "session_entries sv None es = (case es of [StateRead _] \<Rightarrow> True | _ \<Rightarrow> False)"

fun labels_of :: "'a option list \<Rightarrow> 'a list" where
  "labels_of [] = []"
| "labels_of (None # w) = labels_of w"
| "labels_of (Some l # w) = l # labels_of w"

lemma labels_of_append: "labels_of (a @ b) = labels_of a @ labels_of b"
  by (induction a rule: labels_of.induct) auto

text \<open>
  The entries \<open>cs\<close> made while the machine goes from \<open>m\<close> to \<open>m'\<close> are, block by block, those of a run of
  the contract.
\<close>

definition entries_of_session ::
  "MqttSupervisor \<Rightarrow> BootstrapMachine \<Rightarrow> LogEntry list \<Rightarrow> BootstrapMachine \<Rightarrow> bool" where
  "entries_of_session sv m cs m' \<longleftrightarrow>
     (\<exists>w blocks. runs session_step (session_of m) (labels_of w) (session_of m') \<and>
        list_all2 (session_entries sv) w blocks \<and> cs = concat blocks)"

lemma entries_append:
  assumes "entries_of_session sv m a m1" "entries_of_session sv m1 b m2"
  shows "entries_of_session sv m (a @ b) m2"
proof -
  obtain w1 b1 w2 b2 where
    "runs session_step (session_of m) (labels_of w1) (session_of m1)"
    "list_all2 (session_entries sv) w1 b1" "a = concat b1"
    "runs session_step (session_of m1) (labels_of w2) (session_of m2)"
    "list_all2 (session_entries sv) w2 b2" "b = concat b2"
    using assms unfolding entries_of_session_def by blast
  then show ?thesis
    unfolding entries_of_session_def
    by (intro exI [of _ "w1 @ w2"] exI [of _ "b1 @ b2"])
      (auto simp: labels_of_append intro: runs_append list_all2_appendI)
qed

lemma entries_Nil: "session_of m' = session_of m \<Longrightarrow> entries_of_session sv m [] m'"
  unfolding entries_of_session_def by (intro exI [of _ "[]"]) simp

lemma entries_label:
  assumes "session_labels (e, fst (protocol_step e m)) = [l]" "session_entries sv (Some l) es"
  shows "entries_of_session sv m es (snd (protocol_step e m))"
  unfolding entries_of_session_def
  using machine_step_refines [of m e] assms
  by (intro exI [of _ "[Some l]"] exI [of _ "[es]"]) simp

lemma entries_silent:
  assumes "session_labels (e, fst (protocol_step e m)) = []"
  shows "session_of (snd (protocol_step e m)) = session_of m"
  using machine_step_refines [of m e] assms by simp

text \<open>The entries of a protocol event: those of its action.\<close>

definition action_entries ::
  "MqttSupervisor \<Rightarrow> ProtocolAction option \<Rightarrow> nat list option \<Rightarrow> LogEntry list" where
  "action_entries sv action payload =
     (case action of
        None \<Rightarrow> []
      | Some a \<Rightarrow>
          (case action_publication sv a payload of
             Some p \<Rightarrow> [Published p] | None \<Rightarrow> [Disconnecting]))"

lemma quiet_event_entries:
  assumes "protocol_step e m = (a, m')"
    and "\<And>r. e \<noteq> Connected r" "\<And>i. e \<noteq> StateAvailable i" "e \<noteq> OutgoingDisconnect" "e \<noteq> ConnectionLost"
  shows "entries_of_session sv m (action_entries sv a payload) m'"
proof (cases a)
  case None
  then have "session_labels (e, fst (protocol_step e m)) = []"
    using assms by (cases e) (auto simp: machine_defs)
  then show ?thesis using None assms(1) entries_silent [of e m] by (auto simp: action_entries_def intro: entries_Nil)
next
  case (Some action)
  then have "\<exists>l. session_labels (e, fst (protocol_step e m)) = [l] \<and>
      session_entries sv (Some l) (action_entries sv a payload)"
    using assms
    by (cases e; cases "bm_phase m")
      (auto simp: machine_defs action_entries_def Let_def split: if_splits)
  then obtain l where "session_labels (e, fst (protocol_step e m)) = [l]"
    "session_entries sv (Some l) (action_entries sv a payload)" by blast
  from entries_label [OF this] assms(1) show ?thesis by simp
qed

lemma lost_entries:
  "entries_of_session sv m [ConnectionEnded] (connection_lost m)"
  "disconnected m = (a, m') \<Longrightarrow> entries_of_session sv m (ConnectionEnded # action_entries sv a payload) m'"
  using entries_label [of ConnectionLost m SLost sv "[ConnectionEnded]"]
    entries_label [of OutgoingDisconnect m SLost sv "[ConnectionEnded]"]
  by (auto simp: disconnected_def action_entries_def)

lemma state_entries:
  assumes "state_available (sm_request_id message) m = (a, m')"
  shows "entries_of_session sv m (StateRead message # action_entries sv a (Some (sm_payload message))) m'"
proof (cases a)
  case None
  then have "session_of m' = session_of m"
    using assms entries_silent [of "StateAvailable (sm_request_id message)" m] by simp
  then show ?thesis
    unfolding entries_of_session_def
    by (intro exI [of _ "[None]"] exI [of _ "[[StateRead message]]"])
      (simp add: None action_entries_def)
next
  case (Some action)
  then have "a = Some PublishState" using assms by (auto simp: state_available_def Let_def split: if_splits)
  then show ?thesis
    using entries_label [of "StateAvailable (sm_request_id message)" m "SState (sm_request_id message)" sv
        "StateRead message # action_entries sv a (Some (sm_payload message))"] assms
    by (simp add: action_entries_def)
qed

lemma connected_entries:
  assumes "connected r m = (a, m')" "seen = [] \<or> (\<exists>message. seen = [StateRead message])"
  shows "entries_of_session sv m (BrokerAccepted # seen @ RequestMade r # action_entries sv (Some a) payload) m'"
  using entries_label [of "Connected r" m "SAnnounce r" sv
      "BrokerAccepted # seen @ RequestMade r # action_entries sv (Some a) payload"] assms
  by (auto simp: connected_def action_entries_def)

lemma perform_logged:
  "snd (snd (perform_option (logged env) sv action payload w)) =
     snd w @ action_entries sv action payload"
  by (cases action)
    (auto simp: perform_option_def perform_def logged_def action_entries_def split: prod.splits option.splits)

lemma perform_is_option: "perform env sv a payload s = perform_option env sv (Some a) payload s"
  by (simp add: perform_option_def)

definition logs ::
  "MqttSupervisor \<Rightarrow> BootstrapMachine \<Rightarrow> 's \<times> LogEntry list \<Rightarrow> BootstrapMachine \<Rightarrow>
   's \<times> LogEntry list \<Rightarrow> bool" where
  "logs sv m w m' w' \<longleftrightarrow> (\<exists>cs. snd w' = snd w @ cs \<and> entries_of_session sv m cs m')"

lemma logs_trans [trans]: "logs sv m w m1 w1 \<Longrightarrow> logs sv m1 w1 m2 w2 \<Longrightarrow> logs sv m w m2 w2"
  unfolding logs_def by (metis append.assoc entries_append)

lemma logs_quiet: "session_of m' = session_of m \<Longrightarrow> snd w' = snd w \<Longrightarrow> logs sv m w m' w'"
  unfolding logs_def by (intro exI [of _ "[]"]) (simp add: entries_Nil)

lemma logged_quiet [simp]:
  "snd (snd (mq_shutdown_requested (logged env) w)) = snd w"
  "snd (snd (mq_sleep_or_shutdown (logged env) d w)) = snd w"
  "snd (snd (mq_seed (logged env) w)) = snd w"
  "snd (mq_status (logged env) st w) = snd w"
  "snd (mq_start_deadline (logged env) d w) = snd w"
  "snd (mq_open (logged env) opts t w) = snd w"
  by (simp_all add: logged_def lifted_def split: prod.splits)

lemma logged_calls:
  "mq_select (logged env) accepts w = (branch, w') \<Longrightarrow> snd w' = snd w @ branch_entries branch"
  "mq_states_update (logged env) w = (x, w') \<Longrightarrow>
     snd w' = snd w @ (case x of None \<Rightarrow> [] | Some message \<Rightarrow> [StateRead message])"
  "mq_request_modify (logged env) f w = (r, w') \<Longrightarrow> snd w' = snd w @ [RequestMade r]"
  "mq_poll_deadline (logged env) w = (p, w') \<Longrightarrow> snd w' = snd w @ deadline_entries p"
  by (auto simp: logged_def split: prod.splits)

lemma event_logs:
  assumes "snd w1 = snd w @ event_entries event" "event_action event m = (a, m')"
    and "perform_option (logged env) sv a None w1 = (r, w')"
  shows "logs sv m w m' w'"
proof -
  have w': "snd w' = snd w @ event_entries event @ action_entries sv a None"
    using perform_logged [of env sv a None w1] assms(1,3) by simp
  have "entries_of_session sv m (event_entries event @ action_entries sv a None) m'"
  proof (cases event)
    case (IncomingPubAck p)
    then show ?thesis using quiet_event_entries [of "PubAck p"] assms(2) by simp
  next
    case (OutgoingPublishEvent p)
    then show ?thesis using quiet_event_entries [of "OutgoingPublish p"] assms(2) by simp
  next
    case OutgoingDisconnectEvent
    then show ?thesis using lost_entries(2) assms(2) by simp
  qed (use assms(2) in \<open>auto simp: action_entries_def intro: entries_Nil\<close>)
  then show ?thesis using w' unfolding logs_def by blast
qed

lemma publish_current_state_logs:
  assumes "publish_current_state (logged env) sv m w = (r, m', w')"
  shows "logs sv m w m' w'"
proof -
  obtain x w1 where u: "mq_states_update (logged env) w = (x, w1)"
    by (cases "mq_states_update (logged env) w")
  note w1 = logged_calls(2) [OF u]
  show ?thesis
  proof (cases x)
    case None
    then show ?thesis using assms u w1 by (auto simp: publish_current_state_def intro: logs_quiet)
  next
    case (Some message)
    obtain a where a: "state_available (sm_request_id message) m = (a, m')"
      "perform_option (logged env) sv a (Some (sm_payload message)) w1 = (r, w')"
      using assms u Some by (auto simp: publish_current_state_def split: prod.splits)
    then show ?thesis
      using state_entries [OF a(1), of sv] perform_logged [of env sv a "Some (sm_payload message)" w1] w1 Some
      unfolding logs_def by auto
  qed
qed

lemma session_of_flag [simp]: "session_of (m\<lparr>bm_became_online := b\<rparr>) = session_of m"
  by (simp add: session_of_def)

lemma connection_established_logs:
  assumes "snd w0 = snd w @ [BrokerAccepted]"
    and "connection_established (logged env) sv L w0 = (f, L', w')"
  shows "logs sv (lp_protocol L) w (lp_protocol L') w'"
proof -
  obtain x w1 where 1: "mq_states_update (logged env) w0 = (x, w1)"
    by (cases "mq_states_update (logged env) w0")
  obtain i w2 where 2: "mq_request_modify (logged env) request_collection w1 = (i, w2)"
    by (cases "mq_request_modify (logged env) request_collection w1")
  obtain a m where c: "connected i (lp_protocol L) = (a, m)" by (cases "connected i (lp_protocol L)")
  let ?seen = "case x of None \<Rightarrow> [] | Some message \<Rightarrow> [StateRead message]"
  obtain r where p: "perform_option (logged env) sv (Some a) None (mq_status (logged env) Bootstrapping w2) = (r, w')"
    and m: "lp_protocol L' = m"
    using assms(2) 1 2 c by (auto simp: connection_established_def perform_is_option split: prod.splits)
  have "snd w' = snd w @ BrokerAccepted # ?seen @ RequestMade i # action_entries sv (Some a) None"
    using perform_logged [of env sv "Some a" None "mq_status (logged env) Bootstrapping w2"] p
      logged_calls(2) [OF 1] logged_calls(3) [OF 2] assms(1) by simp
  moreover have "?seen = [] \<or> (\<exists>message. ?seen = [StateRead message])" by (cases x) simp_all
  ultimately show ?thesis
    using connected_entries [OF c, of ?seen sv None] m unfolding logs_def by blast
qed

text \<open>The log since the start is an invariant of the event loop, the graceful shutdown included.\<close>

lemma logs_quiet_after: "logs sv m0 w0 m w \<Longrightarrow> snd w' = snd w \<Longrightarrow> logs sv m0 w0 m w'"
  using logs_trans logs_quiet by blast

interpretation contract: whole_loop "logged env" sv "logs sv m0 w0"
  for env :: "'s MqttEnv" and sv m0 w0
proof (unfold_locales, goal_cases)
  case 1 show ?case by (rule logs_quiet_after [OF 1]) simp
next
  case (2 m s b s')
  then show ?case using logged_quiet(1) [of env s] by (auto intro!: logs_quiet_after [OF 2(1)])
next
  case (3 m s d x s')
  then show ?case using logged_quiet(2) [of env d s] by (auto intro!: logs_quiet_after [OF 3(1)])
next
  case (4 m s branch s')
  then have "branch_entries branch = []" by (cases branch) auto
  then show ?case using logged_calls(1) [OF 4(2)] by (intro logs_quiet_after [OF 4(1)]) simp
next
  case (5 m s s1 r m' s')
  have "logs sv m0 w0 m s1" using logged_calls(1) [OF 5(2)] by (intro logs_quiet_after [OF 5(1)]) simp
  from logs_trans [OF this publish_current_state_logs [OF 5(3)]] show ?case .
next
  case (6 m s e s1 a m' r s')
  have "snd s1 = snd s @ event_entries e" using logged_calls(1) [OF 6(2)] 6(3) by simp
  from logs_trans [OF 6(1) event_logs [OF this 6(4,5)]] show ?case .
next
  case (7 m s r m' s')
  have "logs sv m s (m\<lparr>bm_became_online := False\<rparr>) s" by (intro logs_quiet) simp_all
  from logs_trans [OF 7(1) logs_trans [OF this publish_current_state_logs [OF 7(3)]]] show ?case .
next
  case (8 m s)
  have "logs sv m s (m\<lparr>bm_became_online := False\<rparr>) s" by (intro logs_quiet) simp_all
  from logs_trans [OF 8 this] show ?case .
next
  case (9 L s s1 f L' s')
  have "snd s1 = snd s @ [BrokerAccepted]" using logged_calls(1) [OF 9(2)] by simp
  from logs_trans [OF 9(1) connection_established_logs [OF this 9(3)]] show ?case .
next
  case (10 m s err s1)
  have "logs sv m s (connection_lost m) s1"
    using logged_calls(1) [OF 10(2)] lost_entries(1) unfolding logs_def by auto
  from logs_trans [OF 10(1) this] show ?case .
next
  case 11 show ?case by (rule logs_quiet_after [OF 11]) simp
next
  case (12 m s p s')
  have "deadline_entries p = []" using 12(3) by (cases p rule: deadline_entries.cases) auto
  then show ?case using logged_calls(4) [OF 12(2)] by (intro logs_quiet_after [OF 12(1)]) simp
next
  case (13 m s e s1 a m' r s')
  have "snd s1 = snd s @ event_entries e" using logged_calls(4) [OF 13(2)] by simp
  from logs_trans [OF 13(1) event_logs [OF this 13(3,4)]] show ?case .
next
  case (14 m s a m' r s')
  have "entries_of_session sv m (action_entries sv a None) m'"
    using quiet_event_entries [of ShutdownRequested] 14(2) by simp
  moreover have "snd s' = snd s @ action_entries sv a None"
    using perform_logged [of env sv a None s] 14(3) by simp
  ultimately have "logs sv m s m' s'" unfolding logs_def by blast
  from logs_trans [OF 14(1) this] show ?case .
qed

text \<open>
  C1. Whatever the broker, the network, the collector and the service manager do, and after any number
  of iterations, what the supervisor has been told and has asked of the MQTT client is, from beginning
  to end, a run of the session contract that starts with no connection and ends in the session its
  machine is in.  A connection begins only when the broker accepts it and ends only when the client
  reports its end; the new connection makes a request and is announced with the retained discovery
  document; then retained \<open>online\<close>, then unretained states, each with the payload of the message just
  read and with ascending request numbers from the connection's own request on, then retained
  \<open>offline\<close> and the disconnect.  Nothing is published outside a connection.\<close>

theorem supervisor_publishes_in_order:
  "case iterations (logged env) sv n (LoopState_initial seed) (s, []) of
     None \<Rightarrow> True
   | Some (f, L, s', entries) \<Rightarrow>
       (\<exists>w blocks. entries = concat blocks \<and> list_all2 (session_entries sv) w blocks \<and>
          runs session_step (Down 0) (labels_of w) (session_of (lp_protocol L)) \<and>
          list_all (\<lambda>(r, segment). in_order r segment) (sessions (labels_of w)) \<and>
          stray_labels False (labels_of w) = [])"
proof (cases "iterations (logged env) sv n (LoopState_initial seed) (s, [])")
  case (Some y)
  obtain f L s' entries where y: "y = (f, L, s', entries)" by (cases y)
  then have "logs sv (lp_protocol (LoopState_initial seed)) (s, []) (lp_protocol L) (s', entries)"
    using Some contract.all_iterations_kept [OF logs_quiet] by blast
  moreover have "session_of (lp_protocol (LoopState_initial seed)) = Down 0"
    by (simp add: session_of_def LoopState_initial_def BootstrapMachine_default_def)
  ultimately obtain w blocks where
    w: "runs session_step (Down 0) (labels_of w) (session_of (lp_protocol L))"
    "list_all2 (session_entries sv) w blocks" "entries = concat blocks"
    by (auto simp: logs_def entries_of_session_def)
  then have "list_all (\<lambda>(r, segment). in_order r segment) (sessions (labels_of w))"
    "stray_labels False (labels_of w) = []"
    using sessions_in_order [OF w(1)] no_stray_labels [OF w(1), of False] by simp_all
  then show ?thesis using Some y w by auto
qed simp


section \<open>No collected state is forgotten\<close>

text \<open>
  What the watched slots promise.  \<open>slot\<close> is the newest state message, \<open>fresh\<close> says that the
  receiver has not seen it, \<open>counter\<close> is the value of the request slot, and \<open>valid\<close> says of the slots
  that the message carries a request number that has been issued.  Only a read with
  \<open>borrow_and_update\<close> and a completed wait for a change mark a value as seen, and every new value is
  unseen; once the request numbers are spent (the counter saturates), nothing is promised.
\<close>

definition unseen_kept :: "('s \<Rightarrow> StateMessage option) \<Rightarrow> ('s \<Rightarrow> bool) \<Rightarrow> 's \<Rightarrow> 's \<Rightarrow> bool" where
  "unseen_kept slot fresh s s' \<longleftrightarrow> fresh s' \<or> (\<not> fresh s \<and> slot s' = slot s)"

definition stays_valid :: "('s \<Rightarrow> u64) \<Rightarrow> ('s \<Rightarrow> bool) \<Rightarrow> 's \<Rightarrow> 's \<Rightarrow> bool" where
  "stays_valid counter valid s s' \<longleftrightarrow>
     (counter s = - 1 \<longrightarrow> counter s' = - 1) \<and> (valid s \<longrightarrow> counter s' = - 1 \<or> valid s')"

text \<open>A message the machine would neither publish now nor once its bootstrap has gone on.\<close>

definition outdated :: "BootstrapMachine \<Rightarrow> u64 \<Rightarrow> bool" where
  "outdated m i \<longleftrightarrow>
     (case session_of m of
        Announcing r l \<Rightarrow> i < r | Available r l \<Rightarrow> i < r | Current l \<Rightarrow> i \<le> l | _ \<Rightarrow> True)"

definition nothing_forgotten ::
  "('s \<Rightarrow> StateMessage option) \<Rightarrow> ('s \<Rightarrow> bool) \<Rightarrow> BootstrapMachine \<Rightarrow> 's \<Rightarrow> bool" where
  "nothing_forgotten slot fresh m s \<longleftrightarrow>
     fresh s \<or> (case slot s of None \<Rightarrow> True | Some message \<Rightarrow> outdated m (sm_request_id message))"

lemma outdated_refused: "outdated m i \<Longrightarrow> fst (state_available i m) = None"
  by (cases "bm_phase m") (auto simp: outdated_def session_of_def state_available_def Let_def not_le not_less)

lemma outdated_flag [simp]: "outdated (m\<lparr>bm_became_online := b\<rparr>) i = outdated m i"
  by (simp add: outdated_def)

text \<open>No event but a new connection makes an outdated message publishable.\<close>

lemma outdated_step:
  assumes "outdated m i" "\<And>r. e \<noteq> Connected r" "machine_ok m"
  shows "outdated (snd (protocol_step e m)) i"
  using assms
  by (cases e; cases "bm_phase m")
    (auto simp: outdated_def session_of_def machine_defs Let_def not_le not_less machine_ok_def
      split: if_splits)

lemma nothing_forgotten_mono:
  assumes "nothing_forgotten slot fresh m s" "\<And>i. outdated m i \<Longrightarrow> outdated m' i"
  shows "nothing_forgotten slot fresh m' s"
  using assms by (cases "slot s") (auto simp: nothing_forgotten_def)

lemma machine_ok_flag: "machine_ok m \<Longrightarrow> machine_ok (m\<lparr>bm_became_online := False\<rparr>)"
  by (cases "bm_phase m") (auto simp: machine_ok_def)

locale watched_slots =
  fixes env :: "'s MqttEnv"
    and slot :: "'s \<Rightarrow> StateMessage option"
    and fresh :: "'s \<Rightarrow> bool"
    and counter :: "'s \<Rightarrow> u64"
    and valid :: "'s \<Rightarrow> bool"
  assumes issued: "valid s \<Longrightarrow> slot s = Some message \<Longrightarrow> sm_request_id message \<le> counter s"
    and update: "mq_states_update env s = (x, s') \<Longrightarrow>
      x = slot s \<and> (fresh s' \<or> slot s' = x) \<and> stays_valid counter valid s s'"
    and request: "mq_request_modify env request_collection s = (r, s') \<Longrightarrow>
      r = fst (request_collection (counter s)) \<and> unseen_kept slot fresh s s' \<and>
      stays_valid counter valid s s'"
    and wait: "mq_select env accepts s = (branch, s') \<Longrightarrow>
      (branch = StatesChanged True \<or> unseen_kept slot fresh s s') \<and>
      (accepts \<or> (\<forall>alive. branch \<noteq> StatesChanged alive)) \<and> stays_valid counter valid s s'"
    and publish: "mq_try_publish env p s = (b, s') \<Longrightarrow>
      unseen_kept slot fresh s s' \<and> stays_valid counter valid s s'"
    and disconnect: "mq_try_disconnect env s = (b, s') \<Longrightarrow>
      unseen_kept slot fresh s s' \<and> stays_valid counter valid s s'"
    and read_shutdown: "mq_shutdown_requested env s = (b, s') \<Longrightarrow>
      unseen_kept slot fresh s s' \<and> stays_valid counter valid s s'"
    and report: "unseen_kept slot fresh s (mq_status env st s) \<and>
      stays_valid counter valid s (mq_status env st s)"
    and nap: "mq_sleep_or_shutdown env d s = (w, s') \<Longrightarrow>
      unseen_kept slot fresh s s' \<and> stays_valid counter valid s s'"
begin

definition loop_ok :: "BootstrapMachine \<Rightarrow> 's \<Rightarrow> bool" where
  "loop_ok m s \<longleftrightarrow>
     machine_ok m \<and> (counter s = - 1 \<or> valid s \<and> nothing_forgotten slot fresh m s)"

lemma loop_ok_kept:
  "loop_ok m s \<Longrightarrow> unseen_kept slot fresh s s' \<and> stays_valid counter valid s s' \<Longrightarrow> loop_ok m s'"
  by (auto simp: loop_ok_def nothing_forgotten_def unseen_kept_def stays_valid_def)

lemma loop_ok_step:
  assumes "loop_ok m s" "\<And>r. e \<noteq> Connected r"
  shows "loop_ok (snd (protocol_step e m)) s"
proof -
  have ok: "machine_ok m" using assms(1) by (simp add: loop_ok_def)
  have "nothing_forgotten slot fresh (snd (protocol_step e m)) s" if "nothing_forgotten slot fresh m s"
    by (rule nothing_forgotten_mono [OF that]) (rule outdated_step [OF _ assms(2) ok])
  then show ?thesis using assms(1) machine_ok_step [OF ok] by (auto simp: loop_ok_def)
qed

lemma perform_option_kept:
  assumes "loop_ok m s" "perform_option env sv a payload s = (r, s')"
  shows "loop_ok m s'"
proof (cases a)
  case None
  then show ?thesis using assms by (simp add: perform_option_def)
next
  case (Some action)
  show ?thesis
  proof (cases "action_publication sv action payload")
    case None
    then obtain b where "mq_try_disconnect env s = (b, s')"
      using assms(2) Some by (auto simp: perform_option_def perform_def split: prod.splits)
    from loop_ok_kept [OF assms(1) disconnect [OF this]] show ?thesis .
  next
    case (Some p)
    then obtain b where "mq_try_publish env p s = (b, s')"
      using assms(2) \<open>a = Some action\<close> by (auto simp: perform_option_def perform_def split: prod.splits)
    from loop_ok_kept [OF assms(1) publish [OF this]] show ?thesis .
  qed
qed

lemma event_ok:
  assumes "loop_ok m s" "event_action e m = (a, m')" "perform_option env sv a None s = (r, s')"
  shows "loop_ok m' s'"
proof -
  have "loop_ok m' s"
  proof (cases e)
    case (IncomingPubAck p)
    then show ?thesis using loop_ok_step [OF assms(1), of "PubAck p"] assms(2) by simp
  next
    case (OutgoingPublishEvent p)
    then show ?thesis using loop_ok_step [OF assms(1), of "OutgoingPublish p"] assms(2) by simp
  next
    case OutgoingDisconnectEvent
    then show ?thesis using loop_ok_step [OF assms(1), of "OutgoingDisconnect"] assms(2) by simp
  qed (use assms in auto)
  then show ?thesis by (rule perform_option_kept [OF _ assms(3)])
qed

text \<open>A message that has been looked at is published, and then outdated, or outdated already.\<close>

lemma publish_current_state_ok:
  assumes "machine_ok m" "counter s = - 1 \<or> valid s" "accepts_state m \<or> closing_phase (bm_phase m)"
    and "publish_current_state env sv m s = (r, m', s')"
  shows "loop_ok m' s'"
proof -
  obtain x s1 where u: "mq_states_update env s = (x, s1)" by (cases "mq_states_update env s")
  note law = update [OF u]
  have s1: "counter s1 = - 1 \<or> valid s1" using law assms(2) by (auto simp: stays_valid_def)
  show ?thesis
  proof (cases x)
    case None
    then show ?thesis using assms(1,4) u law s1
      by (auto simp: publish_current_state_def loop_ok_def nothing_forgotten_def)
  next
    case (Some message)
    obtain a where a: "state_available (sm_request_id message) m = (a, m')"
      "perform_option env sv a (Some (sm_payload message)) s1 = (r, s')"
      using assms(4) u Some by (auto simp: publish_current_state_def split: prod.splits)
    have "machine_ok m'"
      using machine_ok_step [OF assms(1), of "StateAvailable (sm_request_id message)"] a by simp
    moreover have "outdated m' (sm_request_id message)"
      using a(1) assms(3)
      by (cases "bm_phase m")
        (auto simp: outdated_def session_of_def state_available_def accepts_state_def Let_def
          split: if_splits)
    then have "nothing_forgotten slot fresh m' s1"
      using law Some by (cases "slot s1") (auto simp: nothing_forgotten_def)
    ultimately have "loop_ok m' s1" using s1 by (auto simp: loop_ok_def)
    then show ?thesis by (rule perform_option_kept [OF _ a(2)])
  qed
qed

lemma connection_established_ok:
  assumes "loop_ok (lp_protocol L) s" "connection_established env sv L s = (f, L', s')"
  shows "loop_ok (lp_protocol L') s'"
proof -
  obtain x s1 where 1: "mq_states_update env s = (x, s1)" by (cases "mq_states_update env s")
  obtain i s2 where 2: "mq_request_modify env request_collection s1 = (i, s2)"
    by (cases "mq_request_modify env request_collection s1")
  let ?s = "mq_status env Bootstrapping s2"
  obtain a m where c: "connected i (lp_protocol L) = (a, m)" by (cases "connected i (lp_protocol L)")
  obtain r s'' where "perform env sv a None ?s = (r, s'')" by (cases "perform env sv a None ?s")
  then have p: "perform_option env sv (Some a) None ?s = (r, s')" "lp_protocol L' = m"
    using assms(2) 1 2 c by (auto simp: connection_established_def perform_option_def)
  have s1: "counter s1 = - 1 \<or> valid s1"
    using update [OF 1] assms(1) by (auto simp: loop_ok_def stays_valid_def)
  have m: "m = snd (protocol_step (Connected i) (lp_protocol L))" using c by simp
  have ok: "machine_ok m" using machine_ok_step [of "lp_protocol L" "Connected i"] assms(1) m
    by (simp add: loop_ok_def)
  have "outdated m (sm_request_id message)"
    if "counter s1 \<noteq> - 1" "valid s1" "slot s1 = Some message" for message
  proof -
    have "counter s1 < i" using request [OF 2] request_collection_newer [OF that(1)] by simp
    then show ?thesis
      using issued [OF that(2,3)] c by (auto simp: outdated_def session_of_def connected_def)
  qed
  then have "loop_ok m s1" using ok s1
    by (cases "counter s1 = - 1") (auto simp: loop_ok_def nothing_forgotten_def split: option.splits)
  then have "loop_ok m s2" by (rule loop_ok_kept) (use request [OF 2] in simp)
  then have "loop_ok m ?s" by (rule loop_ok_kept [OF _ report])
  then show ?thesis using perform_option_kept [OF _ p(1)] p(2) by simp
qed

end

sublocale watched_slots \<subseteq> loop: event_loop env sv loop_ok for sv
proof (unfold_locales, goal_cases)
  case 1 show ?case by (rule loop_ok_kept [OF 1 report])
next
  case 2 show ?case by (rule loop_ok_kept [OF 2(1) read_shutdown [OF 2(2)]])
next
  case 3 show ?case by (rule loop_ok_kept [OF 3(1) nap [OF 3(2)]])
next
  case 4 show ?case using wait [OF 4(2)] 4(3) by (intro loop_ok_kept [OF 4(1)]) blast
next
  case (5 m s s1 r m' s')
  have "accepts_state m" "stays_valid counter valid s s1" using wait [OF 5(2)] by blast+
  then show ?case using 5(1)
    by (intro publish_current_state_ok [OF _ _ _ 5(3)]) (auto simp: loop_ok_def stays_valid_def)
next
  case (6 m s e s1 a m' r s')
  have "loop_ok m s1" using wait [OF 6(2)] by (intro loop_ok_kept [OF 6(1)]) blast
  from event_ok [OF this 6(4,5)] show ?case .
next
  case (7 m s r m' s')
  show ?case
    using 7(1,2) machine_ok_flag [of m]
    by (intro publish_current_state_ok [OF _ _ _ 7(3)])
      (auto simp: loop_ok_def machine_ok_def accepts_state_def)
next
  case (8 m s) then show ?case using machine_ok_flag [of m]
    by (cases "slot s") (simp_all add: loop_ok_def nothing_forgotten_def)
next
  case (9 L s s1 f L' s')
  have "loop_ok (lp_protocol L) s1" using wait [OF 9(2)] by (intro loop_ok_kept [OF 9(1)]) blast
  from connection_established_ok [OF this 9(3)] show ?case .
next
  case (10 m s err s1)
  have "loop_ok m s1" using wait [OF 10(2)] by (intro loop_ok_kept [OF 10(1)]) blast
  from loop_ok_step [OF this, of ConnectionLost] show ?case by simp
qed

context watched_slots
begin

lemma loop_ok_initial: "valid s \<Longrightarrow> loop_ok (lp_protocol (LoopState_initial seed)) s"
  using machine_ok_default
  by (auto simp: loop_ok_def nothing_forgotten_def outdated_def session_of_def LoopState_initial_def
      BootstrapMachine_default_def Let_def split: option.splits)

lemma publishable_is_unseen:
  assumes "valid s" "iterations env sv n (LoopState_initial seed) s = Some (Continue, L, s')"
    "counter s' \<noteq> - 1" "slot s' = Some message"
  shows "fresh s' \<or> fst (state_available (sm_request_id message) (lp_protocol L)) = None"
  using loop.iterations_kept [OF loop_ok_initial [OF assms(1)] assms(2)] assms(3,4)
  by (auto simp: loop_ok_def nothing_forgotten_def outdated_refused)

end

end
