(* ===== verification/Service_Slots.thy ===== *)
theory Service_Slots
  imports Daemon Mqtt_Contract
begin

text \<open>
  The slots through which the tasks of the service communicate, and the three tasks on them.  The
  request slot, the state slot and the busy flag are those that \<open>run_service\<close> creates; the supervisor
  runs on them while the worker and the scheduler take any of their steps between any two of its calls.
\<close>

section \<open>The slots and the steps of the other tasks\<close>

text \<open>
  What happens to the slots, for the statements: a new connection makes its request, the worker begins
  to serve a request, it leaves the collected state, and the supervisor hands a publication to the
  client.  \<open>sl_history\<close> holds the events, the newest first, and \<open>sl_taken\<close> the request that the worker
  is serving; the program has neither.
\<close>

datatype SlotEvent = NewConnection | Began u64 | Collected StateMessage | Handed Publication

record Slots =
  sl_request :: u64
  sl_state :: "StateMessage option"
  sl_unseen :: bool
  sl_busy :: bool
  sl_taken :: "u64 option"
  sl_history :: "SlotEvent list"

definition slots_new :: Slots where
  "slots_new =
     \<lparr>sl_request = 0, sl_state = None, sl_unseen = False, sl_busy = False, sl_taken = None,
      sl_history = []\<rparr>"

definition record_event :: "SlotEvent \<Rightarrow> Slots \<Rightarrow> Slots" where
  "record_event e v = v\<lparr>sl_history := e # sl_history v\<rparr>"

text \<open>The slots as the worker and the scheduler see them.\<close>

definition take_request :: "Slots \<Rightarrow> Slots" where
  "take_request v =
     (if sl_request v = 0 then v
      else record_event (Began (sl_request v)) (v\<lparr>sl_taken := Some (sl_request v)\<rparr>))"

definition send_state :: "StateMessage \<Rightarrow> Slots \<Rightarrow> Slots" where
  "send_state message v =
     record_event (Collected message) (v\<lparr>sl_state := Some message, sl_unseen := True\<rparr>)"

definition set_busy :: "bool \<Rightarrow> Slots \<Rightarrow> Slots" where
  "set_busy b v = v\<lparr>sl_busy := b, sl_taken := (if b then sl_taken v else None)\<rparr>"

definition slots_worker_env :: "Slots WorkerEnv" where
  "slots_worker_env =
     \<lparr>wk_changed = (\<lambda>v. (True, v)), wk_request = (\<lambda>v. (sl_request v, take_request v)),
      wk_set_busy = set_busy, wk_send_state = send_state\<rparr>"

definition slots_scheduler_env :: "nat \<Rightarrow> Slots SchedulerEnv" where
  "slots_scheduler_env now =
     \<lparr>sc_shutdown_requested = (\<lambda>v. (False, v)), sc_start_interval = (\<lambda>_ v. v),
      sc_wait = (\<lambda>v. (Tick, v)), sc_busy = (\<lambda>v. (sl_busy v, v)), sc_now = (\<lambda>v. (now, v)),
      sc_request_modify = (\<lambda>f v. case f (sl_request v) of (i, r) \<Rightarrow> (i, v\<lparr>sl_request := r\<rparr>)),
      sc_warn = (\<lambda>_ v. v)\<rparr>"

text \<open>
  The steps of the other tasks: a request of the scheduler, and the beginning and the two ends of the
  worker's service of a request.
\<close>

datatype OtherStep = SchedulerAsks | WorkerTakes | WorkerSends "nat list" | WorkerFails

fun other_step :: "OtherStep \<Rightarrow> Slots \<Rightarrow> Slots" where
  "other_step SchedulerAsks v = v\<lparr>sl_request := snd (request_collection (sl_request v))\<rparr>"
| "other_step WorkerTakes v = (if sl_request v = 0 then v else set_busy True (take_request v))"
| "other_step (WorkerSends payload) v =
     (case sl_taken v of
        None \<Rightarrow> v
      | Some i \<Rightarrow> set_busy False (send_state (StateMessage_new i payload) v))"
| "other_step WorkerFails v = set_busy False v"

lemmas slot_defs = record_event_def take_request_def send_state_def set_busy_def

text \<open>The scheduler's tick and the worker's service of a request consist of these steps.\<close>

lemma scheduler_tick_steps:
  "snd (scheduler_tick (slots_scheduler_env now) warned v) =
     (if sl_busy v then v else other_step SchedulerAsks v)"
  by (simp add: scheduler_tick_def slots_scheduler_env_def split: prod.splits)

lemma serve_request_steps:
  assumes "\<And>v. sl_taken (between v) = sl_taken v"
  shows "serve_request slots_worker_env (\<lambda>c v. (r, c, between v)) c v =
    (if sl_request v = 0 then (Inr (), c, other_step WorkerTakes v)
     else
       (case r of
          Inl e \<Rightarrow> (Inl e, c, other_step WorkerFails (between (other_step WorkerTakes v)))
        | Inr payload \<Rightarrow>
            (Inr (), c, other_step (WorkerSends payload) (between (other_step WorkerTakes v)))))"
  using assms
  by (auto simp: serve_request_def slots_worker_env_def slot_defs split: sum.splits)


section \<open>The supervisor on the slots\<close>

text \<open>
  The world of the supervisor: \<open>base\<close> decides all that does not concern the slots, on a state of its
  own, and after every call the other tasks take the steps that \<open>others\<close> gives.  The third branch of
  the \<open>select!\<close> completes only when it is enabled and there is an unseen state (or no sender).
\<close>

type_synonym 's interference = "'s \<times> Slots \<Rightarrow> OtherStep list"

definition interfere :: "'s interference \<Rightarrow> 's \<times> Slots \<Rightarrow> 's \<times> Slots" where
  "interfere others w = (fst w, fold other_step (others w) (snd w))"

definition shared :: "'s interference \<Rightarrow> ('s \<Rightarrow> 'a \<times> 's) \<Rightarrow> 's \<times> Slots \<Rightarrow> 'a \<times> 's \<times> Slots" where
  "shared others f w = (case f (fst w) of (x, s) \<Rightarrow> (x, interfere others (s, snd w)))"

fun branch_enabled :: "bool \<Rightarrow> Slots \<Rightarrow> Branch \<Rightarrow> bool" where
  "branch_enabled accepts v (StatesChanged alive) = (accepts \<and> (alive \<longrightarrow> sl_unseen v))"
| "branch_enabled accepts v _ = True"

definition slots_select ::
  "'s MqttEnv \<Rightarrow> 's interference \<Rightarrow> bool \<Rightarrow> 's \<times> Slots \<Rightarrow> Branch \<times> 's \<times> Slots" where
  "slots_select base others accepts w =
     (case mq_select base accepts (fst w) of (b, s) \<Rightarrow>
        if branch_enabled accepts (snd w) b
        then (b, interfere others
               (s, if b = StatesChanged True then (snd w)\<lparr>sl_unseen := False\<rparr> else snd w))
        else (Polled (Inr OtherEvent), interfere others (s, snd w)))"

definition slots_env :: "'s MqttEnv \<Rightarrow> 's interference \<Rightarrow> ('s \<times> Slots) MqttEnv" where
  "slots_env base others =
     \<lparr>mq_open = (\<lambda>options timeout w. interfere others (mq_open base options timeout (fst w), snd w)),
      mq_try_publish = (\<lambda>p w. case mq_try_publish base p (fst w) of
         (b, s) \<Rightarrow> (b, interfere others (s, record_event (Handed p) (snd w)))),
      mq_try_disconnect = shared others (mq_try_disconnect base),
      mq_shutdown_requested = shared others (mq_shutdown_requested base),
      mq_select = slots_select base others,
      mq_states_update = (\<lambda>w.
         (sl_state (snd w), interfere others (fst w, (snd w)\<lparr>sl_unseen := False\<rparr>))),
      mq_request_modify = (\<lambda>f w. case f (sl_request (snd w)) of
         (i, r) \<Rightarrow>
           (i, interfere others (fst w, record_event NewConnection ((snd w)\<lparr>sl_request := r\<rparr>)))),
      mq_status = (\<lambda>status w. interfere others (mq_status base status (fst w), snd w)),
      mq_sleep_or_shutdown = (\<lambda>d. shared others (mq_sleep_or_shutdown base d)),
      mq_start_deadline = (\<lambda>d w. interfere others (mq_start_deadline base d (fst w), snd w)),
      mq_poll_deadline = shared others (mq_poll_deadline base),
      mq_seed = shared others (mq_seed base)\<rparr>"


section \<open>Published states are fresh\<close>

text \<open>
  The events since the newest connection; a message is \<open>answered\<close> in a history when both the
  beginning of its collection and its end come after the newest connection's request.
\<close>

definition recent :: "SlotEvent list \<Rightarrow> SlotEvent list" where
  "recent h = takeWhile (\<lambda>e. e \<noteq> NewConnection) h"

fun answered :: "SlotEvent list \<Rightarrow> StateMessage \<Rightarrow> bool" where
  "answered [] message = False"
| "answered (e # past) message =
     (e \<noteq> NewConnection \<and>
      (e = Collected message \<and> Began (sm_request_id message) \<in> set (recent past) \<or>
       answered past message))"

text \<open>Every state publication (quality of service zero) carries such a message.\<close>

definition fresh_payload :: "SlotEvent list \<Rightarrow> nat list \<Rightarrow> bool" where
  "fresh_payload past payload \<longleftrightarrow>
     NewConnection \<in> set past \<and>
     list_ex (\<lambda>e. case e of
        Collected message \<Rightarrow> sm_payload message = payload \<and> answered past message
      | _ \<Rightarrow> False) past"

fun states_fresh :: "SlotEvent list \<Rightarrow> bool" where
  "states_fresh [] = True"
| "states_fresh (Handed p # past) =
     ((if pub_qos p = AtMostOnce then fresh_payload past (pub_payload p) else True) \<and> states_fresh past)"
| "states_fresh (_ # past) = states_fresh past"

lemma recent_simps [simp]:
  "recent [] = []" "recent (e # h) = (if e = NewConnection then [] else e # recent h)"
  by (simp_all add: recent_def)

lemma states_fresh_quiet: "(\<And>p. e \<noteq> Handed p) \<Longrightarrow> states_fresh (e # h) = states_fresh h"
  by (cases e) auto

lemma answered_collected: "answered h message \<Longrightarrow> Collected message \<in> set h"
  by (induction h) auto

text \<open>The invariant of the event loop; nothing is promised once the request numbers are spent.\<close>

definition slots_ok :: "BootstrapMachine \<Rightarrow> Slots \<Rightarrow> bool" where
  "slots_ok m v \<longleftrightarrow>
     machine_ok m \<and>
     (sl_request v = - 1 \<or>
      bm_required_request m \<le> sl_request v \<and> states_fresh (sl_history v) \<and>
      (bm_phase m = Disconnected \<or> closing_phase (bm_phase m) \<or> NewConnection \<in> set (sl_history v)) \<and>
      (\<forall>i. sl_taken v = Some i \<longrightarrow> i \<le> sl_request v \<and>
         (bm_required_request m \<le> i \<longrightarrow> Began i \<in> set (recent (sl_history v)))) \<and>
      (\<forall>message. sl_state v = Some message \<longrightarrow> sm_request_id message \<le> sl_request v \<and>
         (bm_required_request m \<le> sm_request_id message \<longrightarrow> answered (sl_history v) message)))"

lemma request_collection_spent: "request_collection (- 1) = (- 1, - 1)"
proof -
  have "unat (saturating_add (- 1) 1 :: u64) = unat (- 1 :: u64)"
    by (simp add: unat_saturating_add unat_max_word)
  then show ?thesis by (simp add: request_collection_def Let_def word_unat_eq_iff)
qed

lemma request_collection_pair: "fst (request_collection r) = snd (request_collection r)"
  by (simp add: request_collection_def Let_def)

lemma request_collection_le: "r \<le> snd (request_collection r)"
  using request_collection_newer [of r] request_collection_pair [of r]
  by (cases "r = - 1") (auto simp: request_collection_spent)

lemma other_step_ok: "slots_ok m v \<Longrightarrow> slots_ok m (other_step step v)"
proof (cases step)
  case SchedulerAsks
  assume ok: "slots_ok m v"
  have le: "sl_request v \<le> snd (request_collection (sl_request v))" by (rule request_collection_le)
  show ?thesis
  proof (cases "sl_request v = - 1")
    case True
    then show ?thesis using ok SchedulerAsks request_collection_spent by (simp add: slots_ok_def)
  next
    case False
    then show ?thesis using ok SchedulerAsks le by (auto simp: slots_ok_def intro: order_trans)
  qed
next
  case (WorkerSends payload)
  assume ok: "slots_ok m v"
  then show ?thesis
    by (cases "sl_taken v")
      (auto simp: WorkerSends slots_ok_def slot_defs StateMessage_new_def states_fresh_quiet)
qed (auto simp: slots_ok_def slot_defs states_fresh_quiet split: if_splits)

lemma interfere_ok: "slots_ok m v \<Longrightarrow> slots_ok m (snd (interfere others (s, v)))"
proof -
  have "slots_ok m v \<Longrightarrow> slots_ok m (fold other_step steps v)" for steps
    by (induction steps arbitrary: v) (auto intro: other_step_ok)
  then show "slots_ok m v \<Longrightarrow> slots_ok m (snd (interfere others (s, v)))"
    by (simp add: interfere_def)
qed

lemma shared_ok:
  assumes "slots_ok m (snd w)" "shared others f w = (x, w')"
  shows "slots_ok m (snd w')"
  using interfere_ok [OF assms(1), of others "snd (f (fst w))"] assms(2)
  by (auto simp: shared_def split: prod.splits)

lemma protocol_ok:
  assumes "slots_ok m v" "\<And>r. e \<noteq> Connected r"
  shows "slots_ok (snd (protocol_step e m)) v"
proof -
  have "machine_ok (snd (protocol_step e m))"
    using assms(1) by (intro machine_ok_step) (simp add: slots_ok_def)
  moreover have "bm_required_request (snd (protocol_step e m)) = bm_required_request m"
    using assms(2) by (cases e; cases "bm_phase m") (auto simp: machine_defs Let_def)
  moreover have "bm_phase (snd (protocol_step e m)) = Disconnected \<or>
      closing_phase (bm_phase (snd (protocol_step e m)))"
    if "bm_phase m = Disconnected \<or> closing_phase (bm_phase m)"
    using that assms(2) by (cases e; cases "bm_phase m") (auto simp: machine_defs Let_def)
  ultimately show ?thesis using assms(1) by (auto simp: slots_ok_def)
qed

text \<open>The requests to the client that are not state publications.\<close>

lemma record_handed_ok:
  assumes "slots_ok m v" "pub_qos p = AtMostOnce \<Longrightarrow> sl_request v = - 1 \<or> fresh_payload (sl_history v) (pub_payload p)"
  shows "slots_ok m (record_event (Handed p) v)"
  using assms by (auto simp: slots_ok_def record_event_def)

lemma perform_slots_ok:
  assumes "slots_ok m (snd w)" "perform_option (slots_env base others) sv a payload w = (r, w')"
    and "a = Some PublishState \<Longrightarrow>
      sl_request (snd w) = - 1 \<or> (\<exists>q. payload = Some q \<and> fresh_payload (sl_history (snd w)) q)"
  shows "slots_ok m (snd w')"
proof (cases a)
  case None
  then show ?thesis using assms by (simp add: perform_option_def)
next
  case (Some action)
  show ?thesis
  proof (cases "action_publication sv action payload")
    case None
    then have "shared others (mq_try_disconnect base) w = (fst (shared others (mq_try_disconnect base) w), w')"
      using assms(2) Some by (auto simp: perform_option_def perform_def slots_env_def split: prod.splits)
    then show ?thesis by (rule shared_ok [OF assms(1)])
  next
    case (Some p)
    have "slots_ok m (record_event (Handed p) (snd w))"
    proof (rule record_handed_ok [OF assms(1)])
      assume "pub_qos p = AtMostOnce"
      then have "action = PublishState" "payload = Some q \<Longrightarrow> pub_payload p = q" for q
        using Some by (cases action; auto)+
      then show "sl_request (snd w) = - 1 \<or> fresh_payload (sl_history (snd w)) (pub_payload p)"
        using assms(3) \<open>a = Some action\<close> by auto
    qed
    then have "slots_ok m (snd (interfere others (s, record_event (Handed p) (snd w))))" for s by (rule interfere_ok)
    moreover obtain s where "w' = interfere others (s, record_event (Handed p) (snd w))"
      using assms(2) Some \<open>a = Some action\<close>
      by (auto simp: perform_option_def perform_def slots_env_def split: prod.splits)
    ultimately show ?thesis by simp
  qed
qed

text \<open>What the steps of the other tasks keep.\<close>

lemma interfere_keeps:
  fixes w :: "'s \<times> Slots"
  shows "sl_request (snd w) = - 1 \<Longrightarrow> sl_request (snd (interfere others w)) = - 1"
    and "answered (sl_history (snd w)) message \<Longrightarrow>
      answered (sl_history (snd (interfere others w))) message"
proof -
  have "sl_request v = - 1 \<Longrightarrow> sl_request (other_step step v) = - 1" for step v
    by (cases step) (auto simp: slot_defs request_collection_spent split: option.splits)
  then have "sl_request v = - 1 \<Longrightarrow> sl_request (fold other_step steps v) = - 1" for steps v
    by (induction steps arbitrary: v) auto
  then show "sl_request (snd w) = - 1 \<Longrightarrow> sl_request (snd (interfere others w)) = - 1"
    by (simp add: interfere_def)
  have "answered (sl_history v) message \<Longrightarrow> answered (sl_history (other_step step v)) message" for step v
    by (cases step) (auto simp: slot_defs split: option.splits)
  then have "answered (sl_history v) message \<Longrightarrow>
      answered (sl_history (fold other_step steps v)) message" for steps v
    by (induction steps arbitrary: v) auto
  then show "answered (sl_history (snd w)) message \<Longrightarrow>
      answered (sl_history (snd (interfere others w))) message"
    by (simp add: interfere_def)
qed

text \<open>A state that the machine accepts answers the request of the connection.\<close>

lemma accepted_answers:
  assumes "slots_ok m v" "sl_state v = Some message"
    and "fst (state_available (sm_request_id message) m) = Some PublishState"
  shows "sl_request v = - 1 \<or> answered (sl_history v) message"
proof -
  have "bm_required_request m \<le> sm_request_id message"
    using assms(1,3)
    by (auto simp: state_available_def slots_ok_def machine_ok_def Let_def
        split: Phase.splits if_splits intro: order_trans less_imp_le)
  then show ?thesis using assms(1,2) by (auto simp: slots_ok_def)
qed

lemma accepted_connected:
  assumes "slots_ok m v" "fst (state_available i m) = Some PublishState"
  shows "sl_request v = - 1 \<or> NewConnection \<in> set (sl_history v)"
  using assms by (auto simp: state_available_def slots_ok_def Let_def split: Phase.splits if_splits)

lemma answered_fresh:
  "answered h message \<Longrightarrow> NewConnection \<in> set h \<Longrightarrow>
     fresh_payload h (sm_payload message)"
  using answered_collected [of h message]
  by (auto simp: fresh_payload_def list_ex_iff intro!: bexI [of _ "Collected message"])

lemma event_slots_ok:
  assumes "slots_ok m (snd w)" "event_action e m = (a, m')"
    "perform_option (slots_env base others) sv a None w = (r, w')"
  shows "slots_ok m' (snd w')"
proof -
  have "slots_ok m' (snd w) \<and> a \<noteq> Some PublishState"
  proof (cases e)
    case (IncomingPubAck p)
    then show ?thesis using protocol_ok [OF assms(1), of "PubAck p"] assms(2)
      by (auto simp: publish_acknowledged_def split: Phase.splits if_splits)
  next
    case (OutgoingPublishEvent p)
    then show ?thesis using protocol_ok [OF assms(1), of "OutgoingPublish p"] assms(2)
      by (auto simp: outgoing_publish_def)
  next
    case OutgoingDisconnectEvent
    then show ?thesis using protocol_ok [OF assms(1), of OutgoingDisconnect] assms(2)
      by (auto simp: disconnected_def)
  qed (use assms in auto)
  then show ?thesis using perform_slots_ok [OF _ assms(3)] by blast
qed

lemma publish_slots_ok:
  assumes "slots_ok m (snd w)" "publish_current_state (slots_env base others) sv m w = (r, m', w')"
  shows "slots_ok m' (snd w')"
proof -
  let ?w = "interfere others (fst w, (snd w)\<lparr>sl_unseen := False\<rparr>)"
  have u: "mq_states_update (slots_env base others) w = (sl_state (snd w), ?w)"
    by (simp add: slots_env_def)
  have "slots_ok m ((snd w)\<lparr>sl_unseen := False\<rparr>)" using assms(1) by (simp add: slots_ok_def)
  then have ok: "slots_ok m (snd ?w)" by (rule interfere_ok)
  show ?thesis
  proof (cases "sl_state (snd w)")
    case None
    then show ?thesis using assms(2) u ok by (simp add: publish_current_state_def)
  next
    case (Some message)
    obtain a where a: "state_available (sm_request_id message) m = (a, m')"
      "perform_option (slots_env base others) sv a (Some (sm_payload message)) ?w = (r, w')"
      using assms(2) u Some by (auto simp: publish_current_state_def split: prod.splits)
    have ok': "slots_ok m' (snd ?w)"
      using protocol_ok [OF ok, of "StateAvailable (sm_request_id message)"] a(1) by simp
    show ?thesis
    proof (rule perform_slots_ok [OF ok' a(2)])
      assume "a = Some PublishState"
      then have accepted: "fst (state_available (sm_request_id message) m) = Some PublishState"
        using a(1) by simp
      have "sl_request (snd ?w) = - 1 \<or> answered (sl_history (snd ?w)) message"
        using accepted_answers [OF assms(1) Some accepted]
          interfere_keeps [of "(fst w, (snd w)\<lparr>sl_unseen := False\<rparr>)"] by auto
      then show "sl_request (snd ?w) = - 1 \<or> (\<exists>q. Some (sm_payload message) = Some q \<and>
          fresh_payload (sl_history (snd ?w)) q)"
        using accepted_connected [OF ok accepted]
          answered_fresh [of "sl_history (snd ?w)" message] by blast
    qed
  qed
qed

text \<open>The request of a new connection makes every earlier collection too old.\<close>

lemma connect_slots_ok:
  assumes "slots_ok (lp_protocol L) (snd w)"
    and "connection_established (slots_env base others) sv L w = (f, L', w')"
  shows "slots_ok (lp_protocol L') (snd w')"
proof -
  let ?w1 = "interfere others (fst w, (snd w)\<lparr>sl_unseen := False\<rparr>)"
  define i where "i = snd (request_collection (sl_request (snd ?w1)))"
  define v2 where "v2 = record_event NewConnection ((snd ?w1)\<lparr>sl_request := i\<rparr>)"
  let ?w2 = "interfere others (fst ?w1, v2)"
  let ?w3 = "mq_status (slots_env base others) Bootstrapping ?w2"
  obtain a m where c: "connected i (lp_protocol L) = (a, m)" by (cases "connected i (lp_protocol L)")
  have 1: "mq_states_update (slots_env base others) w = (sl_state (snd w), ?w1)"
    by (simp add: slots_env_def)
  have 2: "mq_request_modify (slots_env base others) request_collection ?w1 = (i, ?w2)"
    using request_collection_pair [of "sl_request (snd ?w1)"]
    by (simp add: slots_env_def i_def v2_def split_beta)
  obtain r w'' where "perform (slots_env base others) sv a None ?w3 = (r, w'')"
    by (cases "perform (slots_env base others) sv a None ?w3")
  then have p: "perform_option (slots_env base others) sv (Some a) None ?w3 = (r, w')"
    and m: "lp_protocol L' = m"
    using assms(2) 1 2 c by (auto simp: connection_established_def perform_option_def)
  have "slots_ok (lp_protocol L) ((snd w)\<lparr>sl_unseen := False\<rparr>)" using assms(1) by (simp add: slots_ok_def)
  then have ok1: "slots_ok (lp_protocol L) (snd ?w1)" by (rule interfere_ok)
  have "machine_ok m"
    using machine_ok_step [of "lp_protocol L" "Connected i"] ok1 c by (simp add: slots_ok_def)
  moreover have "sl_request (snd ?w1) < i" if "i \<noteq> - 1"
    using request_collection_newer [of "sl_request (snd ?w1)"] request_collection_spent that
      request_collection_pair [of "sl_request (snd ?w1)"]
    by (cases "sl_request (snd ?w1) = - 1") (auto simp: i_def)
  ultimately have ok2: "slots_ok m v2"
    using ok1 c
    by (cases "i = - 1")
      (auto simp: slots_ok_def v2_def record_event_def connected_def i_def request_collection_spent
        states_fresh_quiet)
  then have "slots_ok m (snd ?w2)" by (rule interfere_ok)
  then have "slots_ok m (snd ?w3)" using interfere_ok [of m "snd ?w2"] by (simp add: slots_env_def)
  then show ?thesis using perform_slots_ok [OF _ p] c m by (auto simp: connected_def)
qed


lemma select_slots_ok:
  assumes "slots_ok m (snd w)" "mq_select (slots_env base others) accepts w = (branch, w')"
  shows "slots_ok m (snd w')"
proof -
  have seen: "slots_ok m ((snd w)\<lparr>sl_unseen := False\<rparr>)" using assms(1) by (simp add: slots_ok_def)
  have ok: "slots_ok m (snd (interfere others (t, snd w)))"
      "slots_ok m (snd (interfere others (t, (snd w)\<lparr>sl_unseen := False\<rparr>)))" for t
    by (rule interfere_ok [OF assms(1)], rule interfere_ok [OF seen])
  show ?thesis
    using assms(2) ok by (auto simp: slots_env_def slots_select_def split: prod.splits if_splits)
qed

interpretation slots: whole_loop "slots_env base others" sv "\<lambda>m w. slots_ok m (snd w)"
  for base :: "'s MqttEnv" and others sv
proof (unfold_locales, goal_cases)
  case (1 m w st)
  then show ?case using interfere_ok [of m "snd w"] by (simp add: slots_env_def)
next
  case (2 m w b w')
  then show ?case using shared_ok by (simp add: slots_env_def)
next
  case (3 m w d x w')
  then show ?case using shared_ok by (simp add: slots_env_def)
next
  case 4
  show ?case by (rule select_slots_ok [OF 4(1,2)])
next
  case 5
  show ?case by (rule publish_slots_ok [OF select_slots_ok [OF 5(1,2)] 5(3)])
next
  case 6
  show ?case by (rule event_slots_ok [OF select_slots_ok [OF 6(1,2)] 6(4,5)])
next
  case (7 m w r m' w')
  have "slots_ok (m\<lparr>bm_became_online := False\<rparr>) (snd w)"
    using 7(1) machine_ok_flag by (simp add: slots_ok_def)
  then show ?case by (rule publish_slots_ok [OF _ 7(3)])
next
  case 8
  then show ?case using machine_ok_flag by (simp add: slots_ok_def)
next
  case 9
  show ?case by (rule connect_slots_ok [OF select_slots_ok [OF 9(1,2)] 9(3)])
next
  case (10 m w err w1)
  then show ?case using protocol_ok [OF select_slots_ok [OF 10(1,2)], of ConnectionLost] by simp
next
  case (11 m w d)
  then show ?case using interfere_ok [of m "snd w"] by (simp add: slots_env_def)
next
  case (12 m w p w')
  then show ?case using shared_ok by (simp add: slots_env_def)
next
  case (13 m w e w1 a m' r w')
  have "slots_ok m (snd w1)" using 13(1,2) shared_ok by (simp add: slots_env_def)
  from event_slots_ok [OF this 13(3,4)] show ?case .
next
  case (14 m w a m' r w')
  have "slots_ok m' (snd w)" using protocol_ok [OF 14(1), of ShutdownRequested] 14(2) by simp
  moreover have "a \<noteq> Some PublishState"
    using 14(2) by (auto simp: shutdown_def Let_def split: Phase.splits)
  ultimately show ?case using perform_slots_ok [OF _ 14(3)] by blast
qed

lemma slots_ok_initial: "slots_ok (lp_protocol (LoopState_initial seed)) slots_new"
  using machine_ok_default
  by (simp add: slots_ok_def slots_new_def LoopState_initial_def BootstrapMachine_default_def)

text \<open>
  C2. Every state the service publishes is fresh: on the slots of the service, whatever the broker and
  the network do and however the steps of the worker and the scheduler fall between the calls of the
  supervisor, each state handed to the client was collected entirely after the request that the
  current connection made, so that a subscriber never gets a state from before a reconnection.  It
  holds until the request numbers are spent.\<close>

theorem published_states_are_fresh:
  "case iterations (slots_env base others) sv n (LoopState_initial seed) (s, slots_new) of
     None \<Rightarrow> True
   | Some (f, L, s', slots) \<Rightarrow> sl_request slots = - 1 \<or> states_fresh (sl_history slots)"
proof (cases "iterations (slots_env base others) sv n (LoopState_initial seed) (s, slots_new)")
  case (Some y)
  obtain f L w where y: "y = (f, L, w)" by (cases y)
  have "slots_ok (lp_protocol L) (snd w)"
    using slots.all_iterations_kept [of "LoopState_initial seed" "(s, slots_new)"] slots_ok_initial
      Some y by simp
  then show ?thesis using Some y by (cases w) (auto simp: slots_ok_def)
qed simp


section \<open>No collected state is forgotten\<close>

text \<open>The slots of the service keep the laws of watched slots.\<close>

definition ids_issued :: "Slots \<Rightarrow> bool" where
  "ids_issued v \<longleftrightarrow>
     (case sl_taken v of None \<Rightarrow> True | Some i \<Rightarrow> i \<le> sl_request v) \<and>
     (case sl_state v of None \<Rightarrow> True | Some message \<Rightarrow> sm_request_id message \<le> sl_request v)"

lemma ids_issued_update [simp]:
  "ids_issued (v\<lparr>sl_unseen := b\<rparr>) = ids_issued v" "ids_issued (record_event e v) = ids_issued v"
  by (auto simp: ids_issued_def record_event_def split: option.splits)

text \<open>What a call with interference keeps, from the slots \<open>v\<close> to the slots \<open>v'\<close>.\<close>

definition slots_kept :: "Slots \<Rightarrow> Slots \<Rightarrow> bool" where
  "slots_kept v v' \<longleftrightarrow>
     (sl_unseen v' \<or> sl_unseen v' = sl_unseen v \<and> sl_state v' = sl_state v) \<and>
     (sl_request v = - 1 \<longrightarrow> sl_request v' = - 1) \<and> (ids_issued v \<longrightarrow> ids_issued v')"

lemma slots_kept_trans: "slots_kept v v1 \<Longrightarrow> slots_kept v1 v2 \<Longrightarrow> slots_kept v v2"
  by (auto simp: slots_kept_def)

lemma other_step_kept: "slots_kept v (other_step step v)"
proof (cases step)
  case SchedulerAsks
  then show ?thesis
    using request_collection_le [of "sl_request v"]
    by (auto simp: slots_kept_def ids_issued_def request_collection_spent split: option.splits
        intro: order_trans)
next
  case (WorkerSends payload)
  then show ?thesis
    by (auto simp: slots_kept_def ids_issued_def slot_defs StateMessage_new_def split: option.splits)
qed (auto simp: slots_kept_def ids_issued_def slot_defs split: option.splits)

lemma interfere_kept: "slots_kept v (snd (interfere others (s, v)))"
proof -
  have "slots_kept v (fold other_step steps v)" for steps
  proof (induction steps arbitrary: v)
    case (Cons step steps)
    from slots_kept_trans [OF other_step_kept [of v step] Cons.IH] show ?case by simp
  qed (simp add: slots_kept_def)
  then show ?thesis by (simp add: interfere_def)
qed

lemma shared_kept: "shared others f w = (x, w') \<Longrightarrow> slots_kept (snd w) (snd w')"
  using interfere_kept by (auto simp: shared_def split: prod.splits)

lemma slots_kept_laws:
  "slots_kept (snd w) (snd w') \<Longrightarrow>
     unseen_kept (\<lambda>w. sl_state (snd w)) (\<lambda>w. sl_unseen (snd w)) w w' \<and>
     stays_valid (\<lambda>w. sl_request (snd w)) (\<lambda>w. ids_issued (snd w)) w w'"
  by (auto simp: slots_kept_def unseen_kept_def stays_valid_def)

interpretation watched: watched_slots "slots_env base others" "\<lambda>w. sl_state (snd w)"
  "\<lambda>w. sl_unseen (snd w)" "\<lambda>w. sl_request (snd w)" "\<lambda>w. ids_issued (snd w)"
  for base :: "'s MqttEnv" and others
proof (unfold_locales, goal_cases)
  case (1 w message)
  then show ?case by (simp add: ids_issued_def)
next
  case (2 w x w')
  then show ?case
    using interfere_kept [of "(snd w)\<lparr>sl_unseen := False\<rparr>" others "fst w"]
    by (auto simp: slots_env_def slots_kept_def stays_valid_def)
next
  case (3 w r w')
  let ?v = "(snd w)\<lparr>sl_request := snd (request_collection (sl_request (snd w)))\<rparr>"
  have "slots_kept (snd w) (record_event NewConnection ?v)"
    using other_step_kept [of "snd w" SchedulerAsks]
    by (simp add: slots_kept_def) (simp add: record_event_def)
  then have "slots_kept (snd w) (snd w')"
    using 3 slots_kept_trans [OF _ interfere_kept] by (auto simp: slots_env_def split_beta)
  moreover have "r = fst (request_collection (sl_request (snd w)))"
    using 3 by (simp add: slots_env_def split_beta)
  ultimately show ?case using slots_kept_laws by blast
next
  case (4 accepts w b w')
  show ?case
  proof (cases "b = StatesChanged True")
    case True
    then show ?thesis
      using 4 interfere_kept [of "(snd w)\<lparr>sl_unseen := False\<rparr>" others]
      by (auto simp: slots_env_def slots_select_def slots_kept_def stays_valid_def
          split: prod.splits if_splits)
  next
    case False
    then have "slots_kept (snd w) (snd w')"
      using 4 interfere_kept [of "snd w" others]
      by (auto simp: slots_env_def slots_select_def split: prod.splits if_splits)
    then have "unseen_kept (\<lambda>w. sl_state (snd w)) (\<lambda>w. sl_unseen (snd w)) w w' \<and>
      stays_valid (\<lambda>w. sl_request (snd w)) (\<lambda>w. ids_issued (snd w)) w w'" by (rule slots_kept_laws)
    moreover have "accepts \<or> (\<forall>alive. b \<noteq> StatesChanged alive)"
      using 4 by (auto simp: slots_env_def slots_select_def split: prod.splits if_splits)
    ultimately show ?thesis by blast
  qed
next
  case (5 p w b w')
  then have "slots_kept (snd w) (snd w')"
    using slots_kept_trans [OF _ interfere_kept, of "snd w" "record_event (Handed p) (snd w)" others]
    by (auto simp: slots_env_def slots_kept_def split: prod.splits) (auto simp: record_event_def)
  then show ?case by (rule slots_kept_laws)
next
  case (6 w b w')
  then show ?case using slots_kept_laws [OF shared_kept] by (simp add: slots_env_def)
next
  case (7 w b w')
  then show ?case using slots_kept_laws [OF shared_kept] by (simp add: slots_env_def)
next
  case (8 w st)
  show ?case by (rule slots_kept_laws) (simp add: slots_env_def interfere_kept)
next
  case (9 d w x w')
  then show ?case using slots_kept_laws [OF shared_kept] by (simp add: slots_env_def)
qed

text \<open>
  C3. No collected state is forgotten: on the slots of the service, with the steps of the worker and the
  scheduler falling between the supervisor's calls in any way, whenever the supervisor waits for
  something to happen, a state message it would be allowed to publish is still marked as unseen, so that
  the wait ends; a message it has already looked at is one it must not publish.  It holds until the
  request numbers are spent.\<close>

theorem no_state_forgotten:
  "case iterations (slots_env base others) sv n (LoopState_initial seed) (s, slots_new) of
     Some (Continue, L, s', slots) \<Rightarrow>
       (case sl_state slots of
          None \<Rightarrow> True
        | Some message \<Rightarrow>
            sl_request slots = - 1 \<or> sl_unseen slots \<or>
            fst (state_available (sm_request_id message) (lp_protocol L)) = None)
   | _ \<Rightarrow> True"
proof -
  have "ids_issued (snd (s, slots_new))" by (simp add: ids_issued_def slots_new_def)
  from watched.publishable_is_unseen [OF this, of base others sv n seed]
  show ?thesis by (cases seed) (fastforce split: option.splits Flow.splits)
qed


section \<open>A run\<close>

text \<open>
  A broker that follows a script, and a worker that serves the request of the connection when four
  events are left: the supervisor publishes the collected state and is online.
\<close>

definition scripted_base :: "Branch list MqttEnv" where
  "scripted_base =
     \<lparr>mq_open = (\<lambda>_ _ s. s), mq_try_publish = (\<lambda>_ s. (True, s)), mq_try_disconnect = (\<lambda>s. (True, s)),
      mq_shutdown_requested = (\<lambda>s. (False, s)),
      mq_select = (\<lambda>_ s. case s of [] \<Rightarrow> (Polled (Inr OtherEvent), []) | b # bs \<Rightarrow> (b, bs)),
      mq_states_update = (\<lambda>s. (None, s)), mq_request_modify = (\<lambda>f s. (fst (f 0), s)),
      mq_status = (\<lambda>_ s. s), mq_sleep_or_shutdown = (\<lambda>_ s. (SleepElapsed, s)),
      mq_start_deadline = (\<lambda>_ s. s), mq_poll_deadline = (\<lambda>s. (None, s)),
      mq_seed = (\<lambda>s. ((None, 0), s))\<rparr>"

definition bootstrap_script :: "Branch list" where
  "bootstrap_script =
     [Polled (Inr (IncomingConnAck Success)), Polled (Inr (OutgoingPublishEvent 1)),
      Polled (Inr (IncomingPubAck 1)), Polled (Inr (OutgoingPublishEvent 2)),
      Polled (Inr (IncomingPubAck 2)), StatesChanged True, Polled (Inr (OutgoingPublishEvent 0))]"

definition worker_script :: "Branch list interference" where
  "worker_script w = (if length (fst w) = 4 then [WorkerTakes, WorkerSends [123, 125]] else [])"



lemma iterations_numeral:
  "iterations env sv (numeral k) L s =
     (case loop_iteration env sv L s of
        Some (Continue, L1, s1) \<Rightarrow> iterations env sv (pred_numeral k) L1 s1
      | r \<Rightarrow> r)"
  by (simp add: numeral_eq_Suc)

lemmas evaluate_loop =
  iterations_numeral loop_iteration_def event_polled_def states_changed_def connection_established_def
  handle_event_def publish_current_state_def perform_def perform_option_def after_branch_def
  just_became_online_def accepts_state_def is_online_def machine_defs

lemma scripted_run_publishes:
  "case iterations (slots_env scripted_base worker_script) sv 7 (LoopState_initial seed)
      (bootstrap_script, slots_new) of
     Some (Continue, L, _, slots) \<Rightarrow>
       is_online (lp_protocol L) \<and>
       list_ex (\<lambda>e. case e of
          Handed p \<Rightarrow> pub_qos p = AtMostOnce \<and> pub_payload p = [123, 125] | _ \<Rightarrow> False)
         (sl_history slots)
   | _ \<Rightarrow> False"
proof -
  have "lp_protocol (LoopState_initial seed) = BootstrapMachine_default"
    by (simp add: LoopState_initial_def)
  then show ?thesis
    by (simp add: evaluate_loop slots_env_def scripted_base_def bootstrap_script_def worker_script_def
        slots_new_def BootstrapMachine_default_def shared_def interfere_def slots_select_def slot_defs
        request_collection_def saturating_add_def checked_add_def StateMessage_new_def Let_def)
qed

end
