(* ===== verification/System_Sources.thy ===== *)
theory System_Sources
  imports Collector
begin

text \<open>
  The sources the service runs with, in \<open>src/collector.rs\<close>: \<open>RealSystemSource\<close>,
  \<open>ProcessCommandRunner\<close> and \<open>SystemClock\<close>, put together into the \<open>Env\<close> of the collector.  What they
  call of the standard library, of \<open>rustix\<close> and of the \<open>time\<close> crate are the fields of \<open>OsLib\<close>.
\<close>

text \<open>The \<open>struct statvfs\<close> of the system, as far as Linux reports sizes; errors are error numbers.\<close>

record StatVfs =
  f_bsize :: u64
  f_frsize :: u64
  f_blocks :: u64
  f_bfree :: u64
  f_bavail :: u64

record ('s, 'dt) OsLib =
  os_read_to_string :: "path \<Rightarrow> 's \<Rightarrow> (IoError + rstr) \<times> 's"
  os_read :: "path \<Rightarrow> 's \<Rightarrow> (IoError + nat list) \<times> 's"
  os_metadata_is_file :: "path \<Rightarrow> 's \<Rightarrow> (IoError + bool) \<times> 's"
  os_statvfs :: "path \<Rightarrow> 's \<Rightarrow> (int + StatVfs) \<times> 's"
  os_child :: "'s ChildLib"
  os_now_utc :: "'s \<Rightarrow> 'dt \<times> 's"
  os_instant_now :: "'s \<Rightarrow> nat \<times> 's"
  os_sleep :: "duration \<Rightarrow> 's \<Rightarrow> 's"

text \<open>\<open>io::Error::from_raw_os_error\<close>, as far as the collector looks at the kind; \<open>ENOENT\<close> is 2.\<close>

definition from_raw_os_error :: "int \<Rightarrow> IoError" where
  "from_raw_os_error code = (if code = 2 then IoNotFound else IoOther)"

definition source_is_file :: "('s, 'dt) OsLib \<Rightarrow> path \<Rightarrow> 's \<Rightarrow> bool \<times> 's" where
  "source_is_file lib p s =
     (case os_metadata_is_file lib p s of
        (Inl _, s1) \<Rightarrow> (False, s1)
      | (Inr is_file, s1) \<Rightarrow> (is_file, s1))"

definition source_statvfs ::
  "('s, 'dt) OsLib \<Rightarrow> path \<Rightarrow> 's \<Rightarrow> (IoError + StatvfsValues) \<times> 's" where
  "source_statvfs lib p s =
     (case os_statvfs lib p s of
        (Inl code, s1) \<Rightarrow> (Inl (from_raw_os_error code), s1)
      | (Inr v, s1) \<Rightarrow>
          (Inr \<lparr>vfs_fragment_size = f_frsize v, vfs_blocks = f_blocks v, vfs_blocks_free = f_bfree v,
                vfs_blocks_available = f_bavail v\<rparr>, s1))"

text \<open>
  The environment with these sources.  A command that does not come back has no result;
  \<open>real_env_run\<close> shows that the field is the command runner where its laws hold.
\<close>

definition real_env :: "('s, 'dt) OsLib \<Rightarrow> ('s, 'dt) Env" where
  "real_env lib =
     \<lparr>env_read_text = os_read_to_string lib, env_read_bytes = os_read lib,
      env_is_file = source_is_file lib, env_statvfs = source_statvfs lib,
      env_run = (\<lambda>program arguments timeout s. the (run_command (os_child lib) program arguments timeout s)),
      env_now_utc = (\<lambda>s. case os_now_utc lib s of (t, s1) \<Rightarrow> (ObservationTime t, s1)),
      env_monotonic_now = os_instant_now lib, env_sleep = os_sleep lib\<rparr>"

lemma real_env_run:
  assumes "clock_laws (os_child lib) clk" "process_laws (os_child lib) live"
  shows "run_command (os_child lib) program arguments timeout s =
    Some (env_run (real_env lib) program arguments timeout s)"
  using run_command_total [OF assms, of program arguments timeout s] by (auto simp: real_env_def)


section \<open>How long a cycle takes\<close>

text \<open>Every read, look at a clock and oversleeping takes at most \<open>\<rho>\<close> on the clock \<open>clk\<close>, a command at
  most \<open>\<epsilon>\<close> more than its timeout.\<close>

definition calls_in_time :: "('s, 'dt) Env \<Rightarrow> ('s \<Rightarrow> nat) \<Rightarrow> nat \<Rightarrow> nat \<Rightarrow> bool" where
  "calls_in_time env clk \<rho> \<epsilon> \<longleftrightarrow>
     (\<forall>p s. clk (snd (env_read_text env p s)) \<le> clk s + \<rho>) \<and>
     (\<forall>p s. clk (snd (env_statvfs env p s)) \<le> clk s + \<rho>) \<and>
     (\<forall>s. clk (snd (env_now_utc env s)) \<le> clk s + \<rho>) \<and>
     (\<forall>s. clk (snd (env_monotonic_now env s)) \<le> clk s + \<rho>) \<and>
     (\<forall>d s. clk (env_sleep env d s) \<le> clk s + d + \<rho>) \<and>
     (\<forall>p a t s. clk (snd (env_run env p a t s)) \<le> clk s + t + \<epsilon>)"

lemma read_text_time:
  "calls_in_time env clk \<rho> \<epsilon> \<Longrightarrow> env_read_text env p s = (r, s') \<Longrightarrow> clk s' \<le> clk s + \<rho>"
  unfolding calls_in_time_def by (metis snd_conv)

lemma command_time:
  "calls_in_time env clk \<rho> \<epsilon> \<Longrightarrow> env_run env p a t s = (r, s') \<Longrightarrow> clk s' \<le> clk s + t + \<epsilon>"
  unfolding calls_in_time_def by (metis snd_conv)

lemma look_time:
  "calls_in_time env clk \<rho> \<epsilon> \<Longrightarrow> env_monotonic_now env s = (n, s') \<Longrightarrow> clk s' \<le> clk s + \<rho>"
  "calls_in_time env clk \<rho> \<epsilon> \<Longrightarrow> env_now_utc env s = (t, s') \<Longrightarrow> clk s' \<le> clk s + \<rho>"
  "calls_in_time env clk \<rho> \<epsilon> \<Longrightarrow> env_statvfs env p s = (v, s') \<Longrightarrow> clk s' \<le> clk s + \<rho>"
  unfolding calls_in_time_def by (metis snd_conv)+

lemma sleep_time: "calls_in_time env clk \<rho> \<epsilon> \<Longrightarrow> clk (env_sleep env d s) \<le> clk s + d + \<rho>"
  unfolding calls_in_time_def by blast

lemma read_parsed_time:
  "calls_in_time env clk \<rho> \<epsilon> \<Longrightarrow> read_parsed env p parse s = (r, s') \<Longrightarrow> clk s' \<le> clk s + \<rho>"
  using read_text_time by (fastforce simp: read_parsed_def split: prod.splits sum.splits)

lemma cpu_usage_since_time:
  assumes "calls_in_time env clk \<rho> \<epsilon>" "cpu_usage_since env previous c errors s = (u, c', e, s')"
  shows "clk s' \<le> clk s + \<rho> \<and> co_command_timeout c' = co_command_timeout c"
proof -
  obtain r s1 where r: "read_parsed env PROC_STAT parse_proc_stat s = (r, s1)"
    by (cases "read_parsed env PROC_STAT parse_proc_stat s")
  show ?thesis
    using assms(2) r read_parsed_time [OF assms(1) r]
    by (cases r) (auto simp: cpu_usage_since_def read_cpu_sample_def Let_def split: sum.splits)
qed

lemma collect_cpu_usage_time:
  assumes "calls_in_time env clk \<rho> \<epsilon>" "collect_cpu_usage env c errors s = (u, c', e, s')"
  shows "clk s' \<le> clk s + CPU_WARMUP + 3 * \<rho> \<and> co_command_timeout c' = co_command_timeout c"
proof (cases "co_previous_cpu c")
  case None
  obtain r s1 where r: "read_parsed env PROC_STAT parse_proc_stat s = (r, s1)"
    by (cases "read_parsed env PROC_STAT parse_proc_stat s")
  have s1: "clk s1 \<le> clk s + \<rho>" by (rule read_parsed_time [OF assms(1) r])
  show ?thesis
  proof (cases r)
    case None
    then show ?thesis
      using assms(2) r s1 \<open>co_previous_cpu c = None\<close>
      by (simp add: collect_cpu_usage_def read_cpu_sample_def)
  next
    case (Some initial)
    then have "cpu_usage_since env initial (c\<lparr>co_previous_cpu := Some initial\<rparr>) errors
        (env_sleep env CPU_WARMUP s1) = (u, c', e, s')"
      using assms(2) r \<open>co_previous_cpu c = None\<close>
      by (simp add: collect_cpu_usage_def read_cpu_sample_def)
    from cpu_usage_since_time [OF assms(1) this] show ?thesis
      using s1 sleep_time [OF assms(1), of CPU_WARMUP s1] by simp
  qed
next
  case (Some previous)
  then have "cpu_usage_since env previous c errors s = (u, c', e, s')"
    using assms(2) by (simp add: collect_cpu_usage_def)
  from cpu_usage_since_time [OF assms(1) this] show ?thesis by simp
qed

lemma collect_temperature_time:
  assumes "calls_in_time env clk \<rho> \<epsilon>" "collect_temperature env c cpu errors s = (cpu', e, s')"
  shows "clk s' \<le> clk s + \<rho> + co_command_timeout c + \<epsilon>"
proof -
  obtain r s1 where r: "env_read_text env THERMAL_ZONE s = (r, s1)"
    by (cases "env_read_text env THERMAL_ZONE s")
  obtain q s2 where q: "env_run env (co_vcgencmd_path c) [lit ''measure_temp''] (co_command_timeout c) s1 = (q, s2)"
    by (cases "env_run env (co_vcgencmd_path c) [lit ''measure_temp''] (co_command_timeout c) s1")
  have "s' = s1 \<or> s' = s2"
    using assms(2) r q
    by (auto simp: collect_temperature_def Let_def split: sum.splits IoError.splits)
  then show ?thesis using read_text_time [OF assms(1) r] command_time [OF assms(1) q] by auto
qed

lemma collect_frequency_time:
  assumes "calls_in_time env clk \<rho> \<epsilon>" "collect_frequency env cpu errors s = (cpu', e, s')"
  shows "clk s' \<le> clk s + 2 * \<rho>"
proof -
  have "clk s' \<le> clk s + length ps * \<rho>" if "frequency_loop env ps cpu errors s = (cpu', e, s')" for ps
    using that
  proof (induction ps arbitrary: s)
    case (Cons p ps)
    obtain r s1 where r: "env_read_text env p s = (r, s1)" by (cases "env_read_text env p s")
    have "clk s1 \<le> clk s + \<rho>" by (rule read_text_time [OF assms(1) r])
    then show ?case using Cons.prems r Cons.IH [of s1]
      by (auto split: sum.splits IoError.splits)
  qed simp
  from this [of FREQUENCY_PATHS] show ?thesis
    using assms(2) by (simp add: collect_frequency_def FREQUENCY_PATHS_def)
qed

lemma collect_power_time:
  assumes "calls_in_time env clk \<rho> \<epsilon>" "collect_power env c pw errors s = (pw', e, s')"
  shows "clk s' \<le> clk s + co_command_timeout c + \<epsilon>"
  using assms(2) command_time [OF assms(1)]
  by (fastforce simp: collect_power_def split: prod.splits sum.splits)

lemma collect_reads_time:
  assumes "calls_in_time env clk \<rho> \<epsilon>"
  shows "collect_load_average env cpu errors s = (cpu', e, s') \<Longrightarrow> clk s' \<le> clk s + \<rho>"
    "collect_memory env readings errors s = (readings', e, s') \<Longrightarrow> clk s' \<le> clk s + \<rho>"
    "collect_uptime env readings errors s = (readings', e, s') \<Longrightarrow> clk s' \<le> clk s + \<rho>"
    "collect_disk env c disk errors s = (disk', e, s') \<Longrightarrow> clk s' \<le> clk s + \<rho>"
  using read_parsed_time [OF assms] look_time(3) [OF assms]
  by (fastforce simp: collect_load_average_def collect_memory_def collect_uptime_def collect_disk_def
      split: prod.splits option.splits sum.splits)+

lemma collect_time:
  assumes "calls_in_time env clk \<rho> \<epsilon>" "collect env c s = (state, c', s')"
  shows "clk s' \<le> clk s + CPU_WARMUP + 2 * co_command_timeout c + 13 * \<rho> + 2 * \<epsilon>"
proof -
  note laws = assms(1)
  from assms(2) obtain started s1 observed_at s2 usage c1 e1 s3 cpu1 cpu2 e2 s4 cpu3 e3 s5 cpu4 e4 s6
      rd1 rd2 e5 s7 rd3 e6 s8 disk0 disk e7 s9 pw0 pw e8 s10 finished where
    1: "env_monotonic_now env s = (started, s1)" "env_now_utc env s1 = (observed_at, s2)"
      "collect_cpu_usage env c [] s2 = (usage, c1, e1, s3)"
      "collect_load_average env cpu1 e1 s3 = (cpu2, e2, s4)"
      "collect_temperature env c1 cpu2 e2 s4 = (cpu3, e3, s5)"
      "collect_frequency env cpu3 e3 s5 = (cpu4, e4, s6)"
      "collect_memory env rd1 e4 s6 = (rd2, e5, s7)"
      "collect_uptime env rd2 e5 s7 = (rd3, e6, s8)"
      "collect_disk env c1 disk0 e6 s8 = (disk, e7, s9)"
      "collect_power env c1 pw0 e7 s9 = (pw, e8, s10)"
      "env_monotonic_now env s10 = (finished, s')"
    by (auto simp: collect_def Let_def split: prod.splits)
  note steps = look_time(1) [OF laws 1(1)] look_time(2) [OF laws 1(2)] collect_cpu_usage_time [OF laws 1(3)]
    collect_reads_time(1) [OF laws 1(4)] collect_temperature_time [OF laws 1(5)]
    collect_frequency_time [OF laws 1(6)] collect_reads_time(2) [OF laws 1(7)]
    collect_reads_time(3) [OF laws 1(8)] collect_reads_time(4) [OF laws 1(9)]
    collect_power_time [OF laws 1(10)] look_time(1) [OF laws 1(11)]
  from steps show ?thesis by linarith
qed

text \<open>The sources are prompt: \<open>\<rho>\<close> bounds a read, a look at a clock and the oversleeping.\<close>

definition source_laws :: "('s, 'dt) OsLib \<Rightarrow> ('s \<Rightarrow> nat) \<Rightarrow> nat \<Rightarrow> bool" where
  "source_laws lib clk \<rho> \<longleftrightarrow>
     (\<forall>p s. clk (snd (os_read_to_string lib p s)) \<le> clk s + \<rho>) \<and>
     (\<forall>p s. clk (snd (os_statvfs lib p s)) \<le> clk s + \<rho>) \<and>
     (\<forall>s. clk (snd (os_now_utc lib s)) \<le> clk s + \<rho>) \<and>
     (\<forall>s. clk (snd (os_instant_now lib s)) \<le> clk s + \<rho>) \<and>
     (\<forall>d s. clk (os_sleep lib d s) \<le> clk s + d + \<rho>)"

lemma real_env_in_time:
  assumes "clock_laws (os_child lib) clk" "process_laws (os_child lib) live"
    and "prompt_laws (os_child lib) live clk \<delta> \<Delta>" "source_laws lib clk \<rho>"
  shows "calls_in_time (real_env lib) clk \<rho> (6 * \<delta> + 4 * \<Delta>)"
proof -
  have run: "clk (snd (env_run (real_env lib) p a t s)) \<le> clk s + t + (6 * \<delta> + 4 * \<Delta>)" for p a t s
    using run_command_in_time [OF assms(1,3,2), of p a t s "fst (env_run (real_env lib) p a t s)"
        "snd (env_run (real_env lib) p a t s)"] real_env_run [OF assms(1,2), of p a t s]
    by simp
  have sources: "clk (snd (env_read_text (real_env lib) p s)) \<le> clk s + \<rho>"
      "clk (snd (env_monotonic_now (real_env lib) s)) \<le> clk s + \<rho>"
      "clk (env_sleep (real_env lib) d s) \<le> clk s + d + \<rho>" for p d s
    using assms(4) by (simp_all add: real_env_def source_laws_def)
  have statvfs: "clk (snd (env_statvfs (real_env lib) p s)) \<le> clk s + \<rho>" for p s
    using assms(4)
    by (cases "os_statvfs lib p s"; cases "fst (os_statvfs lib p s)")
      (auto simp: real_env_def source_statvfs_def source_laws_def dest!: spec [of _ p] spec [of _ s])
  have utc: "clk (snd (env_now_utc (real_env lib) s)) \<le> clk s + \<rho>" for s
    using assms(4)
    by (cases "os_now_utc lib s") (auto simp: real_env_def source_laws_def dest!: spec [of _ s])
  show ?thesis unfolding calls_in_time_def using run sources statvfs utc by blast
qed

text \<open>
  C8. A collection cycle is over in bounded time, whatever the files hold and even when the firmware
  command hangs: with the sources the service runs with, it takes at most the warm-up of the first CPU
  sample and two command timeouts, besides thirteen reads or looks at a clock, the polling of the two
  children and their starts and removals.\<close>

theorem collection_cycle_in_time:
  assumes "clock_laws (os_child lib) clk" "process_laws (os_child lib) live"
    and "prompt_laws (os_child lib) live clk \<delta> \<Delta>" "source_laws lib clk \<rho>"
  shows "case collect (real_env lib) c s of (state, c', s') \<Rightarrow>
    clk s' \<le> clk s + CPU_WARMUP + 2 * co_command_timeout c + 13 * \<rho> + 12 * \<delta> + 8 * \<Delta>"
proof -
  obtain state c' s' where r: "collect (real_env lib) c s = (state, c', s')"
    by (cases "collect (real_env lib) c s")
  from collect_time [OF real_env_in_time [OF assms] r] r show ?thesis by simp
qed

text \<open>
  A system without files, whose commands hang until they are killed and whose calls take no time, for
  the witness.
\<close>

definition hanging_system :: "(nat \<times> bool, unit) OsLib" where
  "hanging_system =
     \<lparr>os_read_to_string = (\<lambda>_ s. (Inl IoNotFound, s)), os_read = (\<lambda>_ s. (Inl IoNotFound, s)),
      os_metadata_is_file = (\<lambda>_ s. (Inr True, s)), os_statvfs = (\<lambda>_ s. (Inl 2, s)),
      os_child = hanging_child, os_now_utc = (\<lambda>s. ((), s)), os_instant_now = (\<lambda>s. (fst s, s)),
      os_sleep = (\<lambda>d (t, a). (t + d, a))\<rparr>"

theorem collection_cycle_in_time_witness:
  "\<forall>c. case collect (real_env hanging_system) c (0, False) of (state, c', s') \<Rightarrow>
     fst s' \<le> CPU_WARMUP + 2 * co_command_timeout c"
proof
  fix c
  have child: "os_child hanging_system = hanging_child" by (simp add: hanging_system_def)
  have sources: "source_laws hanging_system fst 0"
    by (auto simp: source_laws_def hanging_system_def)
  note laws = hanging_child_laws [folded child]
  from collection_cycle_in_time [OF laws(1,2,3) sources, where c = c and s = "(0, False)"]
  show "case collect (real_env hanging_system) c (0, False) of (state, c', s') \<Rightarrow>
     fst s' \<le> CPU_WARMUP + 2 * co_command_timeout c"
    by (simp split: prod.splits)
qed

end
