(* ===== verification/Replay.thy ===== *)
theory Replay
  imports F64
begin

text \<open>
  Vocabulary for the unit tests of the source (its \<open>cfg(test)\<close> modules) on the model.  A test is a
  boolean definition with the name of the test function, the conjunction of its assertions; that it
  holds of the model is a lemma.  The tests are concrete: they show that the model computes what the
  program's authors expect of the program, and guard the definitions against slips.
\<close>

text \<open>\<open>expect\<close> and \<open>expect_err\<close> followed by assertions, \<open>assert!(r.is_err())\<close>.\<close>

definition ok_and :: "'e + 'a \<Rightarrow> ('a \<Rightarrow> bool) \<Rightarrow> bool" where
  "ok_and r P = (case r of Inl _ \<Rightarrow> False | Inr v \<Rightarrow> P v)"

definition err_and :: "'e + 'a \<Rightarrow> ('e \<Rightarrow> bool) \<Rightarrow> bool" where
  "err_and r P = (case r of Inl e \<Rightarrow> P e | Inr _ \<Rightarrow> False)"

definition is_err :: "'e + 'a \<Rightarrow> bool" where
  "is_err r = (case r of Inl _ \<Rightarrow> True | Inr _ \<Rightarrow> False)"

definition is_ok :: "'e + 'a \<Rightarrow> bool" where
  "is_ok r = (case r of Inl _ \<Rightarrow> False | Inr _ \<Rightarrow> True)"

lemma replay_results [simp]:
  "ok_and (Inr v) P = P v" "\<not> ok_and (Inl e) P"
  "err_and (Inl e) Q = Q e" "\<not> err_and (Inr v) Q"
  "is_err (Inl e)" "\<not> is_err (Inr v)" "is_ok (Inr v)" "\<not> is_ok (Inl e)"
  by (simp_all add: ok_and_def err_and_def is_err_def is_ok_def)

text \<open>A line of text.\<close>

definition line_of :: "string \<Rightarrow> rstr" where
  "line_of s = lit s @ [10]"

lemmas replay_text = line_of_def str_eval f64_eval result_simps

end
