(* ===== verification/Replay_Metrics.thy ===== *)
theory Replay_Metrics
  imports Replay Metrics_Power Metrics_Temperature Metrics_Uptime Metrics_Cpu Metrics_Disk
    Metrics_Memory Metrics_Metadata
begin

text \<open>The unit tests of \<open>src/metrics/*.rs\<close> on the model.\<close>

section \<open>Errors\<close>

definition parse_error_exposes_safe_context :: bool where
  "parse_error_exposes_safe_context \<longleftrightarrow>
     (let error = ParseError_new (lit ''test metric'') (lit ''missing value'') in
      pe_source_name error = lit ''test metric'' \<and> pe_detail error = lit ''missing value'' \<and>
      ParseError_display error = lit ''could not parse test metric: missing value'')"

lemma parse_error_exposes_safe_context: "parse_error_exposes_safe_context"
  by (simp add: parse_error_exposes_safe_context_def ParseError_display_def flip: lit_append)


section \<open>Throttling mask\<close>

definition decodes_required_firmware_samples :: bool where
  "decodes_required_firmware_samples \<longleftrightarrow>
     list_all (\<lambda>(input, raw). ok_and (parse_throttled input) (\<lambda>st. ts_raw st = raw))
       [(lit ''throttled=0x0'', 0), (lit ''throttled=0x1'', 0x1), (lit ''throttled=0x10000'', 0x10000),
        (lit ''throttled=0x50005'', 0x50005), (lit ''throttled=0xA000A'', 0xA000A)]"

lemma decodes_required_firmware_samples: "decodes_required_firmware_samples"
  by (simp add: decodes_required_firmware_samples_def parse_throttled_def decode_throttled_def
      str_eval result_simps)

definition accepts_spaces_and_a_trailing_line_break :: bool where
  "accepts_spaces_and_a_trailing_line_break \<longleftrightarrow>
     ok_and (parse_throttled (line_of ''  throttled = 0X50005  '')) (\<lambda>st.
       raw_hex st = lit ''0x50005'' \<and> ts_undervoltage_now st \<and> ts_throttled_now st \<and>
       ts_undervoltage_since_boot st \<and> ts_throttled_since_boot st \<and>
       \<not> ts_arm_frequency_capped_now st \<and> \<not> ts_soft_temperature_limit_now st \<and>
       \<not> ts_arm_frequency_capped_since_boot st \<and> \<not> ts_soft_temperature_limit_since_boot st)"

lemma accepts_spaces_and_a_trailing_line_break: "accepts_spaces_and_a_trailing_line_break"
  by (simp add: accepts_spaces_and_a_trailing_line_break_def parse_throttled_def decode_throttled_def
      raw_hex_def has_bit_iff line_of_def str_eval result_simps)

definition distinguishes_current_and_historical_flags :: bool where
  "distinguishes_current_and_historical_flags \<longleftrightarrow>
     ok_and (parse_throttled (lit ''throttled=0x1'')) (\<lambda>current.
       ts_undervoltage_now current \<and> \<not> ts_undervoltage_since_boot current) \<and>
     ok_and (parse_throttled (lit ''throttled=0x10000'')) (\<lambda>historical.
       \<not> ts_undervoltage_now historical \<and> ts_undervoltage_since_boot historical)"

lemma distinguishes_current_and_historical_flags: "distinguishes_current_and_historical_flags"
  by (simp add: distinguishes_current_and_historical_flags_def parse_throttled_def
      decode_throttled_def has_bit_iff str_eval result_simps)

definition zero_mask_sets_every_flag_to_false :: bool where
  "zero_mask_sets_every_flag_to_false \<longleftrightarrow>
     parse_throttled (lit ''throttled=0x0'') =
       Inr \<lparr>ts_raw = 0, ts_undervoltage_now = False, ts_arm_frequency_capped_now = False,
            ts_throttled_now = False, ts_soft_temperature_limit_now = False,
            ts_undervoltage_since_boot = False, ts_arm_frequency_capped_since_boot = False,
            ts_throttled_since_boot = False, ts_soft_temperature_limit_since_boot = False\<rparr>"

lemma zero_mask_sets_every_flag_to_false: "zero_mask_sets_every_flag_to_false"
  by (simp add: zero_mask_sets_every_flag_to_false_def parse_throttled_def decode_throttled_def
      has_bit_def str_eval result_simps)

definition rejects_malformed_or_out_of_range_masks :: bool where
  "rejects_malformed_or_out_of_range_masks \<longleftrightarrow>
     list_all (\<lambda>input. is_err (parse_throttled input))
       [lit '''', lit ''value=0x1'', lit ''throttled=1'', lit ''throttled=0x'', lit ''throttled=0xGG'',
        lit ''throttled=0x100000000'', lit ''throttled=0x1 extra'']"

lemma rejects_malformed_or_out_of_range_masks: "rejects_malformed_or_out_of_range_masks"
  by (simp add: rejects_malformed_or_out_of_range_masks_def parse_throttled_def str_eval result_simps)


section \<open>Temperature\<close>

definition converts_millidegrees_to_degrees_celsius :: bool where
  "converts_millidegrees_to_degrees_celsius \<longleftrightarrow>
     parse_millidegrees_celsius (line_of ''49875'') = Inr (f64_lit (49875 / 1000)) \<and>
     parse_millidegrees_celsius (lit ''-1250'') = Inr (f64_lit (- 125 / 100))"

lemma converts_millidegrees_to_degrees_celsius: "converts_millidegrees_to_degrees_celsius"
  by (simp add: converts_millidegrees_to_degrees_celsius_def parse_millidegrees_celsius_def replay_text)

definition rejects_malformed_millidegree_values :: bool where
  "rejects_malformed_millidegree_values \<longleftrightarrow>
     is_err (parse_millidegrees_celsius (lit '''')) \<and>
     is_err (parse_millidegrees_celsius (lit ''49.5'')) \<and>
     is_err (parse_millidegrees_celsius (lit ''49000 mC''))"

lemma rejects_malformed_millidegree_values: "rejects_malformed_millidegree_values"
  by (simp add: rejects_malformed_millidegree_values_def parse_millidegrees_celsius_def str_eval
      result_simps)

definition parses_firmware_temperature_output :: bool where
  "parses_firmware_temperature_output \<longleftrightarrow>
     parse_vcgencmd_temperature (lit ''temp=49.8'' @ quote_C @ [10]) = Inr (f64_lit (498 / 10)) \<and>
     parse_vcgencmd_temperature (lit '' temp = -1.25'' @ degree_C @ [32, 10]) =
       Inr (f64_lit (- 125 / 100))"

lemma parses_firmware_temperature_output: "parses_firmware_temperature_output"
  by (simp add: parses_firmware_temperature_output_def parse_vcgencmd_temperature_def quote_C_def
      degree_C_def replay_text)

definition rejects_malformed_firmware_temperature_output :: bool where
  "rejects_malformed_firmware_temperature_output \<longleftrightarrow>
     list_all (\<lambda>input. is_err (parse_vcgencmd_temperature input))
       [lit '''', lit ''temperature=49.8'' @ quote_C, lit ''temp=49.8'', lit ''temp=NaN'' @ quote_C,
        lit ''temp=inf'' @ quote_C]"

lemma rejects_malformed_firmware_temperature_output: "rejects_malformed_firmware_temperature_output"
  by (simp add: rejects_malformed_firmware_temperature_output_def parse_vcgencmd_temperature_def
      quote_C_def degree_C_def replay_text)


section \<open>Uptime\<close>

definition parses_and_truncates_uptime_seconds :: bool where
  "parses_and_truncates_uptime_seconds \<longleftrightarrow>
     parse_uptime_seconds (line_of ''123456.78 987654.32'') = Inr 123456 \<and>
     parse_uptime_seconds (lit ''0.00 0.00'') = Inr 0"

lemma parses_and_truncates_uptime_seconds: "parses_and_truncates_uptime_seconds"
  unfolding parses_and_truncates_uptime_seconds_def
  by (intro conjI; simp add: parse_uptime_seconds_def line_of_def str_eval result_simps)
    (simp_all add: f64_eval unat_max_word result_simps)

definition rejects_invalid_uptime :: bool where
  "rejects_invalid_uptime \<longleftrightarrow>
     list_all (\<lambda>input. is_err (parse_uptime_seconds input))
       [lit '''', lit ''not-a-number 0'', lit ''-1.0 0'', lit ''NaN 0'', lit ''inf 0'']"

lemma rejects_invalid_uptime: "rejects_invalid_uptime"
  unfolding rejects_invalid_uptime_def list.pred_inject
  by (intro conjI TrueI; simp add: parse_uptime_seconds_def str_eval result_simps)
    (simp_all add: f64_eval result_simps)

definition rejects_uptime_that_cannot_fit_in_u64 :: bool where
  "rejects_uptime_that_cannot_fit_in_u64 \<longleftrightarrow>
     is_err (parse_uptime_seconds (lit ''18446744073709551616 0''))"

lemma rejects_uptime_that_cannot_fit_in_u64: "rejects_uptime_that_cannot_fit_in_u64"
  by (simp add: rejects_uptime_that_cannot_fit_in_u64_def parse_uptime_seconds_def str_eval
      result_simps) (simp add: f64_eval unat_max_word result_simps)


section \<open>Disk\<close>

definition calculates_sizes_and_df_compatible_percentage :: bool where
  "calculates_sizes_and_df_compatible_percentage \<longleftrightarrow>
     ok_and (calculate_disk_metrics (lit ''/'')
         \<lparr>vfs_fragment_size = 4096, vfs_blocks = 1000, vfs_blocks_free = 400, vfs_blocks_available = 300\<rparr>)
       (\<lambda>metrics.
          disk_mount metrics = lit ''/'' \<and> disk_total_bytes metrics = Some 4096000 \<and>
          disk_available_bytes metrics = Some 1228800 \<and> disk_used_bytes metrics = Some 2457600 \<and>
          disk_used_percent metrics =
            Some (f64_div (f64_mul (f64_lit 100) (f64_lit 600)) (f64_lit 900)))"

lemma calculates_sizes_and_df_compatible_percentage: "calculates_sizes_and_df_compatible_percentage"
  by (simp add: calculates_sizes_and_df_compatible_percentage_def calculate_disk_metrics_def
      disk_bytes_def checked_mul_def checked_add_def checked_sub_def f64_percent_def replay_text)

definition handles_an_empty_filesystem_without_dividing_by_zero :: bool where
  "handles_an_empty_filesystem_without_dividing_by_zero \<longleftrightarrow>
     ok_and (calculate_disk_metrics (lit ''/empty'')
         \<lparr>vfs_fragment_size = 4096, vfs_blocks = 0, vfs_blocks_free = 0, vfs_blocks_available = 0\<rparr>)
       (\<lambda>metrics. disk_used_percent metrics = Some (f64_lit 0))"

lemma handles_an_empty_filesystem_without_dividing_by_zero:
  "handles_an_empty_filesystem_without_dividing_by_zero"
  by (simp add: handles_an_empty_filesystem_without_dividing_by_zero_def calculate_disk_metrics_def
      disk_bytes_def checked_mul_def checked_add_def checked_sub_def result_simps)

definition rejects_inconsistent_and_overflowing_counters :: bool where
  "rejects_inconsistent_and_overflowing_counters \<longleftrightarrow>
     is_err (calculate_disk_metrics (lit ''/'')
       \<lparr>vfs_fragment_size = 1, vfs_blocks = 10, vfs_blocks_free = 11, vfs_blocks_available = 0\<rparr>) \<and>
     is_err (calculate_disk_metrics (lit ''/'')
       \<lparr>vfs_fragment_size = 2, vfs_blocks = - 1, vfs_blocks_free = 0, vfs_blocks_available = 0\<rparr>) \<and>
     is_err (calculate_disk_metrics (lit ''/'')
       \<lparr>vfs_fragment_size = 1, vfs_blocks = - 1, vfs_blocks_free = 0, vfs_blocks_available = 1\<rparr>)"

lemma rejects_inconsistent_and_overflowing_counters: "rejects_inconsistent_and_overflowing_counters"
  by (simp add: rejects_inconsistent_and_overflowing_counters_def calculate_disk_metrics_def
      disk_bytes_def checked_mul_def checked_add_def checked_sub_def unat_max_word result_simps)


section \<open>CPU\<close>

definition FIRST_SAMPLE :: rstr where
  "FIRST_SAMPLE =
     line_of ''cpu 100 0 50 800 50 0 0 0 0 0'' @ line_of ''cpu0 50 0 25 400 25 0 0 0 0 0'' @
     line_of ''intr 1000''"

definition SECOND_SAMPLE :: rstr where
  "SECOND_SAMPLE =
     line_of ''cpu 130 0 70 845 55 0 0 0 0 0'' @ line_of ''cpu0 65 0 35 422 28 0 0 0 0 0'' @
     line_of ''intr 1100''"

lemmas replay_stat =
  parse_proc_stat_def is_cpu_line_def cpu_counter_names_def line_of_def str_eval result_simps

lemmas replay_cpu =
  cpu_counter_names_def cpu_times_of_def total_jiffies_def idle_jiffies_def checked_sum_def
  cpu_counters_def checked_add_def checked_sub_def usage_percent_def result_simps

lemma first_sample: "parse_proc_stat FIRST_SAMPLE = Inr (cpu_times_of [100, 0, 50, 800, 50, 0, 0, 0])"
  by (simp add: FIRST_SAMPLE_def replay_stat)

lemma second_sample: "parse_proc_stat SECOND_SAMPLE = Inr (cpu_times_of [130, 0, 70, 845, 55, 0, 0, 0])"
  by (simp add: SECOND_SAMPLE_def replay_stat)

definition parses_aggregate_cpu_counters_from_fixture :: bool where
  "parses_aggregate_cpu_counters_from_fixture \<longleftrightarrow>
     ok_and (parse_proc_stat FIRST_SAMPLE) (\<lambda>sample.
       total_jiffies sample = Inr 1000 \<and> idle_jiffies sample = Inr 850)"

lemma parses_aggregate_cpu_counters_from_fixture: "parses_aggregate_cpu_counters_from_fixture"
  by (simp add: parses_aggregate_cpu_counters_from_fixture_def first_sample replay_cpu)

definition calculates_cpu_delta_without_counting_idle_time_as_busy :: bool where
  "calculates_cpu_delta_without_counting_idle_time_as_busy \<longleftrightarrow>
     ok_and (parse_proc_stat FIRST_SAMPLE) (\<lambda>first. ok_and (parse_proc_stat SECOND_SAMPLE) (\<lambda>second.
       usage_percent first second = Inr (Some (f64_lit 50))))"

lemma calculates_cpu_delta_without_counting_idle_time_as_busy:
  "calculates_cpu_delta_without_counting_idle_time_as_busy"
  by (simp add: calculates_cpu_delta_without_counting_idle_time_as_busy_def first_sample second_sample
      replay_cpu) (simp add: f64_percent_def f64_eval)

definition returns_none_when_cpu_counters_do_not_advance :: bool where
  "returns_none_when_cpu_counters_do_not_advance \<longleftrightarrow>
     ok_and (parse_proc_stat FIRST_SAMPLE) (\<lambda>sample. usage_percent sample sample = Inr None)"

lemma returns_none_when_cpu_counters_do_not_advance: "returns_none_when_cpu_counters_do_not_advance"
  by (simp add: returns_none_when_cpu_counters_do_not_advance_def first_sample replay_cpu)

definition rejects_a_counter_rollback :: bool where
  "rejects_a_counter_rollback \<longleftrightarrow>
     ok_and (parse_proc_stat (lit ''cpu 100 10 20 800 50 2 3 4'')) (\<lambda>previous.
     ok_and (parse_proc_stat (lit ''cpu 99 10 20 900 50 2 3 4'')) (\<lambda>current.
       err_and (usage_percent previous current) (\<lambda>error.
         str_contains (pe_detail error) (lit ''user counter moved backwards''))))"

lemma rejects_a_counter_rollback: "rejects_a_counter_rollback"
  by (simp add: rejects_a_counter_rollback_def replay_stat replay_cpu)

definition rejects_an_overflowing_cpu_delta :: bool where
  "rejects_an_overflowing_cpu_delta \<longleftrightarrow>
     ok_and (parse_proc_stat (lit ''cpu 0 0 0 0 0 0 0 0'')) (\<lambda>previous.
     ok_and (parse_proc_stat
        (lit ''cpu'' @ concat (replicate 8 (lit '' 18446744073709551615'')))) (\<lambda>current.
       err_and (usage_percent previous current) (\<lambda>error.
         str_contains (pe_detail error) (lit ''overflowed u64''))))"

lemma rejects_an_overflowing_cpu_delta: "rejects_an_overflowing_cpu_delta"
proof -
  have eight: "replicate 8 x = [x, x, x, x, x, x, x, x]" for x :: 'a
    by (simp add: numeral_eq_Suc)
  have "parse_proc_stat (lit ''cpu'' @ concat (replicate 8 (lit '' 18446744073709551615''))) =
      Inr (cpu_times_of (replicate 8 18446744073709551615))"
    unfolding eight by (simp add: replay_stat)
  then show ?thesis
    unfolding rejects_an_overflowing_cpu_delta_def eight
    by (simp add: replay_stat replay_cpu unat_max_word)
qed

definition rejects_missing_truncated_and_invalid_cpu_lines :: bool where
  "rejects_missing_truncated_and_invalid_cpu_lines \<longleftrightarrow>
     is_err (parse_proc_stat (line_of ''intr 10'')) \<and>
     is_err (parse_proc_stat (lit ''cpu 1 2 3 4 5 6 7'')) \<and>
     is_err (parse_proc_stat (lit ''cpu 1 2 3 invalid 5 6 7 8''))"

lemma rejects_missing_truncated_and_invalid_cpu_lines: "rejects_missing_truncated_and_invalid_cpu_lines"
  by (simp add: rejects_missing_truncated_and_invalid_cpu_lines_def replay_stat)

definition ignores_per_core_lines_and_extra_aggregate_fields :: bool where
  "ignores_per_core_lines_and_extra_aggregate_fields \<longleftrightarrow>
     ok_and (parse_proc_stat (line_of ''cpu0 9 9 9 9 9 9 9 9'' @ line_of ''cpu 1 2 3 4 5 6 7 8 9 10''))
       (\<lambda>sample. total_jiffies sample = Inr 36)"

lemma ignores_per_core_lines_and_extra_aggregate_fields:
  "ignores_per_core_lines_and_extra_aggregate_fields"
  by (simp add: ignores_per_core_lines_and_extra_aggregate_fields_def replay_stat replay_cpu)

definition reports_overflow_when_cpu_totals_cannot_be_represented :: bool where
  "reports_overflow_when_cpu_totals_cannot_be_represented \<longleftrightarrow>
     is_err (total_jiffies
       \<lparr>ct_user = - 1, ct_nice = 1, ct_system = 0, ct_idle = 0, ct_io_wait = 0, ct_irq = 0,
        ct_soft_irq = 0, ct_steal = 0\<rparr>)"

lemma reports_overflow_when_cpu_totals_cannot_be_represented:
  "reports_overflow_when_cpu_totals_cannot_be_represented"
  by (simp add: reports_overflow_when_cpu_totals_cannot_be_represented_def replay_cpu
      unat_max_word)

definition parses_load_average :: bool where
  "parses_load_average \<longleftrightarrow>
     parse_loadavg (line_of ''0.25 1.50 2.75 2/100 42'') =
       Inr \<lparr>la_one_minute = f64_lit (25 / 100), la_five_minutes = f64_lit (15 / 10),
            la_fifteen_minutes = f64_lit (275 / 100)\<rparr>"

lemma parses_load_average: "parses_load_average"
  by (simp add: parses_load_average_def parse_loadavg_def parse_non_negative_float_def replay_text)

definition rejects_invalid_load_average :: bool where
  "rejects_invalid_load_average \<longleftrightarrow>
     list_all (\<lambda>input. is_err (parse_loadavg input))
       [lit '''', lit ''0.1 0.2'', lit ''NaN 0.2 0.3'', lit ''-0.1 0.2 0.3'']"

lemma rejects_invalid_load_average: "rejects_invalid_load_average"
  unfolding rejects_invalid_load_average_def list.pred_inject
  by (intro conjI TrueI; simp add: parse_loadavg_def parse_non_negative_float_def replay_text)

definition converts_cpu_frequency_to_megahertz :: bool where
  "converts_cpu_frequency_to_megahertz \<longleftrightarrow>
     parse_frequency_khz (line_of ''900000'') = Inr (f64_lit 900) \<and>
     parse_frequency_khz (lit ''1500500'') = Inr (f64_lit (15005 / 10))"

lemma converts_cpu_frequency_to_megahertz: "converts_cpu_frequency_to_megahertz"
  by (simp add: converts_cpu_frequency_to_megahertz_def parse_frequency_khz_def replay_text)

definition rejects_invalid_cpu_frequency :: bool where
  "rejects_invalid_cpu_frequency \<longleftrightarrow>
     is_err (parse_frequency_khz (lit '''')) \<and> is_err (parse_frequency_khz (lit ''-1'')) \<and>
     is_err (parse_frequency_khz (lit ''900000 kHz''))"

lemma rejects_invalid_cpu_frequency: "rejects_invalid_cpu_frequency"
  unfolding rejects_invalid_cpu_frequency_def
  by (intro conjI; simp add: parse_frequency_khz_def replay_text)


section \<open>Memory\<close>

definition MEMINFO :: rstr where
  "MEMINFO =
     line_of ''MemTotal:        1000 kB'' @ line_of ''MemFree:          100 kB'' @
     line_of ''MemAvailable:     400 kB'' @ line_of ''Buffers:           50 kB'' @
     line_of ''Cached:           300 kB'' @ line_of ''SwapCached:         0 kB'' @
     line_of ''Active:            250 kB'' @ line_of ''Inactive:          100 kB'' @
     line_of ''SReclaimable:       80 kB'' @ line_of ''Shmem:              30 kB'' @
     line_of ''SwapTotal:         500 kB'' @ line_of ''SwapFree:          200 kB''"

text \<open>The values a report yields, and what becomes of them.\<close>

lemmas replay_meminfo =
  parse_relevant_values_def meminfo_line_def canonical_key_def meminfo_keys_def parse_kib_value_def
  line_of_def str_eval result_simps

lemmas replay_memory =
  parse_meminfo_def meminfo_metrics_def mem_required_def fallback_available_kib_def checked_kib_sum_def
  kib_to_bytes_def mem_percentage_def BYTES_PER_KIBIBYTE_def checked_mul_def checked_add_def
  checked_sub_def saturating_sub_def result_simps Let_def

lemma meminfo_via_values:
  "parse_relevant_values i = Inr m \<Longrightarrow> ok_and (meminfo_metrics m) P \<Longrightarrow> ok_and (parse_meminfo i) P"
  "parse_relevant_values i = Inr m \<Longrightarrow> is_err (meminfo_metrics m) \<Longrightarrow> is_err (parse_meminfo i)"
  by (simp_all add: parse_meminfo_def result_simps)

lemma meminfo_values:
  "parse_relevant_values MEMINFO =
     Inr [lit ''MemTotal'' \<mapsto> 1000, lit ''MemFree'' \<mapsto> 100, lit ''MemAvailable'' \<mapsto> 400,
          lit ''Buffers'' \<mapsto> 50, lit ''Cached'' \<mapsto> 300, lit ''SReclaimable'' \<mapsto> 80, lit ''Shmem'' \<mapsto> 30,
          lit ''SwapTotal'' \<mapsto> 500, lit ''SwapFree'' \<mapsto> 200]"
  by (simp add: MEMINFO_def replay_meminfo)

definition uses_mem_available_when_the_kernel_reports_it :: bool where
  "uses_mem_available_when_the_kernel_reports_it \<longleftrightarrow>
     ok_and (parse_meminfo MEMINFO) (\<lambda>metrics.
       mi_total_bytes metrics = 1024000 \<and> mi_available_bytes metrics = 409600 \<and>
       mi_used_bytes metrics = 614400 \<and> mi_used_percent metrics = f64_lit 60 \<and>
       mi_swap_total_bytes metrics = 512000 \<and> mi_swap_free_bytes metrics = 204800 \<and>
       mi_swap_used_bytes metrics = 307200 \<and> mi_swap_used_percent metrics = f64_lit 60)"

lemma uses_mem_available_when_the_kernel_reports_it: "uses_mem_available_when_the_kernel_reports_it"
  by (simp add: uses_mem_available_when_the_kernel_reports_it_def meminfo_values replay_memory)
    (simp add: f64_percent_def f64_eval)

definition calculates_available_memory_with_the_legacy_fallback :: bool where
  "calculates_available_memory_with_the_legacy_fallback \<longleftrightarrow>
     ok_and (parse_meminfo
        (line_of ''MemTotal:       1000 kB'' @ line_of ''MemFree:         100 kB'' @
         line_of ''Buffers:          50 kB'' @ line_of ''Cached:          300 kB'' @
         line_of ''SReclaimable:     80 kB'' @ line_of ''Shmem:            30 kB'' @
         line_of ''SwapTotal:         0 kB'' @ line_of ''SwapFree:          0 kB'')) (\<lambda>metrics.
       mi_available_bytes metrics = 500 * 1024 \<and> mi_used_bytes metrics = 500 * 1024 \<and>
       mi_used_percent metrics = f64_lit 50)"

lemma calculates_available_memory_with_the_legacy_fallback:
  "calculates_available_memory_with_the_legacy_fallback"
  unfolding calculates_available_memory_with_the_legacy_fallback_def
  by (rule meminfo_via_values(1) [where m =
        "[lit ''MemTotal'' \<mapsto> 1000, lit ''MemFree'' \<mapsto> 100,
         lit ''Buffers'' \<mapsto> 50, lit ''Cached'' \<mapsto> 300,
         lit ''SReclaimable'' \<mapsto> 80, lit ''Shmem'' \<mapsto> 30,
         lit ''SwapTotal'' \<mapsto> 0, lit ''SwapFree'' \<mapsto> 0]"], simp add: replay_meminfo, simp add: replay_memory, simp add: f64_percent_def f64_eval)

definition reports_zero_percent_when_swap_is_not_configured :: bool where
  "reports_zero_percent_when_swap_is_not_configured \<longleftrightarrow>
     ok_and (parse_meminfo
        (line_of ''MemTotal:        1000 kB'' @ line_of ''MemFree:          100 kB'' @
         line_of ''MemAvailable:     400 kB'' @ line_of ''Buffers:           50 kB'' @
         line_of ''Cached:           300 kB'' @ line_of ''SwapCached:         0 kB'' @
         line_of ''Active:            250 kB'' @ line_of ''Inactive:          100 kB'' @
         line_of ''SReclaimable:       80 kB'' @ line_of ''Shmem:              30 kB'' @
         line_of ''SwapTotal:           0 kB'' @ line_of ''SwapFree:            0 kB'')) (\<lambda>metrics.
       mi_swap_used_bytes metrics = 0 \<and> mi_swap_used_percent metrics = f64_lit 0)"

lemma reports_zero_percent_when_swap_is_not_configured:
  "reports_zero_percent_when_swap_is_not_configured"
  unfolding reports_zero_percent_when_swap_is_not_configured_def
  by (rule meminfo_via_values(1) [where m =
        "[lit ''MemTotal'' \<mapsto> 1000, lit ''MemFree'' \<mapsto> 100,
         lit ''MemAvailable'' \<mapsto> 400, lit ''Buffers'' \<mapsto> 50,
         lit ''Cached'' \<mapsto> 300, lit ''SReclaimable'' \<mapsto> 80,
         lit ''Shmem'' \<mapsto> 30, lit ''SwapTotal'' \<mapsto> 0,
         lit ''SwapFree'' \<mapsto> 0]"], simp add: replay_meminfo, simp add: replay_memory)

definition clamps_transient_free_values_to_their_totals :: bool where
  "clamps_transient_free_values_to_their_totals \<longleftrightarrow>
     ok_and (parse_meminfo
        (line_of ''MemTotal:       1000 kB'' @ line_of ''MemAvailable:   1001 kB'' @
         line_of ''SwapTotal:       100 kB'' @ line_of ''SwapFree:        101 kB'')) (\<lambda>metrics.
       mi_used_bytes metrics = 0 \<and> mi_swap_used_bytes metrics = 0)"

lemma clamps_transient_free_values_to_their_totals: "clamps_transient_free_values_to_their_totals"
  unfolding clamps_transient_free_values_to_their_totals_def
  by (rule meminfo_via_values(1) [where m =
        "[lit ''MemTotal'' \<mapsto> 1000, lit ''MemAvailable'' \<mapsto> 1001,
         lit ''SwapTotal'' \<mapsto> 100, lit ''SwapFree'' \<mapsto> 101]"], simp add: replay_meminfo, simp add: replay_memory)

definition supports_values_larger_than_a_32_bit_address_space :: bool where
  "supports_values_larger_than_a_32_bit_address_space \<longleftrightarrow>
     ok_and (parse_meminfo
        (line_of ''MemTotal:       5000000000 kB'' @ line_of ''MemAvailable:   4000000000 kB'' @
         line_of ''SwapTotal:      1000000000 kB'' @ line_of ''SwapFree:        500000000 kB'')) (\<lambda>metrics.
       mi_total_bytes metrics = 5120000000000 \<and> mi_used_bytes metrics = 1024000000000)"

lemma supports_values_larger_than_a_32_bit_address_space:
  "supports_values_larger_than_a_32_bit_address_space"
  unfolding supports_values_larger_than_a_32_bit_address_space_def
  by (rule meminfo_via_values(1) [where m =
        "[lit ''MemTotal'' \<mapsto> 5000000000,
         lit ''MemAvailable'' \<mapsto> 4000000000,
         lit ''SwapTotal'' \<mapsto> 1000000000, lit ''SwapFree'' \<mapsto> 500000000]"], simp add: replay_meminfo, simp add: replay_memory)

definition rejects_missing_or_malformed_required_values :: bool where
  "rejects_missing_or_malformed_required_values \<longleftrightarrow>
     is_err (parse_meminfo (line_of ''SwapTotal: 0 kB'' @ line_of ''SwapFree: 0 kB'')) \<and>
     is_err (parse_meminfo
       (line_of ''MemTotal: many kB'' @ line_of ''SwapTotal: 0 kB'' @ line_of ''SwapFree: 0 kB'')) \<and>
     is_err (parse_meminfo
       (line_of ''MemTotal: 10 MB'' @ line_of ''SwapTotal: 0 kB'' @ line_of ''SwapFree: 0 kB''))"

lemma rejects_missing_or_malformed_required_values: "rejects_missing_or_malformed_required_values"
  unfolding rejects_missing_or_malformed_required_values_def
  by (intro conjI; simp add: parse_meminfo_def replay_meminfo; simp add: replay_memory)

definition rejects_an_incomplete_legacy_fallback :: bool where
  "rejects_an_incomplete_legacy_fallback \<longleftrightarrow>
     is_err (parse_meminfo
       (line_of ''MemTotal: 100 kB'' @ line_of ''MemFree: 20 kB'' @ line_of ''SwapTotal: 0 kB'' @
        line_of ''SwapFree: 0 kB''))"

lemma rejects_an_incomplete_legacy_fallback: "rejects_an_incomplete_legacy_fallback"
  unfolding rejects_an_incomplete_legacy_fallback_def
  by (rule meminfo_via_values(2) [where m =
        "[lit ''MemTotal'' \<mapsto> 100, lit ''MemFree'' \<mapsto> 20,
         lit ''SwapTotal'' \<mapsto> 0, lit ''SwapFree'' \<mapsto> 0]"], simp add: replay_meminfo, simp add: replay_memory)

definition rejects_byte_conversion_overflow :: bool where
  "rejects_byte_conversion_overflow \<longleftrightarrow>
     is_err (parse_meminfo
       (line_of ''MemTotal: 18446744073709551615 kB'' @ line_of ''MemAvailable: 0 kB'' @
        line_of ''SwapTotal: 0 kB'' @ line_of ''SwapFree: 0 kB''))"

lemma rejects_byte_conversion_overflow: "rejects_byte_conversion_overflow"
  unfolding rejects_byte_conversion_overflow_def
  by (rule meminfo_via_values(2) [where m =
        "[lit ''MemTotal'' \<mapsto> 18446744073709551615,
         lit ''MemAvailable'' \<mapsto> 0, lit ''SwapTotal'' \<mapsto> 0,
         lit ''SwapFree'' \<mapsto> 0]"], simp add: replay_meminfo, simp add: replay_memory)


section \<open>Metadata\<close>

definition CPUINFO :: rstr where
  "CPUINFO =
     line_of ''processor       : 0'' @ line_of ''model name      : ARMv7 Processor rev 5 (v7l)'' @
     line_of ''Features        : half thumb fastmult vfp edsp neon vfpv3 tls'' @
     line_of ''Hardware        : Example ARM Board'' @ line_of ''Revision        : a02082'' @
     line_of ''Serial          : 0000000000000001''"

lemmas replay_metadata =
  parse_cpuinfo_def cpuinfo_line_def parse_os_release_def os_release_line_def os_release_store_def
  OsRelease_default_def valid_key_def parse_assignment_value_def unescape_def non_empty_def
  parse_device_tree_model_def parse_hostname_def line_of_def str_eval result_simps

definition extracts_board_identifiers_from_cpuinfo :: bool where
  "extracts_board_identifiers_from_cpuinfo \<longleftrightarrow>
     cm_revision (parse_cpuinfo CPUINFO) = Some (lit ''a02082'') \<and>
     cm_serial (parse_cpuinfo CPUINFO) = Some (lit ''0000000000000001'')"

lemma extracts_board_identifiers_from_cpuinfo: "extracts_board_identifiers_from_cpuinfo"
  by (simp add: extracts_board_identifiers_from_cpuinfo_def CPUINFO_def replay_metadata)

definition missing_cpuinfo_fields_remain_absent :: bool where
  "missing_cpuinfo_fields_remain_absent \<longleftrightarrow>
     (let metadata = parse_cpuinfo (line_of ''processor : 0'' @ line_of ''model name : Example CPU'')
      in cm_revision metadata = None \<and> cm_serial metadata = None)"

lemma missing_cpuinfo_fields_remain_absent: "missing_cpuinfo_fields_remain_absent"
  by (simp add: missing_cpuinfo_fields_remain_absent_def replay_metadata)

definition parses_quoted_and_unquoted_os_release_fields :: bool where
  "parses_quoted_and_unquoted_os_release_fields \<longleftrightarrow>
     parse_os_release
       (line_of ''# Example release'' @ lit ''PRETTY_NAME='' @ [34] @ lit ''Example Linux 1'' @ [34, 10] @
        lit ''NAME='' @ [39] @ lit ''Example Linux'' @ [39, 10] @
        lit ''VERSION=1'' @ [92] @ line_of '' stable'' @
        lit ''VERSION_ID='' @ [34] @ lit ''1'' @ [34, 10] @
        line_of ''ID=example'' @ line_of ''UNRELATED=value'') =
     Inr \<lparr>or_pretty_name = Some (lit ''Example Linux 1''), or_name = Some (lit ''Example Linux''),
          or_version = Some (lit ''1 stable''), or_version_id = Some (lit ''1''),
          or_id = Some (lit ''example'')\<rparr>"

lemma parses_quoted_and_unquoted_os_release_fields: "parses_quoted_and_unquoted_os_release_fields"
  by (simp add: parses_quoted_and_unquoted_os_release_fields_def replay_metadata)

definition later_os_release_assignments_take_precedence :: bool where
  "later_os_release_assignments_take_precedence \<longleftrightarrow>
     ok_and (parse_os_release (line_of ''NAME=First'' @ line_of ''NAME=Second''))
       (\<lambda>release. or_name release = Some (lit ''Second''))"

lemma later_os_release_assignments_take_precedence: "later_os_release_assignments_take_precedence"
  by (simp add: later_os_release_assignments_take_precedence_def replay_metadata)

definition rejects_malformed_os_release_lines :: bool where
  "rejects_malformed_os_release_lines \<longleftrightarrow>
     is_err (parse_os_release (line_of ''NAME'')) \<and>
     is_err (parse_os_release (line_of ''lowercase=value'')) \<and>
     is_err (parse_os_release (lit ''NAME='' @ [34] @ line_of ''unterminated'')) \<and>
     is_err (parse_os_release (lit ''NAME=value'' @ [92, 10]))"

lemma rejects_malformed_os_release_lines: "rejects_malformed_os_release_lines"
  by (simp add: rejects_malformed_os_release_lines_def replay_metadata)

definition parses_device_tree_model_and_hostname :: bool where
  "parses_device_tree_model_and_hostname \<longleftrightarrow>
     parse_device_tree_model (lit ''Example ARM Board'' @ [0]) = Some (lit ''Example ARM Board'') \<and>
     parse_device_tree_model [0] = None \<and> parse_device_tree_model [0xff, 0] = None \<and>
     parse_hostname (10 # line_of ''example-node'') = Some (lit ''example-node'') \<and>
     parse_hostname (line_of '' '') = None"

lemma parses_device_tree_model_and_hostname: "parses_device_tree_model_and_hostname"
  by (simp add: parses_device_tree_model_and_hostname_def replay_metadata)

end
