(* ===== verification/Telemetry_Decode.thy ===== *)
theory Telemetry_Decode
  imports Telemetry_Model "HOL-Library.Monad_Syntax"
begin

text \<open>
  The derived \<open>Deserialize\<close> implementations of \<open>src/model.rs\<close>: from the serde data model back to the
  telemetry state, and the round trip of the payload.  \<^term>\<open>None\<close> is an error of serde; the payload's
  objects are decoded by name, in any order, with unknown fields ignored and a field that occurs twice
  refused.  A field with \<open>deserialize_with\<close> has to be present, an absent \<open>Option\<close> without it is \<open>None\<close>.
  The array form of a struct and the object form of a variant, which serde reads too and no payload
  has, are left out.
\<close>

section \<open>Decoding\<close>

text \<open>The occurrences of a field of an object; \<^term>\<open>None\<close> when the value is no object.\<close>

definition occurrences :: "json \<Rightarrow> rstr \<Rightarrow> json list option" where
  "occurrences j k =
     (case j of JObj kvs \<Rightarrow> Some (map snd (filter (\<lambda>(k', v). k' = k) kvs)) | _ \<Rightarrow> None)"

definition required_field :: "(json \<Rightarrow> 'a option) \<Rightarrow> json \<Rightarrow> rstr \<Rightarrow> 'a option" where
  "required_field decode j k =
     (case occurrences j k of Some [v] \<Rightarrow> decode v | _ \<Rightarrow> None)"

definition optional_field :: "(json \<Rightarrow> 'a option) \<Rightarrow> json \<Rightarrow> rstr \<Rightarrow> 'a option option" where
  "optional_field decode j k =
     (case occurrences j k of
        Some [] \<Rightarrow> Some None
      | Some [v] \<Rightarrow> (case v of JNull \<Rightarrow> Some None | _ \<Rightarrow> map_option Some (decode v))
      | _ \<Rightarrow> None)"

fun decode_uint :: "json \<Rightarrow> 'a::len word option" where
  "decode_uint (JU64 n) = (if n < 2 ^ LENGTH('a) then Some (of_nat n) else None)"
| "decode_uint _ = None"

fun decode_bool :: "json \<Rightarrow> bool option" where
  "decode_bool (JBool b) = Some b"
| "decode_bool _ = None"

fun decode_str :: "json \<Rightarrow> rstr option" where
  "decode_str (JStr s) = Some s"
| "decode_str _ = None"

text \<open>An integer is a number, too.\<close>

fun decode_f64 :: "json \<Rightarrow> f64 option" where
  "decode_f64 (JF64 x) = Some x"
| "decode_f64 (JU64 n) = Some (f64_of_nat n)"
| "decode_f64 _ = None"

definition decode_optional_finite :: "json \<Rightarrow> f64 option option" where
  "decode_optional_finite j =
     ok (deserialize_optional_finite
           (case j of JNull \<Rightarrow> Inr None | _ \<Rightarrow> ok_or (map_option Some (decode_f64 j)) []))"

definition CpuMetrics_deserialize :: "json \<Rightarrow> CpuMetrics option" where
  "CpuMetrics_deserialize j = do {
     usage \<leftarrow> required_field decode_optional_finite j (lit ''usage_percent'');
     load1 \<leftarrow> required_field decode_optional_finite j (lit ''load_1'');
     load5 \<leftarrow> required_field decode_optional_finite j (lit ''load_5'');
     load15 \<leftarrow> required_field decode_optional_finite j (lit ''load_15'');
     temperature \<leftarrow> required_field decode_optional_finite j (lit ''temperature_c'');
     frequency \<leftarrow> required_field decode_optional_finite j (lit ''frequency_mhz'');
     Some \<lparr>cpu_usage_percent = usage, cpu_load_1 = load1, cpu_load_5 = load5, cpu_load_15 = load15,
           cpu_temperature_c = temperature, cpu_frequency_mhz = frequency\<rparr> }"

definition MemoryMetrics_deserialize :: "json \<Rightarrow> MemoryMetrics option" where
  "MemoryMetrics_deserialize j = do {
     total_bytes \<leftarrow> optional_field decode_uint j (lit ''total_bytes'');
     available \<leftarrow> optional_field decode_uint j (lit ''available_bytes'');
     used \<leftarrow> optional_field decode_uint j (lit ''used_bytes'');
     percent \<leftarrow> required_field decode_optional_finite j (lit ''used_percent'');
     Some \<lparr>mem_total_bytes = total_bytes, mem_available_bytes = available, mem_used_bytes = used,
           mem_used_percent = percent\<rparr> }"

definition SwapMetrics_deserialize :: "json \<Rightarrow> SwapMetrics option" where
  "SwapMetrics_deserialize j = do {
     total_bytes \<leftarrow> optional_field decode_uint j (lit ''total_bytes'');
     used \<leftarrow> optional_field decode_uint j (lit ''used_bytes'');
     percent \<leftarrow> required_field decode_optional_finite j (lit ''used_percent'');
     Some \<lparr>swap_total_bytes = total_bytes, swap_used_bytes = used, swap_used_percent = percent\<rparr> }"

definition DiskMetrics_deserialize :: "json \<Rightarrow> DiskMetrics option" where
  "DiskMetrics_deserialize j = do {
     mount \<leftarrow> required_field decode_str j (lit ''mount'');
     total_bytes \<leftarrow> optional_field decode_uint j (lit ''total_bytes'');
     available \<leftarrow> optional_field decode_uint j (lit ''available_bytes'');
     used \<leftarrow> optional_field decode_uint j (lit ''used_bytes'');
     percent \<leftarrow> required_field decode_optional_finite j (lit ''used_percent'');
     Some \<lparr>disk_mount = mount, disk_total_bytes = total_bytes, disk_available_bytes = available,
           disk_used_bytes = used, disk_used_percent = percent\<rparr> }"

definition PowerMetrics_deserialize :: "json \<Rightarrow> PowerMetrics option" where
  "PowerMetrics_deserialize j = do {
     raw \<leftarrow> optional_field decode_str j (lit ''throttled_raw'');
     undervoltage \<leftarrow> optional_field decode_bool j (lit ''undervoltage_now'');
     capped \<leftarrow> optional_field decode_bool j (lit ''arm_frequency_capped_now'');
     throttled \<leftarrow> optional_field decode_bool j (lit ''throttled_now'');
     soft \<leftarrow> optional_field decode_bool j (lit ''soft_temperature_limit_now'');
     undervoltage' \<leftarrow> optional_field decode_bool j (lit ''undervoltage_since_boot'');
     capped' \<leftarrow> optional_field decode_bool j (lit ''arm_frequency_capped_since_boot'');
     throttled' \<leftarrow> optional_field decode_bool j (lit ''throttled_since_boot'');
     soft' \<leftarrow> optional_field decode_bool j (lit ''soft_temperature_limit_since_boot'');
     Some \<lparr>pw_throttled_raw = raw, pw_undervoltage_now = undervoltage,
           pw_arm_frequency_capped_now = capped, pw_throttled_now = throttled,
           pw_soft_temperature_limit_now = soft, pw_undervoltage_since_boot = undervoltage',
           pw_arm_frequency_capped_since_boot = capped', pw_throttled_since_boot = throttled',
           pw_soft_temperature_limit_since_boot = soft'\<rparr> }"

definition CollectorError_deserialize :: "json \<Rightarrow> CollectorError option" where
  "CollectorError_deserialize j = do {
     metric \<leftarrow> required_field decode_str j (lit ''metric'');
     message \<leftarrow> required_field decode_str j (lit ''message'');
     Some \<lparr>ce_metric = metric, ce_message = message\<rparr> }"

definition HealthStatus_deserialize :: "json \<Rightarrow> HealthStatus option" where
  "HealthStatus_deserialize j = do {
     name \<leftarrow> decode_str j;
     find_first (\<lambda>status. HealthStatus_name status = name)
       [HealthOk, HealthWarning, HealthCritical, HealthDegraded] }"

fun decode_list :: "(json \<Rightarrow> 'a option) \<Rightarrow> json \<Rightarrow> 'a list option" where
  "decode_list decode (JArr js) = collect_options (map decode js)"
| "decode_list decode _ = None"

definition Health_deserialize :: "json \<Rightarrow> Health option" where
  "Health_deserialize j = do {
     status \<leftarrow> required_field HealthStatus_deserialize j (lit ''status'');
     errors \<leftarrow> required_field (decode_list CollectorError_deserialize) j (lit ''collector_errors'');
     Some \<lparr>h_status = status, h_collector_errors = errors\<rparr> }"

definition ServiceMetrics_deserialize :: "json \<Rightarrow> ServiceMetrics option" where
  "ServiceMetrics_deserialize j = do {
     version \<leftarrow> required_field decode_str j (lit ''version'');
     ms \<leftarrow> required_field decode_uint j (lit ''collection_duration_ms'');
     Some \<lparr>sv_version = version, sv_collection_duration_ms = ms\<rparr> }"

definition decode_time :: "'dt TimeLib \<Rightarrow> json \<Rightarrow> 'dt ObservationTime option" where
  "decode_time lib j = ok (ObservationTime_deserialize lib (ok_or (decode_str j) []))"

definition TelemetryState_deserialize :: "'dt TimeLib \<Rightarrow> json \<Rightarrow> 'dt TelemetryState option" where
  "TelemetryState_deserialize lib j = do {
     version \<leftarrow> required_field decode_uint j (lit ''schema_version'');
     observed_at \<leftarrow> required_field (decode_time lib) j (lit ''observed_at'');
     uptime \<leftarrow> optional_field decode_uint j (lit ''uptime_seconds'');
     cpu \<leftarrow> required_field CpuMetrics_deserialize j (lit ''cpu'');
     memory \<leftarrow> required_field MemoryMetrics_deserialize j (lit ''memory'');
     swap \<leftarrow> required_field SwapMetrics_deserialize j (lit ''swap'');
     disk \<leftarrow> required_field DiskMetrics_deserialize j (lit ''disk'');
     pw \<leftarrow> required_field PowerMetrics_deserialize j (lit ''power'');
     health \<leftarrow> required_field Health_deserialize j (lit ''health'');
     service \<leftarrow> required_field ServiceMetrics_deserialize j (lit ''service'');
     Some \<lparr>st_schema_version = version, st_observed_at = observed_at, st_uptime_seconds = uptime,
           st_cpu = cpu, st_memory = memory, st_swap = swap, st_disk = disk, st_power = pw,
           st_health = health, st_service = service\<rparr> }"


section \<open>The state as it is published\<close>

definition published_f64 :: "nat \<Rightarrow> f64 option \<Rightarrow> f64 option" where
  "published_f64 d v = Option.bind v (\<lambda>x. rounded_metric x d)"

definition published_cpu :: "CpuMetrics \<Rightarrow> CpuMetrics" where
  "published_cpu m =
     \<lparr>cpu_usage_percent = published_f64 1 (cpu_usage_percent m),
      cpu_load_1 = published_f64 2 (cpu_load_1 m), cpu_load_5 = published_f64 2 (cpu_load_5 m),
      cpu_load_15 = published_f64 2 (cpu_load_15 m),
      cpu_temperature_c = published_f64 1 (cpu_temperature_c m),
      cpu_frequency_mhz = published_f64 1 (cpu_frequency_mhz m)\<rparr>"

text \<open>The state with its measurements rounded as the payload rounds them.\<close>

definition published_state :: "'dt TelemetryState \<Rightarrow> 'dt TelemetryState" where
  "published_state st =
     st\<lparr>st_cpu := published_cpu (st_cpu st),
        st_memory := (st_memory st)
          \<lparr>mem_used_percent := published_f64 1 (mem_used_percent (st_memory st))\<rparr>,
        st_swap := (st_swap st)
          \<lparr>swap_used_percent := published_f64 1 (swap_used_percent (st_swap st))\<rparr>,
        st_disk := (st_disk st)
          \<lparr>disk_used_percent := published_f64 1 (disk_used_percent (st_disk st))\<rparr>\<rparr>"


section \<open>What was serialized is read back\<close>

text \<open>A value that a decoder reads back, as a field of an object.\<close>

lemma decode_uint_opt [simp]:
  "(case json_opt (\<lambda>w. JU64 (unat w)) w of JNull \<Rightarrow> Some None | _ \<Rightarrow>
      map_option Some (decode_uint (json_opt (\<lambda>w. JU64 (unat w)) w))) = Some (w :: u64 option)"
  using unsigned_less [where 'a = nat, of "the w"] by (cases w) (simp_all add: json_opt_def)

lemma decode_bool_opt [simp]:
  "(case json_opt JBool b of JNull \<Rightarrow> Some None | _ \<Rightarrow>
      map_option Some (decode_bool (json_opt JBool b))) = Some b"
  by (cases b) (simp_all add: json_opt_def)

lemma decode_str_opt [simp]:
  "(case json_opt JStr s of JNull \<Rightarrow> Some None | _ \<Rightarrow>
      map_option Some (decode_str (json_opt JStr s))) = Some s"
  by (cases s) (simp_all add: json_opt_def)

lemma word_fits [simp]: "unat (w :: u64) < 18446744073709551616" "unat (v :: u32) < 4294967296"
  using unsigned_less [where 'a = nat, of w] unsigned_less [where 'a = nat, of v] by simp_all

lemma decode_published:
  assumes "serialize_optional_f64 d v = Inr j"
  shows "decode_optional_finite j = Some (published_f64 d v)"
proof (cases v)
  case (Some x)
  then obtain r where "rounded_metric x d = Some r" "j = JF64 r"
    using assms by (auto simp: serialize_optional_f64_def result_iff)
  then show ?thesis using Some rounded_metric_finite [of x d r]
    by (simp add: decode_optional_finite_def deserialize_optional_finite_def published_f64_def ok_def
        ok_or_def and_then_def)
qed (use assms in \<open>simp add: serialize_optional_f64_def decode_optional_finite_def published_f64_def
       deserialize_optional_finite_def ok_def and_then_def\<close>)

lemmas field_defs = required_field_def optional_field_def occurrences_def

lemmas section_parts =
  serialize_struct_eq_Inr list_all2_Cons1 json_u64_def json_bool_def json_str_def
  serialize_optional_one_decimal_def serialize_optional_two_decimals_def

lemma cpu_read_back: "CpuMetrics_serialize m = Inr j \<Longrightarrow> CpuMetrics_deserialize j = Some (published_cpu m)"
  by (auto simp: CpuMetrics_serialize_def CpuMetrics_deserialize_def section_parts field_defs
      decode_published published_cpu_def)

lemma memory_read_back:
  "MemoryMetrics_serialize m = Inr j \<Longrightarrow>
     MemoryMetrics_deserialize j = Some (m\<lparr>mem_used_percent := published_f64 1 (mem_used_percent m)\<rparr>)"
  by (auto simp: MemoryMetrics_serialize_def MemoryMetrics_deserialize_def section_parts field_defs
      decode_published)

lemma swap_read_back:
  "SwapMetrics_serialize m = Inr j \<Longrightarrow>
     SwapMetrics_deserialize j = Some (m\<lparr>swap_used_percent := published_f64 1 (swap_used_percent m)\<rparr>)"
  by (auto simp: SwapMetrics_serialize_def SwapMetrics_deserialize_def section_parts field_defs
      decode_published)

lemma disk_read_back:
  "DiskMetrics_serialize m = Inr j \<Longrightarrow>
     DiskMetrics_deserialize j = Some (m\<lparr>disk_used_percent := published_f64 1 (disk_used_percent m)\<rparr>)"
  by (auto simp: DiskMetrics_serialize_def DiskMetrics_deserialize_def section_parts field_defs
      decode_published)

lemma power_read_back: "PowerMetrics_serialize m = Inr j \<Longrightarrow> PowerMetrics_deserialize j = Some m"
  by (auto simp: PowerMetrics_serialize_def PowerMetrics_deserialize_def section_parts field_defs)

lemma error_read_back: "CollectorError_deserialize (CollectorError_json e) = Some e"
  by (simp add: CollectorError_deserialize_def CollectorError_json_def field_defs)

lemma errors_read_back: "collect_options (map (CollectorError_deserialize \<circ> CollectorError_json) es) = Some es"
  by (induction es) (simp_all add: error_read_back)

lemma status_read_back: "HealthStatus_deserialize (JStr (HealthStatus_name h)) = Some h"
  by (cases h) (simp_all add: HealthStatus_deserialize_def)

lemma health_read_back: "Health_serialize h = Inr j \<Longrightarrow> Health_deserialize j = Some h"
  by (auto simp: Health_serialize_def Health_deserialize_def section_parts field_defs status_read_back
      errors_read_back)

lemma service_read_back: "ServiceMetrics_serialize v = Inr j \<Longrightarrow> ServiceMetrics_deserialize j = Some v"
  by (auto simp: ServiceMetrics_serialize_def ServiceMetrics_deserialize_def section_parts field_defs)

text \<open>A time in UTC is formatted to a text that is read back to it.\<close>

definition time_read_back :: "'dt TimeLib \<Rightarrow> 'dt \<Rightarrow> bool" where
  "time_read_back lib dt \<longleftrightarrow>
     (case tl_format lib dt of
        Inl _ \<Rightarrow> True
      | Inr formatted \<Rightarrow> map_ok (tl_to_utc lib) (tl_parse lib formatted) = Inr dt)"

lemma time_decoded:
  assumes "time_read_back lib (as_datetime t)" "ObservationTime_serialize lib t = Inr j"
  shows "decode_time lib j = Some t"
  using assms
  by (cases t; cases "tl_parse lib (projr (tl_format lib (as_datetime t)))")
    (auto simp: time_read_back_def ObservationTime_serialize_def decode_time_def
      ObservationTime_deserialize_def ObservationTime_parse_def result_iff ok_def split: sum.splits)

lemma state_read_back:
  assumes "time_read_back lib (as_datetime (st_observed_at st))"
    and "TelemetryState_serialize lib st = Inr j"
  shows "TelemetryState_deserialize lib j = Some (published_state st)"
  using assms
  by (auto simp: TelemetryState_serialize_def TelemetryState_deserialize_def section_parts field_defs
      time_decoded cpu_read_back memory_read_back swap_read_back disk_read_back power_read_back
      health_read_back service_read_back published_state_def)


section \<open>Published again\<close>

text \<open>Measurements of magnitude up to \<open>2^40\<close>, for which rounding is stable.\<close>

definition moderate :: "f64 option \<times> nat \<Rightarrow> bool" where
  "moderate = (\<lambda>(v, d). case v of
     None \<Rightarrow> True
   | Some x \<Rightarrow> (case x of F64_Fin s m \<Rightarrow> 0 \<le> m \<and> m \<le> 2 ^ 40 | _ \<Rightarrow> False))"

lemma serialized_again:
  assumes "moderate (v, d)" "d = 1 \<or> d = 2"
  shows "serialize_optional_f64 d (published_f64 d v) = serialize_optional_f64 d v"
proof (cases v)
  case (Some x)
  then obtain s m where x: "x = F64_Fin s m" "0 \<le> m" "m \<le> 2 ^ 40"
    using assms(1) by (auto simp: moderate_def split: f64.splits)
  from rounded_again [OF x(2,3) assms(2), of s] show ?thesis
    using Some x(1) by (auto simp: published_f64_def serialize_optional_f64_def)
qed (simp add: published_f64_def)

lemma state_serialized_again:
  assumes "list_all moderate (payload_floats st)"
  shows "TelemetryState_serialize lib (published_state st) = TelemetryState_serialize lib st"
  using assms
  by (simp add: payload_floats_def TelemetryState_serialize_def published_state_def
      CpuMetrics_serialize_def MemoryMetrics_serialize_def SwapMetrics_serialize_def
      DiskMetrics_serialize_def published_cpu_def serialize_optional_one_decimal_def
      serialize_optional_two_decimals_def serialized_again)

text \<open>
  C27. The payload is read back without loss: a published state, decoded again, is the observed state
  with its measurements rounded to the published decimals, every missing value, flag, error and count
  included; and when no measurement exceeds \<open>2^40\<close>, publishing the decoded state gives the same payload
  again.  The observation time is in UTC, where the time library reads back what it formats.\<close>

theorem payload_roundtrip:
  assumes "time_read_back lib (as_datetime (st_observed_at st))"
  shows "case TelemetryState_serialize lib st of
      Inl _ \<Rightarrow> True
    | Inr j \<Rightarrow>
        TelemetryState_deserialize lib j = Some (published_state st) \<and>
        (if list_all moderate (payload_floats st)
         then TelemetryState_serialize lib (published_state st) = Inr j else True)"
  using state_read_back [OF assms] state_serialized_again [of st lib] by (auto split: sum.split)

text \<open>A library whose times are their own texts, for the witness.\<close>

definition text_time :: "rstr TimeLib" where
  "text_time = \<lparr>tl_parse = Inr, tl_to_utc = id, tl_format = Inr\<rparr>"

theorem payload_roundtrip_witness:
  "case TelemetryState_serialize text_time
      (TelemetryState_new (ObservationTime (lit ''now'')) (TelemetryReadings_unavailable (lit ''/''))
         [CollectorError_new (lit ''cpu'') (lit ''gone'')] 7) of
     Inl _ \<Rightarrow> False
   | Inr j \<Rightarrow> TelemetryState_deserialize text_time j =
       Some (published_state
         (TelemetryState_new (ObservationTime (lit ''now'')) (TelemetryReadings_unavailable (lit ''/''))
            [CollectorError_new (lit ''cpu'') (lit ''gone'')] 7))"
proof -
  let ?st = "TelemetryState_new (ObservationTime (lit ''now'')) (TelemetryReadings_unavailable (lit ''/''))
    [CollectorError_new (lit ''cpu'') (lit ''gone'')] 7"
  have "time_read_back text_time (as_datetime (st_observed_at ?st))"
    by (simp add: time_read_back_def text_time_def)
  moreover have "\<exists>j. TelemetryState_serialize text_time ?st = Inr j"
    unfolding payload_ok_iff
    by (simp add: text_time_def payload_floats_def publishable_def TelemetryState_new_def
        TelemetryReadings_unavailable_def CpuMetrics_default_def MemoryMetrics_default_def
        SwapMetrics_default_def DiskMetrics_unavailable_def)
  ultimately show ?thesis using payload_roundtrip [of text_time ?st] by auto
qed

end
