(* ===== verification/Replay_Model.thy ===== *)
theory Replay_Model
  imports Replay Telemetry_Decode
begin

text \<open>
  The unit tests of \<open>src/model.rs\<close> on the model.  The times are those of \<^const>\<open>text_time\<close>, whose texts
  are UTC timestamps; the test of the conversion of offsets, which belongs to the time library, is left
  out.
\<close>

definition observation_time :: "rstr ObservationTime" where
  "observation_time = ObservationTime (lit ''2026-08-16T12:34:56Z'')"

definition complete_readings :: TelemetryReadings where
  "complete_readings =
     \<lparr>rd_uptime_seconds = Some 123456,
      rd_cpu = \<lparr>cpu_usage_percent = Some (f64_lit (424 / 100)), cpu_load_1 = Some (f64_lit (64 / 1000)),
                cpu_load_5 = Some (f64_lit (101 / 1000)), cpu_load_15 = Some (f64_lit (129 / 1000)),
                cpu_temperature_c = Some (f64_lit (4984 / 100)),
                cpu_frequency_mhz = Some (f64_lit (90004 / 100))\<rparr>,
      rd_memory = \<lparr>mem_total_bytes = Some 964689920, mem_available_bytes = Some 702545920,
                   mem_used_bytes = Some 262144000, mem_used_percent = Some (f64_lit (27174 / 1000))\<rparr>,
      rd_swap = \<lparr>swap_total_bytes = Some 963641344, swap_used_bytes = Some 0,
                 swap_used_percent = Some (F64_Fin True 0)\<rparr>,
      rd_disk = \<lparr>disk_mount = lit ''/'', disk_total_bytes = Some 62277025792,
                 disk_available_bytes = Some 56000000000, disk_used_bytes = Some 6200000000,
                 disk_used_percent = Some (f64_lit (1004 / 100))\<rparr>,
      rd_power = \<lparr>pw_throttled_raw = Some (lit ''0x0''), pw_undervoltage_now = Some False,
                  pw_arm_frequency_capped_now = Some False, pw_throttled_now = Some False,
                  pw_soft_temperature_limit_now = Some False, pw_undervoltage_since_boot = Some False,
                  pw_arm_frequency_capped_since_boot = Some False, pw_throttled_since_boot = Some False,
                  pw_soft_temperature_limit_since_boot = Some False\<rparr>\<rparr>"

text \<open>The roundings of these readings.\<close>

lemma powi_ten:
  "f64_powi (F64_Fin False 10) (Suc 0) = F64_Fin False 10" "f64_powi (F64_Fin False 10) 2 = F64_Fin False 100"
  using powi_10 by (simp_all add: f64_eval)

lemmas round_eval = rounded_metric_def powi_ten f64_eval

lemma rounded_readings:
  "rounded_metric (f64_lit (424 / 100)) 1 = Some (f64_lit (42 / 10))"
  "rounded_metric (f64_lit (64 / 1000)) 2 = Some (f64_lit (6 / 100))"
  "rounded_metric (f64_lit (101 / 1000)) 2 = Some (f64_lit (10 / 100))"
  "rounded_metric (f64_lit (129 / 1000)) 2 = Some (f64_lit (13 / 100))"
  "rounded_metric (f64_lit (4984 / 100)) 1 = Some (f64_lit (498 / 10))"
  "rounded_metric (f64_lit (90004 / 100)) 1 = Some (f64_lit 900)"
  "rounded_metric (f64_lit (27174 / 1000)) 1 = Some (f64_lit (272 / 10))"
  "rounded_metric (F64_Fin True 0) 1 = Some (f64_lit 0)"
  "rounded_metric (f64_lit (1004 / 100)) 1 = Some (f64_lit 10)"
  by (simp_all add: round_eval)

lemmas serialize_eval =
  TelemetryState_serialize_def CpuMetrics_serialize_def MemoryMetrics_serialize_def
  SwapMetrics_serialize_def DiskMetrics_serialize_def PowerMetrics_serialize_def Health_serialize_def
  ServiceMetrics_serialize_def ObservationTime_serialize_def serialize_struct_def json_u64_def
  json_bool_def json_str_def json_opt_def serialize_optional_one_decimal_def
  serialize_optional_two_decimals_def serialize_optional_f64_def CollectorError_json_def result_simps

lemmas state_eval =
  TelemetryState_new_def TelemetryReadings_unavailable_def CpuMetrics_default_def
  MemoryMetrics_default_def SwapMetrics_default_def DiskMetrics_unavailable_def PowerMetrics_default_def
  Health_evaluate_def HealthStatus_evaluate_def has_current_problem_def has_historical_problem_def
  ServiceMetrics_new_def CollectorError_new_def SCHEMA_VERSION_def

definition complete_state_serializes_to_the_version_one_contract :: bool where
  "complete_state_serializes_to_the_version_one_contract \<longleftrightarrow>
     TelemetryState_serialize text_time (TelemetryState_new observation_time complete_readings [] 4) =
       Inr (JObj
         [(lit ''schema_version'', JU64 1), (lit ''observed_at'', JStr (lit ''2026-08-16T12:34:56Z'')),
          (lit ''uptime_seconds'', JU64 123456),
          (lit ''cpu'', JObj
             [(lit ''usage_percent'', JF64 (f64_lit (42 / 10))), (lit ''load_1'', JF64 (f64_lit (6 / 100))),
              (lit ''load_5'', JF64 (f64_lit (10 / 100))), (lit ''load_15'', JF64 (f64_lit (13 / 100))),
              (lit ''temperature_c'', JF64 (f64_lit (498 / 10))), (lit ''frequency_mhz'', JF64 (f64_lit 900))]),
          (lit ''memory'', JObj
             [(lit ''total_bytes'', JU64 964689920), (lit ''available_bytes'', JU64 702545920),
              (lit ''used_bytes'', JU64 262144000), (lit ''used_percent'', JF64 (f64_lit (272 / 10)))]),
          (lit ''swap'', JObj
             [(lit ''total_bytes'', JU64 963641344), (lit ''used_bytes'', JU64 0),
              (lit ''used_percent'', JF64 (f64_lit 0))]),
          (lit ''disk'', JObj
             [(lit ''mount'', JStr (lit ''/'')), (lit ''total_bytes'', JU64 62277025792),
              (lit ''available_bytes'', JU64 56000000000), (lit ''used_bytes'', JU64 6200000000),
              (lit ''used_percent'', JF64 (f64_lit 10))]),
          (lit ''power'', JObj
             [(lit ''throttled_raw'', JStr (lit ''0x0'')), (lit ''undervoltage_now'', JBool False),
              (lit ''arm_frequency_capped_now'', JBool False), (lit ''throttled_now'', JBool False),
              (lit ''soft_temperature_limit_now'', JBool False),
              (lit ''undervoltage_since_boot'', JBool False),
              (lit ''arm_frequency_capped_since_boot'', JBool False),
              (lit ''throttled_since_boot'', JBool False),
              (lit ''soft_temperature_limit_since_boot'', JBool False)]),
          (lit ''health'', JObj [(lit ''status'', JStr (lit ''ok'')), (lit ''collector_errors'', JArr [])]),
          (lit ''service'', JObj
             [(lit ''version'', JStr VERSION), (lit ''collection_duration_ms'', JU64 4)])])"

lemma complete_state_serializes_to_the_version_one_contract:
  "complete_state_serializes_to_the_version_one_contract"
  by (simp add: complete_state_serializes_to_the_version_one_contract_def complete_readings_def
      observation_time_def text_time_def rounded_readings [simplified] rounded_readings state_eval serialize_eval)

text \<open>\<open>pointer\<close>: the value under two keys.\<close>

definition json_pointer :: "rstr list \<Rightarrow> json \<Rightarrow> json option" where
  "json_pointer ks j = fold (\<lambda>k v. Option.bind v (\<lambda>j. json_get j k)) ks (Some j)"

definition unavailable_measurements_are_explicit_null_values :: bool where
  "unavailable_measurements_are_explicit_null_values \<longleftrightarrow>
     ok_and (TelemetryState_serialize text_time
        (TelemetryState_new observation_time (TelemetryReadings_unavailable (lit ''/data''))
           [CollectorError_new (lit ''cpu'') (lit ''aggregate CPU line is missing'')] 7)) (\<lambda>serialized.
       list_all (\<lambda>pointer. json_pointer pointer serialized = Some JNull)
         ([[lit ''uptime_seconds'']] @
          map (\<lambda>k. [lit ''cpu'', k]) [lit ''usage_percent'', lit ''load_1'', lit ''load_5'', lit ''load_15'',
            lit ''temperature_c'', lit ''frequency_mhz''] @
          map (\<lambda>k. [lit ''memory'', k]) [lit ''total_bytes'', lit ''available_bytes'', lit ''used_bytes'',
            lit ''used_percent''] @
          map (\<lambda>k. [lit ''swap'', k]) [lit ''total_bytes'', lit ''used_bytes'', lit ''used_percent''] @
          map (\<lambda>k. [lit ''disk'', k]) [lit ''total_bytes'', lit ''available_bytes'', lit ''used_bytes'',
            lit ''used_percent''] @
          map (\<lambda>k. [lit ''power'', k]) [lit ''throttled_raw'', lit ''undervoltage_now'',
            lit ''arm_frequency_capped_now'', lit ''throttled_now'', lit ''soft_temperature_limit_now'',
            lit ''undervoltage_since_boot'', lit ''arm_frequency_capped_since_boot'',
            lit ''throttled_since_boot'', lit ''soft_temperature_limit_since_boot'']) \<and>
       json_pointer [lit ''disk'', lit ''mount''] serialized = Some (JStr (lit ''/data'')) \<and>
       json_pointer [lit ''health'', lit ''status''] serialized = Some (JStr (lit ''degraded'')))"

lemma unavailable_measurements_are_explicit_null_values:
  "unavailable_measurements_are_explicit_null_values"
  by (simp add: unavailable_measurements_are_explicit_null_values_def observation_time_def text_time_def
      json_pointer_def state_eval serialize_eval)

definition health_status_obeys_contract_precedence :: bool where
  "health_status_obeys_contract_precedence \<longleftrightarrow>
     (let none = PowerMetrics_default;
          historical = PowerMetrics_default\<lparr>pw_undervoltage_since_boot := Some True\<rparr>;
          current = PowerMetrics_default\<lparr>pw_throttled_now := Some True, pw_undervoltage_since_boot := Some True\<rparr>
      in HealthStatus_evaluate none False = HealthOk \<and>
         HealthStatus_evaluate historical False = HealthWarning \<and>
         HealthStatus_evaluate historical True = HealthDegraded \<and>
         HealthStatus_evaluate current True = HealthCritical)"

lemma health_status_obeys_contract_precedence: "health_status_obeys_contract_precedence"
  by (simp add: health_status_obeys_contract_precedence_def state_eval)

definition every_power_flag_has_the_expected_health_effect :: bool where
  "every_power_flag_has_the_expected_health_effect \<longleftrightarrow>
     list_all (\<lambda>pw. HealthStatus_evaluate pw False = HealthCritical)
       [PowerMetrics_default\<lparr>pw_undervoltage_now := Some True\<rparr>,
        PowerMetrics_default\<lparr>pw_arm_frequency_capped_now := Some True\<rparr>,
        PowerMetrics_default\<lparr>pw_throttled_now := Some True\<rparr>,
        PowerMetrics_default\<lparr>pw_soft_temperature_limit_now := Some True\<rparr>] \<and>
     list_all (\<lambda>pw. HealthStatus_evaluate pw False = HealthWarning)
       [PowerMetrics_default\<lparr>pw_undervoltage_since_boot := Some True\<rparr>,
        PowerMetrics_default\<lparr>pw_arm_frequency_capped_since_boot := Some True\<rparr>,
        PowerMetrics_default\<lparr>pw_throttled_since_boot := Some True\<rparr>,
        PowerMetrics_default\<lparr>pw_soft_temperature_limit_since_boot := Some True\<rparr>]"

lemma every_power_flag_has_the_expected_health_effect: "every_power_flag_has_the_expected_health_effect"
  by (simp add: every_power_flag_has_the_expected_health_effect_def state_eval)

definition explicit_false_and_unknown_flags_are_not_problems :: bool where
  "explicit_false_and_unknown_flags_are_not_problems \<longleftrightarrow>
     (let pw = PowerMetrics_default
            \<lparr>pw_undervoltage_now := Some False, pw_undervoltage_since_boot := Some False\<rparr>
      in \<not> has_current_problem pw \<and> \<not> has_historical_problem pw \<and>
         HealthStatus_evaluate pw False = HealthOk)"

lemma explicit_false_and_unknown_flags_are_not_problems:
  "explicit_false_and_unknown_flags_are_not_problems"
  by (simp add: explicit_false_and_unknown_flags_are_not_problems_def state_eval)

definition refresh_health_uses_changed_power_and_existing_errors :: bool where
  "refresh_health_uses_changed_power_and_existing_errors \<longleftrightarrow>
     (let state = TelemetryState_new observation_time (TelemetryReadings_unavailable (lit ''/''))
            [CollectorError_new (lit ''temperature'') (lit ''sensor unavailable'')] 1;
          changed = state\<lparr>st_power := (st_power state)\<lparr>pw_undervoltage_now := Some True\<rparr>\<rparr>
      in h_status (st_health state) = HealthDegraded \<and>
         h_status (st_health (refresh_health changed)) = HealthCritical)"

lemma refresh_health_uses_changed_power_and_existing_errors:
  "refresh_health_uses_changed_power_and_existing_errors"
  by (simp add: refresh_health_uses_changed_power_and_existing_errors_def refresh_health_def
      refresh_status_def state_eval)

definition non_finite_measurements_cannot_be_serialized :: bool where
  "non_finite_measurements_cannot_be_serialized \<longleftrightarrow>
     list_all (\<lambda>invalid.
       let readings = TelemetryReadings_unavailable (lit ''/'');
           readings = readings\<lparr>rd_cpu := (rd_cpu readings)\<lparr>cpu_usage_percent := Some invalid\<rparr>\<rparr>
       in err_and (TelemetryState_serialize text_time (TelemetryState_new observation_time readings [] 1))
            (\<lambda>error. str_contains error (lit ''measurement must be finite'')))
       [F64_NaN, F64_Inf False, F64_Inf True]"

lemma str_contains_self: "str_contains s s"
  unfolding str_contains_iff by (rule exI [of _ "[]"], rule exI [of _ "[]"]) simp

lemma non_finite_measurements_cannot_be_serialized: "non_finite_measurements_cannot_be_serialized"
  by (simp add: non_finite_measurements_cannot_be_serialized_def observation_time_def text_time_def
      rounded_metric_def f64_is_finite_def str_contains_self state_eval serialize_eval)

definition metric_rounding_is_bounded_and_normalizes_negative_zero :: bool where
  "metric_rounding_is_bounded_and_normalizes_negative_zero \<longleftrightarrow>
     rounded_metric (f64_lit (12345 / 1000)) 2 = Some (f64_lit (1235 / 100)) \<and>
     rounded_metric (f64_lit (- 4 / 100)) 1 = Some (f64_lit 0) \<and>
     rounded_metric F64_NaN 1 = None \<and> rounded_metric (F64_Inf False) 1 = None \<and>
     rounded_metric (F64_Fin False ((2 ^ 53 - 1) * 2 ^ 971)) 1 = None \<and>
     rounded_metric (f64_lit 1) (2 ^ 32 - 1) = None"

lemma metric_rounding_is_bounded_and_normalizes_negative_zero:
  "metric_rounding_is_bounded_and_normalizes_negative_zero"
  unfolding metric_rounding_is_bounded_and_normalizes_negative_zero_def
  by (intro conjI; simp add: round_eval)

definition state_round_trips_without_changing_the_contract :: bool where
  "state_round_trips_without_changing_the_contract \<longleftrightarrow>
     ok_and (TelemetryState_serialize text_time
        (TelemetryState_new observation_time complete_readings
           [CollectorError_new (lit ''frequency'') (lit ''frequency file unavailable'')] 12)) (\<lambda>serialized.
       case TelemetryState_deserialize text_time serialized of
         None \<Rightarrow> False
       | Some actual \<Rightarrow> TelemetryState_serialize text_time actual = Inr serialized)"

lemma state_round_trips_without_changing_the_contract: "state_round_trips_without_changing_the_contract"
proof -
  let ?st = "TelemetryState_new observation_time complete_readings
    [CollectorError_new (lit ''frequency'') (lit ''frequency file unavailable'')] 12"
  have time: "time_read_back text_time (as_datetime (st_observed_at ?st))"
    by (simp add: time_read_back_def text_time_def)
  have "list_all moderate (payload_floats ?st)"
    by (simp add: payload_floats_def moderate_def TelemetryState_new_def complete_readings_def f64_eval)
  note again = state_serialized_again [OF this, of text_time]
  obtain j where "TelemetryState_serialize text_time ?st = Inr j"
    by (simp add: complete_readings_def observation_time_def text_time_def rounded_readings [simplified]
        rounded_readings state_eval serialize_eval)
  then show ?thesis
    using state_read_back [OF time] again
    by (simp add: state_round_trips_without_changing_the_contract_def)
qed

end
