(* ===== verification/Replay_Config.thy ===== *)
theory Replay_Config
  imports Replay Service_Config
begin

text \<open>
  The unit tests of \<open>src/config.rs\<close> on the model.  The TOML reader is a parameter of the model, so a
  test gives \<open>Config_parse\<close> the result the reader has for its text: the document with the fields of
  the text, or an error.  A credential file is a file system with one file.
\<close>

section \<open>The document of the tests\<close>

text \<open>The document of \<open>VALID\<close>, and a reader that yields a document.\<close>

definition VALID :: TomlDocument where
  "VALID =
     \<lparr>td_device = \<lparr>rw_id = lit ''example-pi'', rw_name = lit ''Example Raspberry Pi''\<rparr>,
      td_mqtt =
        \<lparr>tm_host = None, tm_port = None, tm_client_id = lit ''rpi-health-mqtt-example-pi'',
         tm_username = lit ''monitor-example'',
         tm_password_file = lit ''/etc/rpi-health-mqtt/mqtt-password'',
         tm_base_topic = lit ''example/monitor/example-pi'', tm_discovery_prefix = None,
         tm_keep_alive_seconds = None\<rparr>,
      td_collector = None\<rparr>"

definition parse_document :: "TomlDocument \<Rightarrow> ConfigError + Config" where
  "parse_document doc = Config_parse (\<lambda>_. Inr doc) []"

lemma parse_document: "parse_document doc = RawConfig_validate (RawConfig_of doc)"
  by (simp add: parse_document_def Config_parse_def MAX_CONFIG_BYTES_def str_len_def)

definition with_password_file :: "path \<Rightarrow> TomlDocument \<Rightarrow> TomlDocument" where
  "with_password_file p doc = doc\<lparr>td_mqtt := (td_mqtt doc)\<lparr>tm_password_file := p\<rparr>\<rparr>"

definition with_intervals :: "u64 \<Rightarrow> u64 option \<Rightarrow> TomlDocument \<Rightarrow> TomlDocument" where
  "with_intervals interval timeout doc =
     doc\<lparr>td_collector := Some \<lparr>tc_interval_seconds = Some interval, tc_root_filesystem = None,
           tc_vcgencmd_path = None, tc_command_timeout_seconds = timeout\<rparr>\<rparr>"

lemmas replay_toml =
  parse_document VALID_def with_password_file_def with_intervals_def RawConfig_of_def RawMqtt_of_def
  RawCollector_of_def RawCollector_default_def or_default_def default_host_def default_port_def
  default_discovery_prefix_def default_keep_alive_def default_interval_def default_root_def
  default_vcgencmd_def default_command_timeout_def

lemmas replay_validate =
  RawConfig_validate_def validate_identifier_def validate_text_def validate_host_def
  validate_topic_def validate_seconds_def validate_absolute_def is_absolute_def config_of_def


section \<open>Parsing\<close>

text \<open>The configuration of \<open>VALID\<close>, with the password file moved.\<close>

definition valid_config :: "path \<Rightarrow> Config" where
  "valid_config password_file =
     \<lparr>cfg_device = \<lparr>dc_id = lit ''example-pi'', dc_name = lit ''Example Raspberry Pi''\<rparr>,
      cfg_mqtt =
        \<lparr>mc_host = lit ''127.0.0.1'', mc_port = 1883, mc_client_id = lit ''rpi-health-mqtt-example-pi'',
         mc_username = lit ''monitor-example'', mc_password_file = password_file,
         mc_base_topic = lit ''example/monitor/example-pi'',
         mc_discovery_prefix = lit ''homeassistant'', mc_keep_alive = from_secs 30\<rparr>,
      cfg_collector =
        \<lparr>cc_interval = from_secs 30, cc_root_filesystem = lit ''/'',
         cc_vcgencmd_path = lit ''/usr/bin/vcgencmd'', cc_command_timeout = from_secs 2\<rparr>\<rparr>"

lemma parse_valid:
  "is_absolute p \<Longrightarrow> parse_document (with_password_file p VALID) = Inr (valid_config p)"
proof -
  assume "is_absolute p"
  then show ?thesis
    by (simp add: replay_toml valid_config_def RawConfig_validate_def validate_absolute_def)
      (simp add: replay_validate str_eval)
qed

lemma parse_valid_unchanged:
  "parse_document VALID = Inr (valid_config (lit ''/etc/rpi-health-mqtt/mqtt-password''))"
proof -
  have "with_password_file (lit ''/etc/rpi-health-mqtt/mqtt-password'') VALID = VALID"
    by (simp add: with_password_file_def VALID_def)
  then show ?thesis
    using parse_valid [of "lit ''/etc/rpi-health-mqtt/mqtt-password''"]
    by (simp add: is_absolute_def str_eval)
qed

definition valid_minimal_config_applies_safe_defaults_and_topics :: bool where
  "valid_minimal_config_applies_safe_defaults_and_topics \<longleftrightarrow>
     ok_and (parse_document VALID) (\<lambda>config.
       dc_id (cfg_device config) = lit ''example-pi'' \<and>
       mc_host (cfg_mqtt config) = lit ''127.0.0.1'' \<and> mc_port (cfg_mqtt config) = 1883 \<and>
       state_topic (cfg_mqtt config) = lit ''example/monitor/example-pi/state'' \<and>
       availability_topic (cfg_mqtt config) = lit ''example/monitor/example-pi/availability'' \<and>
       discovery_topic (cfg_mqtt config) (dc_id (cfg_device config)) =
         lit ''homeassistant/device/example-pi/config'' \<and>
       cc_interval (cfg_collector config) = from_secs 30)"

lemma valid_minimal_config_applies_safe_defaults_and_topics:
  "valid_minimal_config_applies_safe_defaults_and_topics"
  by (simp add: valid_minimal_config_applies_safe_defaults_and_topics_def parse_valid_unchanged
      valid_config_def state_topic_def availability_topic_def discovery_topic_def flip: lit_append)

text \<open>What the reader says to \<open>password = "never-repeat-this-value"\<close> in the \<open>[mqtt]\<close> table.\<close>

definition unknown_password_error :: TomlError where
  "unknown_password_error =
     \<lparr>te_message = lit ''unknown field `password`, expected one of `host`, `port`'',
      te_span_start = Some 130\<rparr>"

definition rejects_unknown_inline_secret_and_sanitizes_its_value :: bool where
  "rejects_unknown_inline_secret_and_sanitizes_its_value \<longleftrightarrow>
     err_and (Config_parse (\<lambda>_. Inl unknown_password_error)
         (lit ''password = never-repeat-this-value'')) (\<lambda>error.
       \<not> str_contains (ConfigError_display error) (lit ''never-repeat-this-value'') \<and>
       str_contains (ConfigError_display error) (lit ''unknown field''))"

lemma rejects_unknown_inline_secret_and_sanitizes_its_value:
  "rejects_unknown_inline_secret_and_sanitizes_its_value"
  by (simp add: rejects_unknown_inline_secret_and_sanitizes_its_value_def unknown_password_error_def
      Config_parse_def MAX_CONFIG_BYTES_def sanitize_toml_error_def str_eval)

definition validates_identifier_topic_duration_and_paths :: bool where
  "validates_identifier_topic_duration_and_paths \<longleftrightarrow>
     is_err (parse_document (VALID\<lparr>td_device := (td_device VALID)\<lparr>rw_id := lit ''bad/id''\<rparr>\<rparr>)) \<and>
     is_err (parse_document
       (VALID\<lparr>td_mqtt := (td_mqtt VALID)\<lparr>tm_base_topic := lit ''example/+/state''\<rparr>\<rparr>)) \<and>
     is_err (parse_document (with_password_file (lit ''relative-password'') VALID)) \<and>
     is_err (parse_document (with_intervals 4 None VALID)) \<and>
     is_err (parse_document (with_intervals 5 (Some 5) VALID))"

lemma is_err_validate:
  "is_err (RawConfig_validate r) \<longleftrightarrow> \<not> raw_ok r"
proof (cases "RawConfig_validate r")
  case (Inr c)
  then show ?thesis using validate_iff [of r c] by simp
next
  case (Inl e)
  then have "RawConfig_validate r \<noteq> Inr (config_of r)" by simp
  then show ?thesis using Inl validate_iff [of r "config_of r"] by simp
qed

lemma wildcard_topic: "\<not> concrete_topic (lit ''example/+/state'')"
  by (simp add: concrete_topic_def lit_Cons)

lemma validates_identifier_topic_duration_and_paths:
  "validates_identifier_topic_duration_and_paths"
  unfolding validates_identifier_topic_duration_and_paths_def parse_document is_err_validate
  by (intro conjI; simp add: raw_ok_def replay_toml wildcard_topic)
    (simp_all add: identifier_ok_def is_absolute_def str_eval)

lemma replicate_ascii: "list_all (\<lambda>c. c < 128) (replicate n (120 :: rchar))"
  by (simp add: list_all_iff)

lemma str_len_replicate: "str_len (replicate n 120) = n"
  by (simp add: str_len_ascii replicate_ascii)

definition rejects_unknown_sections_duplicate_fields_and_oversized_source :: bool where
  "rejects_unknown_sections_duplicate_fields_and_oversized_source \<longleftrightarrow>
     is_err (Config_parse (\<lambda>_. Inl \<lparr>te_message = lit ''unknown field `unknown`'', te_span_start = None\<rparr>)
       (line_of ''[unknown]'' @ line_of ''value = 1'')) \<and>
     is_err (Config_parse (\<lambda>_. Inl \<lparr>te_message = lit ''duplicate key'', te_span_start = None\<rparr>)
       (line_of ''username = one'' @ line_of ''username = two'')) \<and>
     Config_parse (\<lambda>_. Inr VALID) (replicate 65537 120) = Inl SourceTooLarge"

lemma rejects_unknown_sections_duplicate_fields_and_oversized_source:
  "rejects_unknown_sections_duplicate_fields_and_oversized_source"
  by (simp add: rejects_unknown_sections_duplicate_fields_and_oversized_source_def Config_parse_def
      str_len_replicate MAX_CONFIG_BYTES_def)


section \<open>Credentials\<close>

definition password_path :: path where
  "password_path = lit ''/tmp/rpi-health-mqtt-config-test/password''"

text \<open>The file system after \<open>fs::write\<close> and \<open>fs::set_permissions\<close>.\<close>

definition password_fs :: "nat list \<Rightarrow> u32 \<Rightarrow> FsLib" where
  "password_fs content mode =
     \<lparr>fs_metadata = \<lambda>p.
        if p = password_path
        then Inr \<lparr>md_is_file = True, md_len = of_nat (length content), md_mode = mode\<rparr>
        else Inl (lit ''No such file or directory''),
      fs_read_to_string = \<lambda>p. Inl (lit ''No such file or directory''),
      fs_read = \<lambda>p. if p = password_path then Inr content else Inl (lit ''No such file or directory'')\<rparr>"

definition load_with :: "nat list \<Rightarrow> u32 \<Rightarrow> (ConfigError + MqttCredentials \<Rightarrow> bool) \<Rightarrow> bool" where
  "load_with content mode P =
     ok_and (parse_document (with_password_file password_path VALID))
       (\<lambda>config. P (MqttCredentials_load (password_fs content mode) (cfg_mqtt config)))"

lemma password_path_absolute: "is_absolute password_path"
  by (simp add: is_absolute_def password_path_def str_eval)

lemma load_with:
  "load_with content mode P =
     P (MqttCredentials_load (password_fs content mode) (cfg_mqtt (valid_config password_path)))"
  by (simp add: load_with_def parse_valid [OF password_path_absolute])

lemma valid_config_mqtt:
  "mc_password_file (cfg_mqtt (valid_config p)) = p"
  "mc_username (cfg_mqtt (valid_config p)) = lit ''monitor-example''"
  by (simp_all add: valid_config_def)

lemma load_password:
  "MqttCredentials_load (password_fs content mode) (cfg_mqtt (valid_config password_path)) =
     (if 65536 < unat (of_nat (length content) :: u64) then Inl (CredentialTooLarge password_path)
      else if mode AND 23 \<noteq> 0 then Inl (CredentialPermissions password_path)
      else and_then (ok_or (from_utf8 content) (CredentialEncoding password_path)) (\<lambda>text.
        let password = strip_final_newline text in
        if password = [] then Inl (CredentialEmpty password_path)
        else if 65535 < str_len password then Inl (CredentialTooLong password_path)
        else Inr \<lparr>cr_username = lit ''monitor-example'', cr_password = password\<rparr>))"
  unfolding MqttCredentials_load_def password_fs_def valid_config_mqtt MAX_PASSWORD_BYTES_def
    validate_secret_permissions_def Let_def
  by simp

definition sentinel :: rstr where
  "sentinel = lit ''fixture-secret'' @ [10] @ lit ''kept''"

definition credential_debug_is_redacted_and_one_line_ending_is_removed :: bool where
  "credential_debug_is_redacted_and_one_line_ending_is_removed \<longleftrightarrow>
     load_with (str_bytes (sentinel @ [13, 10])) 0x1A0 (\<lambda>r. ok_and r (\<lambda>credentials.
       cr_password credentials = sentinel \<and>
       lit ''[REDACTED]'' \<in> snd ` set (MqttCredentials_debug credentials) \<and>
       list_all (\<lambda>(_, value). \<not> str_contains value sentinel) (MqttCredentials_debug credentials)))"

lemma credential_debug_is_redacted_and_one_line_ending_is_removed:
  "credential_debug_is_redacted_and_one_line_ending_is_removed"
  unfolding credential_debug_is_redacted_and_one_line_ending_is_removed_def load_with load_password
  by (simp add: sentinel_def strip_final_newline_def MqttCredentials_debug_def str_eval)

definition credential_permissions_reject_every_other_user_bit :: bool where
  "credential_permissions_reject_every_other_user_bit \<longleftrightarrow>
     load_with (str_bytes (line_of ''fixture-secret'')) 0x1A1
       (\<lambda>r. r = Inl (CredentialPermissions password_path)) \<and>
     load_with (str_bytes (line_of ''fixture-secret'')) 0x1A0 is_ok"

lemma credential_permissions_reject_every_other_user_bit:
  "credential_permissions_reject_every_other_user_bit"
  unfolding credential_permissions_reject_every_other_user_bit_def load_with load_password
  by (simp add: line_of_def strip_final_newline_def str_eval)

definition canary :: rstr where
  "canary = lit ''credential-length-canary-never-render''"

definition credential_length_is_checked_after_removing_the_final_line_ending :: bool where
  "credential_length_is_checked_after_removing_the_final_line_ending \<longleftrightarrow>
     load_with (replicate 65535 120) 0x1A0 (\<lambda>r. ok_and r (\<lambda>c. str_len (cr_password c) = 65535)) \<and>
     load_with (replicate 65535 120 @ [10]) 0x1A0
       (\<lambda>r. ok_and r (\<lambda>c. str_len (cr_password c) = 65535)) \<and>
     load_with (replicate (65536 - str_len canary) 120 @ str_bytes canary) 0x1A0 (\<lambda>r. err_and r (\<lambda>error.
       error = CredentialTooLong password_path \<and>
       \<not> str_contains (ConfigError_display error) canary))"

lemma strip_no_newline: "s \<noteq> [] \<Longrightarrow> last s \<noteq> 10 \<Longrightarrow> strip_final_newline s = s"
  by (auto simp: strip_final_newline_def ends_with_iff)

lemma strip_newline: "last s \<noteq> 13 \<Longrightarrow> s \<noteq> [] \<Longrightarrow> strip_final_newline (s @ [10]) = s"
  by (cases s rule: rev_cases) (auto simp: strip_final_newline_def ends_with_iff butlast_append)

lemma from_utf8_ascii: "list_all (\<lambda>c. c < 128) s \<Longrightarrow> from_utf8 s = Some s"
proof -
  assume a: "list_all (\<lambda>c. c < 128) s"
  then have "valid_str s" by (auto simp: valid_str_def is_scalar_def list_all_iff)
  then show ?thesis using from_utf8_str_bytes [of s] str_bytes_ascii [OF a] by simp
qed

lemma canary_ascii: "list_all (\<lambda>c. c < 128) canary" "length canary = 37" "canary \<noteq> []" "last canary = 114"
  by (simp_all add: canary_def lit_Cons)

lemma load_ascii:
  assumes "length content \<le> 65536" "list_all (\<lambda>c. c < 128) content" "mode AND 23 = 0"
    "strip_final_newline content \<noteq> []"
  shows "load_with content mode P =
    P (if 65535 < length (strip_final_newline content) then Inl (CredentialTooLong password_path)
       else Inr \<lparr>cr_username = lit ''monitor-example'', cr_password = strip_final_newline content\<rparr>)"
proof -
  have "unat (of_nat (length content) :: u64) = length content"
    using assms(1) by (simp add: unsigned_of_nat take_bit_nat_eq_self_iff)
  moreover have "list_all (\<lambda>c. c < 128) (strip_final_newline content)"
    using strip_final_newline_split [of content] assms(2) by (metis list_all_append)
  ultimately show ?thesis
    using assms by (simp add: load_with load_password from_utf8_ascii str_len_ascii)
qed

lemma credential_length_is_checked_after_removing_the_final_line_ending:
  "credential_length_is_checked_after_removing_the_final_line_ending"
proof -
  have nz: "replicate 65535 (120 :: nat) \<noteq> []" "last (replicate 65535 (120 :: nat)) = 120"
    by simp_all
  have "str_len canary = 37" "str_bytes canary = canary"
    by (simp_all add: str_len_ascii str_bytes_ascii canary_ascii)
  moreover have "\<not> str_contains (ConfigError_display (CredentialTooLong password_path)) canary"
    by (simp add: password_path_def canary_def str_eval)
  ultimately show ?thesis
    unfolding credential_length_is_checked_after_removing_the_final_line_ending_def
    using nz by (simp add: load_ascii strip_no_newline strip_newline replicate_ascii str_len_replicate
        canary_ascii)
qed

end
