(* ===== verification/Replay_Discovery.thy ===== *)
theory Replay_Discovery
  imports Replay Discovery "HOL-Library.Multiset"
begin

text \<open>
  The unit tests of \<open>src/discovery.rs\<close> on the model.  The tests read the payload back with
  \<open>serde_json\<close>, which is not part of the repository: here they look at the document the payload is
  made of.  A fact about every component is evaluated on the table of definitions, of which the
  components of the document are a permutation.
\<close>

definition EXPECTED_COMPONENTS :: "rstr list" where
  "EXPECTED_COMPONENTS =
     [lit ''health_status'', lit ''cpu_temperature'', lit ''cpu_usage'', lit ''load_1'', lit ''load_5'',
      lit ''load_15'', lit ''cpu_frequency'', lit ''memory_usage'', lit ''memory_available'',
      lit ''swap_usage'', lit ''swap_used'', lit ''disk_usage'', lit ''disk_available'', lit ''uptime'',
      lit ''last_observation'', lit ''throttled_raw'', lit ''collection_duration'',
      lit ''collector_error_count'', lit ''undervoltage_now'', lit ''undervoltage_since_boot'',
      lit ''throttled_now'', lit ''throttled_since_boot'', lit ''arm_frequency_capped_now'',
      lit ''arm_frequency_capped_since_boot'', lit ''soft_temperature_limit_now'',
      lit ''soft_temperature_limit_since_boot'']"

definition ENABLED_COMPONENTS :: "rstr list" where
  "ENABLED_COMPONENTS =
     [lit ''health_status'', lit ''cpu_temperature'', lit ''cpu_usage'', lit ''memory_usage'',
      lit ''swap_usage'', lit ''disk_usage'', lit ''disk_available'', lit ''uptime'',
      lit ''undervoltage_now'', lit ''undervoltage_since_boot'', lit ''throttled_now'',
      lit ''throttled_since_boot'']"

definition settings :: "nat \<Rightarrow> DiscoverySettings" where
  "settings interval_seconds =
     DiscoverySettings_new (lit ''Lab-Node_7'') (lit ''Laboratory node'')
       (lit ''building/monitor/Lab-Node_7/'') (lit ''homeassistant/'') (from_secs interval_seconds)"

definition document :: "nat \<Rightarrow> json" where
  "document interval_seconds = discovery_document (settings interval_seconds)"

text \<open>\<open>value[key]\<close>: \<open>null\<close> when the key is missing.\<close>

definition index :: "json \<Rightarrow> string \<Rightarrow> json" where
  "index j key = (case json_get j (lit key) of Some v \<Rightarrow> v | None \<Rightarrow> JNull)"

definition components :: "json \<Rightarrow> (rstr \<times> json) list" where
  "components doc = (case index doc ''components'' of JObj kvs \<Rightarrow> kvs | _ \<Rightarrow> [])"


section \<open>The components of the document\<close>

text \<open>The components in the order of the table.\<close>

definition table_components :: "nat \<Rightarrow> (rstr \<times> json) list" where
  "table_components interval_seconds =
     map (\<lambda>d. (cd_key d, ComponentConfig_json (to_config d (settings interval_seconds) (lit ''lab_node_7''))))
       COMPONENT_DEFINITIONS"

lemma slug: "normalize_device_slug (ds_device_id (settings n)) = lit ''lab_node_7''"
  by (simp add: settings_def DiscoverySettings_new_def normalize_device_slug_def str_eval)

lemma document_components:
  "components (document n) = map (\<lambda>(k, c). (k, ComponentConfig_json c)) (build_components (settings n))"
  by (simp add: components_def document_def index_def discovery_document_def)

lemma components_permuted: "mset (components (document n)) = mset (table_components n)"
proof -
  let ?kvs = "map (\<lambda>d. (cd_key d, to_config d (settings n) (lit ''lab_node_7''))) COMPONENT_DEFINITIONS"
  note complete = build_components_complete [of "settings n", unfolded slug]
  have dist: "distinct (map fst (build_components (settings n)))" "distinct (map fst ?kvs)"
    using complete distinct_cd_keys by (auto simp: build_components_def distinct_btree_collect Let_def comp_def)
  have "set (build_components (settings n)) = set ?kvs"
    using complete map_of_inject_set [OF dist] by simp
  then have "mset (build_components (settings n)) = mset ?kvs"
    using set_eq_iff_mset_eq_distinct dist distinct_map by blast
  then have "mset (map (\<lambda>(k, c). (k, ComponentConfig_json c)) (build_components (settings n))) =
      mset (map (\<lambda>(k, c). (k, ComponentConfig_json c)) ?kvs)"
    by (simp only: mset_map)
  then show ?thesis unfolding document_components table_components_def by (simp add: comp_def)
qed

lemma components_keys: "map fst (table_components n) = EXPECTED_COMPONENTS"
proof -
  have "map fst (table_components n) = map cd_key COMPONENT_DEFINITIONS"
    by (simp add: table_components_def)
  then show ?thesis unfolding component_keys by (simp add: component_keys_def EXPECTED_COMPONENTS_def)
qed

lemma components_set: "set (components (document n)) = set (table_components n)"
  using components_permuted mset_eq_setD by blast

lemma components_filter:
  "length (filter P (components (document n))) = length (filter P (table_components n))"
  using components_permuted by (metis mset_filter size_mset)

lemma components_distinct:
  "distinct (map f (components (document n))) = distinct (map f (table_components n))"
  using components_permuted by (metis mset_eq_imp_distinct_iff mset_map)

lemma components_lookup: "map_of (components (document n)) = map_of (table_components n)"
proof -
  have "distinct (map fst (table_components n))"
    unfolding components_keys by (simp add: EXPECTED_COMPONENTS_def)
  then show ?thesis
    using components_set map_of_inject_set components_distinct [of fst] by blast
qed

lemmas replay_table = table_components_def component_table on_off_template_def


section \<open>Topics and metadata\<close>

definition message_uses_the_device_discovery_topic_and_shared_topics :: "(json \<Rightarrow> rstr) \<Rightarrow> bool" where
  "message_uses_the_device_discovery_topic_and_shared_topics to_text \<longleftrightarrow>
     ok_and (build_discovery_message (\<lambda>j. Inr (to_text j)) (settings 30)) (\<lambda>message.
       let payload = document 30 in
       dm_payload message = to_text payload \<and>
       dm_topic message = lit ''homeassistant/device/Lab-Node_7/config'' \<and>
       index payload ''state_topic'' = JStr (lit ''building/monitor/Lab-Node_7/state'') \<and>
       index payload ''availability_topic'' = JStr (lit ''building/monitor/Lab-Node_7/availability'') \<and>
       index payload ''payload_available'' = JStr (lit ''online'') \<and>
       index payload ''payload_not_available'' = JStr (lit ''offline'') \<and>
       index payload ''qos'' = JU64 0)"

lemmas replay_document =
  document_def discovery_document_def device_info_json_def skip_none_def index_def settings_def
  DiscoverySettings_new_def MANUFACTURER_def ORIGIN_NAME_def SOFTWARE_VERSION_def
  ONLINE_PAYLOAD_def OFFLINE_PAYLOAD_def

lemmas replay_topics =
  ds_discovery_topic_def ds_state_topic_def ds_availability_topic_def child_topic_def
  trim_slashes_def

lemma message_uses_the_device_discovery_topic_and_shared_topics:
  "message_uses_the_device_discovery_topic_and_shared_topics to_text"
  by (simp add: message_uses_the_device_discovery_topic_and_shared_topics_def
      build_discovery_message_def replay_document) (simp add: replay_topics str_eval)

text \<open>\<open>assert_no_json_null\<close>.\<close>

fun no_json_null :: "json \<Rightarrow> bool" where
  "no_json_null JNull = False"
| "no_json_null (JArr js) = (\<forall>j \<in> set js. no_json_null j)"
| "no_json_null (JObj kvs) = (\<forall>kv \<in> set kvs. no_json_null (snd kv))"
| "no_json_null _ = True"

definition required_metadata_is_present_and_optional_metadata_is_omitted :: bool where
  "required_metadata_is_present_and_optional_metadata_is_omitted \<longleftrightarrow>
     (let payload = document 30; device = index payload ''device''; origin = index payload ''origin''
      in index device ''identifiers'' = JArr [JStr (lit ''Lab-Node_7'')] \<and>
         index device ''name'' = JStr (lit ''Laboratory node'') \<and>
         index device ''manufacturer'' = JStr (lit ''Raspberry Pi'') \<and>
         index device ''sw_version'' = JStr SOFTWARE_VERSION \<and>
         json_get device (lit ''model'') = None \<and> json_get device (lit ''serial_number'') = None \<and>
         json_get device (lit ''hw_version'') = None \<and>
         index origin ''name'' = JStr ORIGIN_NAME \<and>
         index origin ''sw_version'' = JStr SOFTWARE_VERSION \<and>
         json_get origin (lit ''support_url'') = None \<and> no_json_null payload)"

lemma component_no_null: "no_json_null (ComponentConfig_json c)"
  by (auto simp: ComponentConfig_json_def skip_none_def split: option.splits)

lemma required_metadata_is_present_and_optional_metadata_is_omitted:
  "required_metadata_is_present_and_optional_metadata_is_omitted"
  by (auto simp: required_metadata_is_present_and_optional_metadata_is_omitted_def replay_document
      component_no_null)

definition optional_device_metadata_is_emitted_when_available :: bool where
  "optional_device_metadata_is_emitted_when_available \<longleftrightarrow>
     (let settings = with_hardware_version (lit ''Revision A'') (with_serial_number (lit ''00000001'')
            (with_model (lit ''Single-board computer'') (settings 30)));
          device = index (discovery_document settings) ''device''
      in index device ''model'' = JStr (lit ''Single-board computer'') \<and>
         index device ''serial_number'' = JStr (lit ''00000001'') \<and>
         index device ''hw_version'' = JStr (lit ''Revision A''))"

lemma optional_device_metadata_is_emitted_when_available:
  "optional_device_metadata_is_emitted_when_available"
  by (simp add: optional_device_metadata_is_emitted_when_available_def replay_document
      with_hardware_version_def with_serial_number_def with_model_def)

definition serialization_is_deterministic_and_component_keys_are_sorted :: bool where
  "serialization_is_deterministic_and_component_keys_are_sorted \<longleftrightarrow>
     (let actual_keys = map fst (components (document 30)) in
      build_discovery_message (\<lambda>_. Inr []) (settings 30) = build_discovery_message (\<lambda>_. Inr []) (settings 30) \<and>
      sorted_wrt str_less actual_keys)"

lemma serialization_is_deterministic_and_component_keys_are_sorted:
  "serialization_is_deterministic_and_component_keys_are_sorted"
  using build_components_complete [of "settings 30"]
  by (simp add: serialization_is_deterministic_and_component_keys_are_sorted_def document_components
      comp_def case_prod_beta)


section \<open>Every component\<close>

definition enabled :: "rstr \<times> json \<Rightarrow> bool" where
  "enabled kc \<longleftrightarrow> index (snd kc) ''enabled_by_default'' = JBool True"

definition component_set_and_default_enablement_are_exact :: bool where
  "component_set_and_default_enablement_are_exact \<longleftrightarrow>
     (let components = components (document 30);
          actual_enabled = map fst (filter enabled components)
      in list_all (\<lambda>(_, c). case index c ''enabled_by_default'' of JBool _ \<Rightarrow> True | _ \<Rightarrow> False) components \<and>
         length components = 26 \<and> set (map fst components) = set EXPECTED_COMPONENTS \<and>
         set actual_enabled = set ENABLED_COMPONENTS \<and> length actual_enabled = 12 \<and>
         length components - length actual_enabled = 14)"

lemma skip_none_lookup:
  "map_of (skip_none name f v @ kvs) k =
     (if k = lit name \<and> v \<noteq> None then map_option f v else map_of kvs k)"
  by (cases v) (auto simp: skip_none_def)

lemma component_index:
  "index (ComponentConfig_json c) ''enabled_by_default'' = JBool (co_enabled_by_default c)"
  "index (ComponentConfig_json c) ''platform'' = JStr (co_platform c)"
  "index (ComponentConfig_json c) ''unique_id'' = JStr (co_unique_id c)"
  "index (ComponentConfig_json c) ''default_entity_id'' = JStr (co_default_entity_id c)"
  "index (ComponentConfig_json c) ''entity_category'' = JStr (co_entity_category c)"
  "index (ComponentConfig_json c) ''name'' = JStr (co_name c)"
  "index (ComponentConfig_json c) ''expire_after'' = JU64 (unat (co_expire_after c))"
  "index (ComponentConfig_json c) ''value_template'' = JStr (co_value_template c)"
  "json_get (ComponentConfig_json c) (lit ''device_class'') = map_option JStr (co_device_class c)"
  "json_get (ComponentConfig_json c) (lit ''state_class'') = map_option JStr (co_state_class c)"
  "json_get (ComponentConfig_json c) (lit ''unit_of_measurement'') =
     map_option JStr (co_unit_of_measurement c)"
  "json_get (ComponentConfig_json c) (lit ''suggested_display_precision'') =
     map_option JU64 (co_suggested_display_precision c)"
  "json_get (ComponentConfig_json c) (lit ''options'') =
     map_option (\<lambda>os. JArr (map JStr os)) (co_options c)"
  "json_get (ComponentConfig_json c) (lit ''payload_on'') = map_option JStr (co_payload_on c)"
  "json_get (ComponentConfig_json c) (lit ''payload_off'') = map_option JStr (co_payload_off c)"
  by (auto simp: ComponentConfig_json_def index_def skip_none_lookup simp del: map_of_append)

lemma components_size: "length (components (document n)) = 26"
  using components_filter [of "\<lambda>_. True" n] by (simp add: table_components_def component_table)

lemma components_enabled:
  "map fst (filter enabled (table_components n)) = ENABLED_COMPONENTS"
proof -
  have "map fst (filter enabled (table_components n)) =
      map cd_key (filter cd_enabled_by_default COMPONENT_DEFINITIONS)"
    by (simp add: table_components_def filter_map comp_def enabled_def component_index to_config_def)
  then show ?thesis by (simp add: component_table ENABLED_COMPONENTS_def)
qed

lemma component_set_and_default_enablement_are_exact: "component_set_and_default_enablement_are_exact"
proof -
  have all: "list_all (\<lambda>(_, c). case index c ''enabled_by_default'' of JBool _ \<Rightarrow> True | _ \<Rightarrow> False)
      (components (document 30))"
    unfolding list_all_iff components_set by (auto simp: table_components_def component_index)
  have "set (map fst (components (document 30))) = set EXPECTED_COMPONENTS"
    unfolding components_keys [of 30, symmetric] set_map components_set ..
  moreover have "set (map fst (filter enabled (components (document 30)))) = set ENABLED_COMPONENTS"
    unfolding components_enabled [of 30, symmetric] set_map set_filter components_set ..
  moreover have "length (filter enabled (components (document 30))) = 12"
    using arg_cong [OF components_enabled [of 30], of length]
    by (simp add: components_filter ENABLED_COMPONENTS_def)
  ultimately show ?thesis
    using all by (simp add: component_set_and_default_enablement_are_exact_def components_size)
qed

definition platform_is :: "string \<Rightarrow> rstr \<times> json \<Rightarrow> bool" where
  "platform_is p kc \<longleftrightarrow> index (snd kc) ''platform'' = JStr (lit p)"

text \<open>The assertions of the loop, for one component.\<close>

definition stable_ids :: "rstr \<times> json \<Rightarrow> bool" where
  "stable_ids kc \<longleftrightarrow>
     (case kc of (key, component) \<Rightarrow>
        (case (index component ''platform'', index component ''name'') of
           (JStr platform, JStr name) \<Rightarrow>
             platform \<in> {lit ''sensor'', lit ''binary_sensor''} \<and> name \<noteq> [] \<and>
             index component ''unique_id'' = JStr (lit ''Lab-Node_7_'' @ key) \<and>
             index component ''default_entity_id'' = JStr (platform @ lit ''.lab_node_7_'' @ key) \<and>
             index component ''entity_category'' = JStr (lit ''diagnostic'')
         | _ \<Rightarrow> False))"

definition every_component_has_stable_unique_and_default_entity_ids :: bool where
  "every_component_has_stable_unique_and_default_entity_ids \<longleftrightarrow>
     (let components = components (document 30) in
      list_all stable_ids components \<and>
      distinct (map (\<lambda>kc. index (snd kc) ''unique_id'') components) \<and>
      distinct (map (\<lambda>kc. index (snd kc) ''default_entity_id'') components) \<and>
      length (filter (platform_is ''sensor'') components) = 18 \<and>
      length (filter (platform_is ''binary_sensor'') components) = 8)"

lemma every_component_has_stable_unique_and_default_entity_ids:
  "every_component_has_stable_unique_and_default_entity_ids"
proof -
  have names: "list_all (\<lambda>d. cd_name d \<noteq> []) COMPONENT_DEFINITIONS" by (simp add: component_table lit_Cons)
  have plat: "Platform_as_str p = lit ''sensor'' \<or> Platform_as_str p = lit ''binary_sensor''" for p
    by (cases p) simp_all
  have "list_all stable_ids (table_components 30)"
    using names plat by (auto simp: table_components_def list_all_iff stable_ids_def component_index
        to_config_def settings_def DiscoverySettings_new_def simp flip: lit_append)
  then have ids: "list_all stable_ids (components (document 30))"
    unfolding list_all_iff components_set .
  have keys: "distinct (map cd_key COMPONENT_DEFINITIONS)" by (rule distinct_cd_keys)
  then have "distinct (map (\<lambda>kc. index (snd kc) ''unique_id'') (components (document 30)))"
    unfolding components_distinct
    by (auto simp: table_components_def component_index to_config_def distinct_map inj_on_def)
  moreover have "distinct (map (\<lambda>d. Platform_as_str (cd_platform d) @ lit ''.'' @ lit ''lab_node_7'' @ lit ''_'' @ cd_key d)
      COMPONENT_DEFINITIONS)"
    by (simp add: component_table flip: lit_append)
  then have "distinct (map (\<lambda>kc. index (snd kc) ''default_entity_id'') (components (document 30)))"
    unfolding components_distinct
    by (auto simp: table_components_def component_index to_config_def distinct_map inj_on_def)
  moreover have "length (filter (platform_is (if b then ''sensor'' else ''binary_sensor'')) (components (document n))) =
      length (filter (\<lambda>d. cd_platform d = (if b then Sensor else BinarySensor)) COMPONENT_DEFINITIONS)" for b n
    unfolding components_filter table_components_def filter_map length_map
    by (intro arg_cong [of _ _ length] filter_cong refl)
      (auto simp: platform_is_def component_index to_config_def elim: Platform_as_str.elims)
  from this [of True] this [of False]
  have "length (filter (platform_is ''sensor'') (components (document 30))) = 18"
    "length (filter (platform_is ''binary_sensor'') (components (document 30))) = 8"
    by (simp_all add: component_table)
  ultimately show ?thesis
    using ids by (simp add: every_component_has_stable_unique_and_default_entity_ids_def)
qed

definition duration_max :: duration where
  "duration_max = (2 ^ 64 - 1) * 1000000000 + 999999999"

definition expiry_is_uniform_and_obeys_the_minimum :: bool where
  "expiry_is_uniform_and_obeys_the_minimum \<longleftrightarrow>
     list_all (\<lambda>(interval, expected_expiry).
        list_all (\<lambda>(_, component). index component ''expire_after'' = JU64 expected_expiry)
          (components (document interval)))
       [(1, 90), (30, 90), (31, 93), (60, 180)] \<and>
     expire_after_seconds ((settings 1)\<lparr>ds_interval := duration_max\<rparr>) = - 1"

lemma settings_expiry:
  "n < 2 ^ 64 \<Longrightarrow> unat (expire_after_seconds (settings n)) = max 90 (min (2 ^ 64 - 1) (3 * n))"
  by (simp add: expire_after_three_intervals settings_def DiscoverySettings_new_def as_secs_def from_secs_def)

lemma expiry_is_uniform_and_obeys_the_minimum: "expiry_is_uniform_and_obeys_the_minimum"
proof -
  have "list_all (\<lambda>(_, component). index component ''expire_after'' = JU64 (max 90 (min (2 ^ 64 - 1) (3 * n))))
      (components (document n))" if "n < 2 ^ 64" for n
    unfolding list_all_iff components_set settings_expiry [OF that, symmetric]
    by (auto simp: table_components_def component_index to_config_def)
  from this [of 1] this [of 30] this [of 31] this [of 60]
  have all: "list_all (\<lambda>(interval, expected_expiry).
        list_all (\<lambda>(_, component). index component ''expire_after'' = JU64 expected_expiry)
          (components (document interval)))
       [(1, 90), (30, 90), (31, 93), (60, 180)]" by simp
  have "unat (expire_after_seconds ((settings 1)\<lparr>ds_interval := duration_max\<rparr>)) = 2 ^ 64 - 1"
    by (simp add: expire_after_three_intervals as_secs_def duration_max_def)
  moreover have "unat (- 1 :: u64) = 2 ^ 64 - 1" using unat_max_word [where 'a = 64] by simp
  ultimately have "unat (expire_after_seconds ((settings 1)\<lparr>ds_interval := duration_max\<rparr>)) = unat (- 1 :: u64)"
    by (simp only:)
  then have "expire_after_seconds ((settings 1)\<lparr>ds_interval := duration_max\<rparr>) = - 1"
    by (simp only: word_unat_eq_iff)
  with all show ?thesis unfolding expiry_is_uniform_and_obeys_the_minimum_def by blast
qed


section \<open>Templates and metadata of components\<close>

definition component :: "string \<Rightarrow> json" where
  "component key = (case map_of (components (document 30)) (lit key) of Some c \<Rightarrow> c | None \<Rightarrow> JNull)"

definition template_of :: "string \<Rightarrow> rstr" where
  "template_of key = (case index (component key) ''value_template'' of JStr t \<Rightarrow> t | _ \<Rightarrow> [])"

lemma component_table_entry:
  "component key =
     (case map_of (map (\<lambda>d. (cd_key d, d)) COMPONENT_DEFINITIONS) (lit key) of
        Some d \<Rightarrow> ComponentConfig_json (to_config d (settings 30) (lit ''lab_node_7''))
      | None \<Rightarrow> JNull)"
proof -
  have "map_of (map (\<lambda>d. (cd_key d, F d)) ds) k =
      map_option F (map_of (map (\<lambda>d. (cd_key d, d)) ds) k)" for F :: "ComponentDefinition \<Rightarrow> json" and ds k
    by (induction ds) auto
  then show ?thesis
    unfolding component_def components_lookup table_components_def by (simp split: option.split)
qed

lemma template_of_entry:
  "template_of key =
     (case map_of (map (\<lambda>d. (cd_key d, d)) COMPONENT_DEFINITIONS) (lit key) of
        Some d \<Rightarrow> cd_value_template d | None \<Rightarrow> [])"
proof -
  have "index JNull ''value_template'' = JNull" by (simp add: index_def)
  then show ?thesis
    by (simp add: template_of_def component_table_entry component_index to_config_def split: option.split)
qed

definition nullable_sensor_templates_preserve_unknown_values_and_conversions :: bool where
  "nullable_sensor_templates_preserve_unknown_values_and_conversions \<longleftrightarrow>
     list_all (\<lambda>key. str_contains (template_of key) (lit '' is not none else none''))
       [''cpu_temperature'', ''cpu_usage'', ''load_1'', ''load_5'', ''load_15'', ''cpu_frequency'',
        ''memory_usage'', ''memory_available'', ''swap_usage'', ''swap_used'', ''disk_usage'',
        ''disk_available'', ''uptime'', ''throttled_raw''] \<and>
     template_of ''memory_available'' =
       lit ''{{ ((value_json.memory.available_bytes / 1073741824) | round(2)) if'' @
       lit '' value_json.memory.available_bytes is not none else none }}'' \<and>
     template_of ''swap_used'' =
       lit ''{{ ((value_json.swap.used_bytes / 1048576) | round(1)) if'' @
       lit '' value_json.swap.used_bytes is not none else none }}'' \<and>
     template_of ''disk_available'' =
       lit ''{{ ((value_json.disk.available_bytes / 1073741824) | round(2)) if'' @
       lit '' value_json.disk.available_bytes is not none else none }}''"

definition non_nullable_templates_follow_the_state_schema :: bool where
  "non_nullable_templates_follow_the_state_schema \<longleftrightarrow>
     template_of ''health_status'' = lit ''{{ value_json.health.status }}'' \<and>
     template_of ''last_observation'' = lit ''{{ value_json.observed_at }}'' \<and>
     template_of ''collection_duration'' = lit ''{{ value_json.service.collection_duration_ms }}'' \<and>
     template_of ''collector_error_count'' = lit ''{{ value_json.health.collector_errors | count }}''"

lemmas replay_entry = template_of_entry component_table_entry component_table on_off_template_def

text \<open>A search on the literals, which the simplifier evaluates without the code points.\<close>

fun text_contains :: "string \<Rightarrow> string \<Rightarrow> bool" where
  "text_contains [] p \<longleftrightarrow> p = []"
| "text_contains (c # s) p \<longleftrightarrow> take (length p) (c # s) = p \<or> text_contains s p"

lemma str_contains_lit: "text_contains s p \<Longrightarrow> str_contains (lit s) (lit p)"
proof (induction s)
  case (Cons c s)
  show ?case
  proof (cases "take (length p) (c # s) = p")
    case True
    then have "lit (c # s) = [] @ lit p @ lit (drop (length p) (c # s))"
      by (metis append_Nil append_take_drop_id lit_append)
    then show ?thesis unfolding str_contains_iff by blast
  next
    case False
    then obtain a b where "lit s = a @ lit p @ b"
      using Cons unfolding str_contains_iff by auto
    then have "lit (c # s) = (of_char c # a) @ lit p @ b" by (simp add: lit_Cons)
    then show ?thesis unfolding str_contains_iff by blast
  qed
qed simp

lemma nullable_templates:
  "list_all (\<lambda>d. cd_key d \<in> lit ` {''health_status'', ''last_observation'', ''collection_duration'',
       ''collector_error_count''} \<or>
     str_contains (cd_value_template d) (lit '' is not none else none''))
   (CPU_COMPONENTS @ RESOURCE_COMPONENTS)"
  by (simp add: CPU_COMPONENTS_def RESOURCE_COMPONENTS_def sensor_def str_contains_lit flip: lit_append)

lemma template_of_key:
  assumes "d \<in> set COMPONENT_DEFINITIONS" "cd_key d = lit k"
  shows "template_of k = cd_value_template d"
proof -
  have "distinct (map fst (map (\<lambda>d. (cd_key d, d)) COMPONENT_DEFINITIONS))"
    using distinct_cd_keys by (simp add: comp_def)
  then have "map_of (map (\<lambda>d. (cd_key d, d)) COMPONENT_DEFINITIONS) (cd_key d) = Some d"
    using assms(1) by (intro map_of_is_SomeI) auto
  then show ?thesis using assms(2) by (simp add: template_of_entry)
qed

lemma nullable_keys:
  "list_all (\<lambda>k. lit k \<in> set (map cd_key (CPU_COMPONENTS @ RESOURCE_COMPONENTS)))
     [''cpu_temperature'', ''cpu_usage'', ''load_1'', ''load_5'', ''load_15'', ''cpu_frequency'',
      ''memory_usage'', ''memory_available'', ''swap_usage'', ''swap_used'', ''disk_usage'',
      ''disk_available'', ''uptime'', ''throttled_raw'']"
  by (simp add: CPU_COMPONENTS_def RESOURCE_COMPONENTS_def sensor_def)

lemma nullable_sensor_templates_preserve_unknown_values_and_conversions:
  "nullable_sensor_templates_preserve_unknown_values_and_conversions"
proof -
  let ?bad = "{''health_status'', ''last_observation'', ''collection_duration'', ''collector_error_count''}"
  have "str_contains (template_of k) (lit '' is not none else none'')"
    if key: "lit k \<in> set (map cd_key (CPU_COMPONENTS @ RESOURCE_COMPONENTS))" "k \<notin> ?bad" for k
  proof -
    obtain d where d: "d \<in> set (CPU_COMPONENTS @ RESOURCE_COMPONENTS)" "cd_key d = lit k"
      using key(1) unfolding set_map by (metis imageE)
    then have "cd_key d \<notin> lit ` ?bad" using key(2) by (auto simp del: set_append)
    then have "str_contains (cd_value_template d) (lit '' is not none else none'')"
      using nullable_templates d(1) unfolding list_all_iff by blast
    moreover have "template_of k = cd_value_template d"
      by (rule template_of_key) (use d in \<open>auto simp: COMPONENT_DEFINITIONS_def\<close>)
    ultimately show ?thesis by simp
  qed
  note contains = this
  have "list_all (\<lambda>key. str_contains (template_of key) (lit '' is not none else none''))
     [''cpu_temperature'', ''cpu_usage'', ''load_1'', ''load_5'', ''load_15'', ''cpu_frequency'',
      ''memory_usage'', ''memory_available'', ''swap_usage'', ''swap_used'', ''disk_usage'',
      ''disk_available'', ''uptime'', ''throttled_raw'']"
    using nullable_keys unfolding list.pred_inject by (intro conjI TrueI contains) simp_all
  then show ?thesis
    unfolding nullable_sensor_templates_preserve_unknown_values_and_conversions_def
    by (intro conjI) (simp_all add: replay_entry del: list.pred_inject)
qed

lemma non_nullable_templates_follow_the_state_schema: "non_nullable_templates_follow_the_state_schema"
  by (simp add: non_nullable_templates_follow_the_state_schema_def replay_entry)

text \<open>The character 39 is the quote of the templates.\<close>

definition three_states :: "rstr \<times> json \<Rightarrow> bool" where
  "three_states kc \<longleftrightarrow>
     (case index (snd kc) ''value_template'' of
        JStr template \<Rightarrow>
          str_contains template ([39] @ lit ''ON'' @ [39] @ lit '' if v is true'') \<and>
          str_contains template ([39] @ lit ''OFF'' @ [39] @ lit '' if v is false else none'') \<and>
          index (snd kc) ''payload_on'' = JStr (lit ''ON'') \<and>
          index (snd kc) ''payload_off'' = JStr (lit ''OFF'') \<and>
          index (snd kc) ''device_class'' = JStr (lit ''problem'')
      | _ \<Rightarrow> False)"

definition binary_sensor_templates_preserve_all_three_boolean_states :: bool where
  "binary_sensor_templates_preserve_all_three_boolean_states \<longleftrightarrow>
     list_all three_states (filter (platform_is ''binary_sensor'') (components (document 30)))"

lemma on_off_three_states:
  "str_contains (on_off_template p) ([39] @ lit ''ON'' @ [39] @ lit '' if v is true'')"
  "str_contains (on_off_template p) ([39] @ lit ''OFF'' @ [39] @ lit '' if v is false else none'')"
proof -
  have "on_off_template p = (lit ''{% set v = value_json.'' @ lit p @ lit '' %}{{ '') @
      ([39] @ lit ''ON'' @ [39] @ lit '' if v is true'') @ lit '' else ('OFF' if v is false else none) }}''"
    by (simp add: on_off_template_def lit_Cons)
  then show "str_contains (on_off_template p) ([39] @ lit ''ON'' @ [39] @ lit '' if v is true'')"
    unfolding str_contains_iff by blast
  have "on_off_template p = (lit ''{% set v = value_json.'' @ lit p @ lit '' %}{{ 'ON' if v is true else ('') @
      ([39] @ lit ''OFF'' @ [39] @ lit '' if v is false else none'') @ lit '') }}''"
    by (simp add: on_off_template_def lit_Cons)
  then show "str_contains (on_off_template p) ([39] @ lit ''OFF'' @ [39] @ lit '' if v is false else none'')"
    unfolding str_contains_iff by blast
qed

lemma binary_definitions:
  "list_all (\<lambda>d. cd_platform d = Sensor \<or>
     (\<exists>p. cd_value_template d = on_off_template p) \<and> cd_payload_on d = Some (lit ''ON'') \<and>
     cd_payload_off d = Some (lit ''OFF'') \<and> cd_device_class d = Some (lit ''problem''))
   COMPONENT_DEFINITIONS"
  unfolding component_table by auto

lemma binary_sensor_templates_preserve_all_three_boolean_states:
  "binary_sensor_templates_preserve_all_three_boolean_states"
proof -
  have "three_states (cd_key d, ComponentConfig_json (to_config d s slug))"
    if "d \<in> set COMPONENT_DEFINITIONS" "cd_platform d = BinarySensor" for d s slug
    using that binary_definitions on_off_three_states
    by (auto simp: list_all_iff three_states_def component_index index_def [of _ "''payload_on''"]
        index_def [of _ "''payload_off''"] index_def [of _ "''device_class''"] to_config_def)
  moreover have "platform_is ''binary_sensor'' (cd_key d, ComponentConfig_json (to_config d s slug)) \<longleftrightarrow>
      cd_platform d = BinarySensor" for d s slug
    by (cases "cd_platform d") (simp_all add: platform_is_def component_index to_config_def)
  ultimately show ?thesis
    by (auto simp: binary_sensor_templates_preserve_all_three_boolean_states_def list_all_iff
        components_set table_components_def)
qed

definition assert_metadata ::
  "json \<Rightarrow> rstr option \<Rightarrow> rstr option \<Rightarrow> rstr option \<Rightarrow> nat option \<Rightarrow> bool" where
  "assert_metadata c device_class state_class unit precision \<longleftrightarrow>
     json_get c (lit ''device_class'') = map_option JStr device_class \<and>
     json_get c (lit ''state_class'') = map_option JStr state_class \<and>
     json_get c (lit ''unit_of_measurement'') = map_option JStr unit \<and>
     json_get c (lit ''suggested_display_precision'') = map_option JU64 precision"

definition representative_sensor_metadata_matches_the_state_contract :: bool where
  "representative_sensor_metadata_matches_the_state_contract \<longleftrightarrow>
     (let measurement = Some (lit ''measurement'') in
      json_get (component ''health_status'') (lit ''device_class'') = Some (JStr (lit ''enum'')) \<and>
      json_get (component ''health_status'') (lit ''options'') =
        Some (JArr [JStr (lit ''ok''), JStr (lit ''warning''), JStr (lit ''critical''), JStr (lit ''degraded'')]) \<and>
      json_get (component ''health_status'') (lit ''state_class'') = None \<and>
      assert_metadata (component ''cpu_temperature'') (Some (lit ''temperature'')) measurement
        (Some (176 # lit ''C'')) (Some 1) \<and>
      assert_metadata (component ''cpu_frequency'') (Some (lit ''frequency'')) measurement
        (Some (lit ''MHz'')) (Some 1) \<and>
      assert_metadata (component ''disk_available'') (Some (lit ''data_size'')) measurement
        (Some (lit ''GiB'')) (Some 2) \<and>
      assert_metadata (component ''uptime'') (Some (lit ''duration'')) measurement (Some (lit ''s''))
        (Some 0) \<and>
      assert_metadata (component ''last_observation'') (Some (lit ''timestamp'')) None None None)"

lemma representative_sensor_metadata_matches_the_state_contract:
  "representative_sensor_metadata_matches_the_state_contract"
  by (simp add: representative_sensor_metadata_matches_the_state_contract_def replay_entry
      assert_metadata_def component_index to_config_def HEALTH_OPTIONS_def degree_celsius_def)

end
