(* ===== verification/Replay_Collector.thy ===== *)
theory Replay_Collector
  imports Replay_Metrics Replay_Model Collector
begin

text \<open>
  The unit tests of \<open>src/collector.rs\<close> on the model: the three fakes of the test module (a system
  source with scripted reads, a command runner with scripted responses, a clock that advances when it
  sleeps) are one world, and \<open>fake_env\<close> is the environment they implement.
\<close>

section \<open>The fakes\<close>

datatype FakeRead = FakeData "nat list" | FakeError IoError

record FakeSystemInner =
  fw_files :: "path \<Rightarrow> FakeRead list"
  fw_regular_files :: "path list"
  fw_statvfs :: "(IoError + StatvfsValues) option"
  fw_reads :: "path \<Rightarrow> nat"

record FakeCommandInner = FakeSystemInner +
  fw_responses :: "rstr \<Rightarrow> (CommandFailure + rstr) list"
  fw_calls :: "(path \<times> rstr list \<times> duration) list"

text \<open>The base of the clock is a parameter of \<open>fake_env\<close> and its time of day a constant.\<close>

record FakeWorld = FakeCommandInner +
  fw_elapsed :: duration
  fw_sleeps :: "duration list"

definition fake_new :: FakeWorld where
  "fake_new =
     \<lparr>fw_files = \<lambda>_. [], fw_regular_files = [], fw_statvfs = None, fw_reads = \<lambda>_. 0,
      fw_responses = \<lambda>_. [], fw_calls = [], fw_elapsed = 0, fw_sleeps = []\<rparr>"

definition add_regular_file :: "path \<Rightarrow> FakeWorld \<Rightarrow> FakeWorld" where
  "add_regular_file p w = w\<lparr>fw_regular_files := p # fw_regular_files w\<rparr>"

definition add_bytes :: "path \<Rightarrow> nat list \<Rightarrow> FakeWorld \<Rightarrow> FakeWorld" where
  "add_bytes p v w = w\<lparr>fw_files := (fw_files w)(p := fw_files w p @ [FakeData v])\<rparr>"

definition add_text :: "path \<Rightarrow> rstr \<Rightarrow> FakeWorld \<Rightarrow> FakeWorld" where
  "add_text p v w = add_bytes p (str_bytes v) w"

definition add_error :: "path \<Rightarrow> IoError \<Rightarrow> FakeWorld \<Rightarrow> FakeWorld" where
  "add_error p kind w = w\<lparr>fw_files := (fw_files w)(p := fw_files w p @ [FakeError kind])\<rparr>"

definition set_statvfs :: "IoError + StatvfsValues \<Rightarrow> FakeWorld \<Rightarrow> FakeWorld" where
  "set_statvfs v w = w\<lparr>fw_statvfs := Some v\<rparr>"

definition respond :: "rstr \<Rightarrow> CommandFailure + rstr \<Rightarrow> FakeWorld \<Rightarrow> FakeWorld" where
  "respond argument response w =
     w\<lparr>fw_responses := (fw_responses w)(argument := fw_responses w argument @ [response])\<rparr>"

definition fake_read :: "path \<Rightarrow> FakeWorld \<Rightarrow> (IoError + nat list) \<times> FakeWorld" where
  "fake_read p w =
     (let w = w\<lparr>fw_reads := (fw_reads w)(p := fw_reads w p + 1)\<rparr> in
      case fw_files w p of
        [] \<Rightarrow> (Inl IoNotFound, w)
      | r # rest \<Rightarrow>
          ((case r of FakeData value \<Rightarrow> Inr value | FakeError kind \<Rightarrow> Inl kind),
           w\<lparr>fw_files := (fw_files w)(p := rest)\<rparr>))"

definition fake_read_text :: "path \<Rightarrow> FakeWorld \<Rightarrow> (IoError + rstr) \<times> FakeWorld" where
  "fake_read_text p w =
     (case fake_read p w of (r, w) \<Rightarrow> (and_then r (\<lambda>v. ok_or (from_utf8 v) IoOther), w))"

definition fake_statvfs :: "path \<Rightarrow> FakeWorld \<Rightarrow> (IoError + StatvfsValues) \<times> FakeWorld" where
  "fake_statvfs p w =
     (case fw_statvfs w of None \<Rightarrow> Inl IoNotFound | Some r \<Rightarrow> r, w\<lparr>fw_statvfs := None\<rparr>)"

definition fake_run ::
  "path \<Rightarrow> rstr list \<Rightarrow> duration \<Rightarrow> FakeWorld \<Rightarrow> (CommandFailure + rstr) \<times> FakeWorld" where
  "fake_run program arguments timeout w =
     (let w = w\<lparr>fw_calls := fw_calls w @ [(program, arguments, timeout)]\<rparr>;
          key = (case arguments of [] \<Rightarrow> [] | a # _ \<Rightarrow> a)
      in case fw_responses w key of
           [] \<Rightarrow> (Inl Spawn, w)
         | r # rest \<Rightarrow> (r, w\<lparr>fw_responses := (fw_responses w)(key := rest)\<rparr>))"

definition fake_sleep :: "duration \<Rightarrow> FakeWorld \<Rightarrow> FakeWorld" where
  "fake_sleep d w = w\<lparr>fw_sleeps := fw_sleeps w @ [d], fw_elapsed := fw_elapsed w + d\<rparr>"

text \<open>The environment; \<open>base\<close> is the instant the clock was created at.\<close>

definition fake_env :: "nat \<Rightarrow> (FakeWorld, rstr) Env" where
  "fake_env base =
     \<lparr>env_read_text = fake_read_text, env_read_bytes = fake_read,
      env_is_file = \<lambda>p w. (p \<in> set (fw_regular_files w), w),
      env_statvfs = fake_statvfs, env_run = fake_run,
      env_now_utc = \<lambda>w. (ObservationTime (lit ''2026-08-16T12:34:56Z''), w),
      env_monotonic_now = \<lambda>w. (base + fw_elapsed w, w), env_sleep = fake_sleep\<rparr>"

definition custom_vcgencmd :: path where "custom_vcgencmd = lit ''/custom/vcgencmd''"

definition LOADAVG_LINE :: rstr where "LOADAVG_LINE = line_of ''0.25 0.50 0.75 1/10 5''"
definition UPTIME_LINE :: rstr where "UPTIME_LINE = line_of ''12345.67 10.0''"

definition populated_source :: FakeWorld where
  "populated_source =
     (let w = add_regular_file custom_vcgencmd fake_new;
          w = add_text PROC_STAT FIRST_SAMPLE w;
          w = add_text PROC_STAT SECOND_SAMPLE w;
          w = add_text PROC_LOADAVG LOADAVG_LINE w;
          w = add_text THERMAL_ZONE (line_of ''49875'') w;
          w = add_text (hd FREQUENCY_PATHS) (line_of ''900000'') w;
          w = add_text PROC_MEMINFO MEMINFO w;
          w = add_text PROC_UPTIME UPTIME_LINE w
      in set_statvfs (Inr \<lparr>vfs_fragment_size = 4096, vfs_blocks = 1000, vfs_blocks_free = 400,
             vfs_blocks_available = 300\<rparr>) w)"

definition build_collector :: "nat \<Rightarrow> FakeWorld \<Rightarrow> (CollectorInitError + Collector) \<times> FakeWorld" where
  "build_collector base w =
     with_dependencies (fake_env base) (lit ''/'') custom_vcgencmd (from_secs 2) w"

text \<open>A collector that was built and collected once: the state, the collector and the world.\<close>

definition collect_once ::
  "nat \<Rightarrow> FakeWorld \<Rightarrow> (rstr TelemetryState \<times> Collector \<times> FakeWorld \<Rightarrow> bool) \<Rightarrow> bool" where
  "collect_once base w P =
     (case build_collector base w of (r, w) \<Rightarrow>
        ok_and r (\<lambda>collector. P (collect (fake_env base) collector w)))"


section \<open>The contents of the files\<close>

lemma valid_str_lit [simp]: "valid_str (lit s)"
proof (induction s)
  case (Cons c s)
  have "of_char c < (256 :: nat)" by simp
  then have "is_scalar (of_char c)" unfolding is_scalar_def by linarith
  with Cons show ?case by (simp add: lit_Cons)
qed (simp add: lit_def)

lemma valid_fixtures [simp]:
  "valid_str (line_of s)" "valid_str FIRST_SAMPLE" "valid_str SECOND_SAMPLE" "valid_str MEMINFO"
  "valid_str LOADAVG_LINE" "valid_str UPTIME_LINE"
  by (simp_all add: line_of_def FIRST_SAMPLE_def SECOND_SAMPLE_def MEMINFO_def LOADAVG_LINE_def
      UPTIME_LINE_def is_scalar_def)

lemma sample_usage:
  "usage_percent (cpu_times_of [100, 0, 50, 800, 50, 0, 0, 0])
     (cpu_times_of [130, 0, 70, 845, 55, 0, 0, 0]) = Inr (Some (f64_lit 50))"
  by (simp add: replay_cpu) (simp add: f64_percent_def f64_eval)

lemma loadavg_line:
  "parse_loadavg LOADAVG_LINE =
     Inr \<lparr>la_one_minute = f64_lit (25 / 100), la_five_minutes = f64_lit (5 / 10),
          la_fifteen_minutes = f64_lit (75 / 100)\<rparr>"
  by (simp add: LOADAVG_LINE_def parse_loadavg_def parse_non_negative_float_def replay_text)

lemma thermal_line:
  "parse_millidegrees_celsius (line_of ''49875'') = Inr (f64_lit (49875 / 1000))"
  by (simp add: parse_millidegrees_celsius_def replay_text)

lemma thermal_malformed: "is_err (parse_millidegrees_celsius (line_of ''malformed''))"
  by (simp add: parse_millidegrees_celsius_def replay_text)

lemma frequency_line: "parse_frequency_khz (line_of ''900000'') = Inr (f64_lit 900)"
  by (simp add: parse_frequency_khz_def replay_text)

lemma meminfo_report:
  "parse_meminfo MEMINFO =
     Inr \<lparr>mi_total_bytes = 1024000, mi_available_bytes = 409600, mi_used_bytes = 614400,
          mi_used_percent = f64_lit 60, mi_swap_total_bytes = 512000, mi_swap_free_bytes = 204800,
          mi_swap_used_bytes = 307200, mi_swap_used_percent = f64_lit 60\<rparr>"
  by (simp add: meminfo_values replay_memory) (simp add: f64_percent_def f64_eval)

lemma uptime_line: "parse_uptime_seconds UPTIME_LINE = Inr 12345"
  by (simp add: UPTIME_LINE_def parse_uptime_seconds_def line_of_def str_eval result_simps)
    (simp add: f64_eval unat_max_word result_simps)

lemma throttled_lines:
  "parse_throttled (line_of ''throttled=0x50005'') = Inr (decode_throttled 0x50005)"
  "parse_throttled (line_of ''throttled=0x0'') = Inr (decode_throttled 0)"
  by (simp_all add: parse_throttled_def line_of_def str_eval result_simps)

lemma power_readings:
  "power_metrics (decode_throttled 0x50005) =
     \<lparr>pw_throttled_raw = Some (lit ''0x50005''), pw_undervoltage_now = Some True,
      pw_arm_frequency_capped_now = Some False, pw_throttled_now = Some True,
      pw_soft_temperature_limit_now = Some False, pw_undervoltage_since_boot = Some True,
      pw_arm_frequency_capped_since_boot = Some False, pw_throttled_since_boot = Some True,
      pw_soft_temperature_limit_since_boot = Some False\<rparr>"
  "power_metrics (decode_throttled 0) =
     \<lparr>pw_throttled_raw = Some (lit ''0x0''), pw_undervoltage_now = Some False,
      pw_arm_frequency_capped_now = Some False, pw_throttled_now = Some False,
      pw_soft_temperature_limit_now = Some False, pw_undervoltage_since_boot = Some False,
      pw_arm_frequency_capped_since_boot = Some False, pw_throttled_since_boot = Some False,
      pw_soft_temperature_limit_since_boot = Some False\<rparr>"
  by (simp_all add: power_metrics_def decode_throttled_def has_bit_iff raw_hex_def str_eval)

lemma cycle_durations: "duration_ms (from_secs 1) = 1000" "duration_ms 0 = 0"
  by (simp_all add: duration_ms_def from_secs_def as_millis_def)

lemma firmware_temperature_line:
  "parse_vcgencmd_temperature (lit ''temp=52.5'' @ quote_C @ [10]) = Inr (f64_lit (525 / 10))"
  by (simp add: parse_vcgencmd_temperature_def quote_C_def replay_text)

lemma fake_disk:
  "calculate_disk_metrics (lit ''/'')
      \<lparr>vfs_fragment_size = 4096, vfs_blocks = 1000, vfs_blocks_free = 400, vfs_blocks_available = 300\<rparr> =
    Inr \<lparr>disk_mount = lit ''/'', disk_total_bytes = Some 4096000, disk_available_bytes = Some 1228800,
         disk_used_bytes = Some 2457600,
         disk_used_percent = Some (f64_div (f64_mul (f64_lit 100) (f64_lit 600)) (f64_lit 900))\<rparr>"
  by (simp add: calculate_disk_metrics_def
      disk_bytes_def checked_mul_def checked_add_def checked_sub_def f64_percent_def replay_text)


section \<open>The tests\<close>

lemmas replay_paths =
  PROC_STAT_def PROC_LOADAVG_def PROC_MEMINFO_def PROC_UPTIME_def PROC_CPUINFO_def
  DEVICE_TREE_MODEL_def KERNEL_RELEASE_def HOSTNAME_def ETC_OS_RELEASE_def THERMAL_ZONE_def
  FREQUENCY_PATHS_def STANDARD_VCGENCMD_PATHS_def custom_vcgencmd_def

lemmas replay_world =
  fake_new_def add_regular_file_def add_bytes_def add_text_def add_error_def set_statvfs_def
  respond_def fake_read_def fake_read_text_def fake_statvfs_def fake_run_def fake_sleep_def
  fake_env_def populated_source_def from_utf8_str_bytes Let_def

lemmas replay_build =
  collect_once_def build_collector_def with_dependencies_def resolve_vcgencmd_def detect_metadata_def

lemmas replay_values =
  first_sample second_sample sample_usage loadavg_line thermal_line frequency_line meminfo_report
  uptime_line throttled_lines firmware_temperature_line fake_disk
  power_readings cycle_durations

lemmas replay_cycle =
  collect_def collect_cpu_usage_def cpu_usage_since_def cpu_counters_error_def read_cpu_sample_def
  read_parsed_def collect_load_average_def collect_temperature_def collect_frequency_def
  collect_memory_def collect_uptime_def collect_disk_def collect_power_def
  push_error_def CPU_WARMUP_def

definition collects_a_complete_snapshot_and_warms_up_cpu_once :: "nat \<Rightarrow> bool" where
  "collects_a_complete_snapshot_and_warms_up_cpu_once base \<longleftrightarrow>
     collect_once base
       (respond (lit ''get_throttled'') (Inr (line_of ''throttled=0x50005'')) populated_source)
       (\<lambda>(state, _, world).
          ObservationTime_display text_time (st_observed_at state) = Inr (lit ''2026-08-16T12:34:56Z'') \<and>
          cpu_usage_percent (st_cpu state) = Some (f64_lit 50) \<and>
          cpu_load_1 (st_cpu state) = Some (f64_lit (25 / 100)) \<and>
          cpu_temperature_c (st_cpu state) = Some (f64_lit (49875 / 1000)) \<and>
          cpu_frequency_mhz (st_cpu state) = Some (f64_lit 900) \<and>
          mem_used_percent (st_memory state) = Some (f64_lit 60) \<and>
          swap_used_percent (st_swap state) = Some (f64_lit 60) \<and>
          disk_used_bytes (st_disk state) = Some 2457600 \<and>
          st_uptime_seconds state = Some 12345 \<and>
          pw_throttled_raw (st_power state) = Some (lit ''0x50005'') \<and>
          h_status (st_health state) = HealthCritical \<and>
          h_collector_errors (st_health state) = [] \<and>
          sv_collection_duration_ms (st_service state) = 1000 \<and>
          fw_sleeps world = [CPU_WARMUP] \<and>
          map (\<lambda>(_, arguments, _). arguments) (fw_calls world) = [[lit ''get_throttled'']])"

lemmas replay_collect = replay_build replay_world replay_paths replay_cycle replay_values

lemma collects_a_complete_snapshot_and_warms_up_cpu_once:
  "collects_a_complete_snapshot_and_warms_up_cpu_once base"
  by (simp add: collects_a_complete_snapshot_and_warms_up_cpu_once_def replay_collect state_eval
      ObservationTime_display_def text_time_def del: One_nat_def)

text \<open>The first response to \<open>measure_temp\<close> and \<open>get_throttled\<close>.\<close>

definition firmware_responses :: "FakeWorld \<Rightarrow> FakeWorld" where
  "firmware_responses w =
     respond (lit ''get_throttled'') (Inr (line_of ''throttled=0x0''))
       (respond (lit ''measure_temp'') (Inr (lit ''temp=52.5'' @ quote_C @ [10])) w)"

definition temperature_falls_back_only_when_sysfs_is_not_found :: "nat \<Rightarrow> bool" where
  "temperature_falls_back_only_when_sysfs_is_not_found base \<longleftrightarrow>
     (let source = add_error THERMAL_ZONE IoNotFound populated_source;
          second = source\<lparr>fw_files := (fw_files source)(THERMAL_ZONE := tl (fw_files source THERMAL_ZONE))\<rparr>
      in collect_once base (firmware_responses source) (\<lambda>(state, _, world).
           cpu_temperature_c (st_cpu state) = Some (f64_lit (49875 / 1000)) \<and>
           length (fw_calls world) = 1) \<and>
         collect_once base (firmware_responses second) (\<lambda>(state, _, world).
           cpu_temperature_c (st_cpu state) = Some (f64_lit (525 / 10)) \<and>
           map (\<lambda>(_, arguments, _). arguments) (fw_calls world) =
             [[lit ''measure_temp''], [lit ''get_throttled'']]))"

lemma temperature_falls_back_only_when_sysfs_is_not_found:
  "temperature_falls_back_only_when_sysfs_is_not_found base"
  by (simp add: temperature_falls_back_only_when_sysfs_is_not_found_def replay_collect state_eval
      firmware_responses_def)

definition malformed_sysfs_temperature_does_not_invoke_the_fallback :: "nat \<Rightarrow> bool" where
  "malformed_sysfs_temperature_does_not_invoke_the_fallback base \<longleftrightarrow>
     (let source = populated_source;
          source = source\<lparr>fw_files :=
            (fw_files source)(THERMAL_ZONE := [FakeData (str_bytes (line_of ''malformed''))])\<rparr>;
          world = respond (lit ''get_throttled'') (Inr (line_of ''throttled=0x0'')) source
      in collect_once base world (\<lambda>(state, _, world).
           cpu_temperature_c (st_cpu state) = None \<and>
           map (\<lambda>(_, arguments, _). arguments) (fw_calls world) = [[lit ''get_throttled'']]))"

lemma malformed_sysfs_temperature_does_not_invoke_the_fallback:
  "malformed_sysfs_temperature_does_not_invoke_the_fallback base"
proof -
  obtain e where "parse_millidegrees_celsius (line_of ''malformed'') = Inl e"
    using thermal_malformed by (cases "parse_millidegrees_celsius (line_of ''malformed'')") auto
  then show ?thesis
    by (simp add: malformed_sysfs_temperature_does_not_invoke_the_fallback_def replay_collect
        state_eval)
qed

text \<open>
  The texts of the errors of the fakes do not exist in the model, whose \<open>IoError\<close> is the kind alone;
  the texts a document contains are nevertheless checked, as the test does.
\<close>

fun json_texts :: "json \<Rightarrow> rstr list" where
  "json_texts (JStr s) = [s]"
| "json_texts (JArr js) = concat (map json_texts js)"
| "json_texts (JObj kvs) = concat (map (\<lambda>(k, v). k # json_texts v) kvs)"
| "json_texts _ = []"

definition partial_failures_produce_nulls_and_fixed_safe_errors :: "nat \<Rightarrow> bool" where
  "partial_failures_produce_nulls_and_fixed_safe_errors base \<longleftrightarrow>
     (let world = add_regular_file custom_vcgencmd fake_new;
          world = add_error THERMAL_ZONE IoOther world;
          world = set_statvfs (Inl IoOther) world;
          world = respond (lit ''get_throttled'') (Inl TimedOut) world
      in collect_once base world (\<lambda>(state, _, _).
           cpu_usage_percent (st_cpu state) = None \<and> cpu_frequency_mhz (st_cpu state) = None \<and>
           mem_total_bytes (st_memory state) = None \<and> disk_total_bytes (st_disk state) = None \<and>
           pw_undervoltage_now (st_power state) = None \<and>
           h_status (st_health state) = HealthDegraded \<and>
           length (h_collector_errors (st_health state)) = 7 \<and>
           ok_and (TelemetryState_serialize text_time state) (\<lambda>serialized.
             list_all (\<lambda>t. \<not> str_contains t (lit ''private test detail'') \<and>
                           \<not> str_contains t (lit ''private statvfs detail''))
               (json_texts serialized))))"

lemma partial_failures_produce_nulls_and_fixed_safe_errors:
  "partial_failures_produce_nulls_and_fixed_safe_errors base"
  by (simp add: partial_failures_produce_nulls_and_fixed_safe_errors_def replay_collect state_eval)
    (simp add: serialize_eval text_time_def, simp add: str_eval VERSION_def)

text \<open>The later reads: a third CPU sample, and the metadata files.\<close>

definition THIRD_SAMPLE :: rstr where
  "THIRD_SAMPLE = line_of ''cpu 250 0 150 900 50 20 20 10''"

definition CPUINFO_REPORT :: rstr where
  "CPUINFO_REPORT = line_of ''Revision : a02082'' @ line_of ''Serial : 00000001''"

definition OS_RELEASE_REPORT :: rstr where
  "OS_RELEASE_REPORT = lit ''PRETTY_NAME='' @ [34] @ lit ''Example Linux 1'' @ [34, 10]"

lemma valid_reports [simp]: "valid_str THIRD_SAMPLE" "valid_str CPUINFO_REPORT" "valid_str OS_RELEASE_REPORT"
  by (simp_all add: THIRD_SAMPLE_def CPUINFO_REPORT_def OS_RELEASE_REPORT_def is_scalar_def)

lemma third_sample: "parse_proc_stat THIRD_SAMPLE = Inr (cpu_times_of [250, 0, 150, 900, 50, 20, 20, 10])"
  by (simp add: THIRD_SAMPLE_def replay_stat)

lemma third_usage:
  "usage_percent (cpu_times_of [130, 0, 70, 845, 55, 0, 0, 0])
     (cpu_times_of [250, 0, 150, 900, 50, 20, 20, 10]) =
   Inl (ParseError_new CPU_PROC_STAT (lit ''the '' @ lit ''iowait'' @ lit '' counter moved backwards''))"
  by (simp add: replay_cpu)

lemma metadata_reports:
  "parse_cpuinfo CPUINFO_REPORT = \<lparr>cm_revision = Some (lit ''a02082''), cm_serial = Some (lit ''00000001'')\<rparr>"
  "parse_os_release OS_RELEASE_REPORT = Inr (OsRelease_default\<lparr>or_pretty_name := Some (lit ''Example Linux 1'')\<rparr>)"
  "parse_hostname (line_of ''kitchen-node'') = Some (lit ''kitchen-node'')"
  "parse_device_tree_model (lit ''Example Board'' @ [0]) = Some (lit ''Example Board'')"
  "first_non_empty_line (line_of ''6.12.0-example'') = Some (lit ''6.12.0-example'')"
  by (simp_all add: CPUINFO_REPORT_def OS_RELEASE_REPORT_def first_non_empty_line_def replay_metadata)

definition later_cycles_reuse_the_cpu_baseline_without_sleeping_again :: "nat \<Rightarrow> bool" where
  "later_cycles_reuse_the_cpu_baseline_without_sleeping_again base \<longleftrightarrow>
     (let source = add_text PROC_STAT THIRD_SAMPLE populated_source;
          world = respond (lit ''get_throttled'') (Inr (line_of ''throttled=0x0'')) source;
          world = respond (lit ''get_throttled'') (Inr (line_of ''throttled=0x0'')) world
      in collect_once base world (\<lambda>(_, collector, world).
           case collect (fake_env base) collector world of (_, _, world) \<Rightarrow>
             fw_reads world PROC_STAT = 3 \<and> fw_sleeps world = [CPU_WARMUP]))"

lemma later_cycles_reuse_the_cpu_baseline_without_sleeping_again:
  "later_cycles_reuse_the_cpu_baseline_without_sleeping_again base"
  by (simp add: later_cycles_reuse_the_cpu_baseline_without_sleeping_again_def replay_collect
      third_sample third_usage)

definition detects_optional_metadata_exactly_once :: "nat \<Rightarrow> bool" where
  "detects_optional_metadata_exactly_once base \<longleftrightarrow>
     (let source = populated_source;
          source = add_text HOSTNAME (line_of ''kitchen-node'') source;
          source = add_bytes DEVICE_TREE_MODEL (lit ''Example Board'' @ [0]) source;
          source = add_text PROC_CPUINFO CPUINFO_REPORT source;
          source = add_text KERNEL_RELEASE (line_of ''6.12.0-example'') source;
          source = add_text ETC_OS_RELEASE OS_RELEASE_REPORT source;
          world = respond (lit ''get_throttled'') (Inr (line_of ''throttled=0x0'')) source
      in case build_collector base world of (r, world) \<Rightarrow> ok_and r (\<lambda>collector.
           co_metadata collector =
             \<lparr>dv_hostname = Some (lit ''kitchen-node''), dv_model = Some (lit ''Example Board''),
              dv_board_revision = Some (lit ''a02082''), dv_serial_number = Some (lit ''00000001''),
              dv_kernel_release = Some (lit ''6.12.0-example''),
              dv_operating_system = Some (lit ''Example Linux 1'')\<rparr> \<and>
           (case collect (fake_env base) collector world of (_, _, world) \<Rightarrow>
              list_all (\<lambda>p. fw_reads world p = 1)
                [HOSTNAME, DEVICE_TREE_MODEL, PROC_CPUINFO, KERNEL_RELEASE, ETC_OS_RELEASE])))"

lemma detects_optional_metadata_exactly_once: "detects_optional_metadata_exactly_once base"
  unfolding detects_optional_metadata_exactly_once_def populated_source_def Let_def
  by (simp add: replay_collect metadata_reports operating_system_name_def OsRelease_default_def)

definition resolves_configured_then_standard_firmware_paths :: bool where
  "resolves_configured_then_standard_firmware_paths \<longleftrightarrow>
     fst (resolve_vcgencmd (fake_env 0) (lit ''/custom/vcgencmd'')
       (add_regular_file (lit ''/custom/vcgencmd'') fake_new)) = Inr (lit ''/custom/vcgencmd'') \<and>
     fst (resolve_vcgencmd (fake_env 0) (lit ''/missing/vcgencmd'')
       (add_regular_file (lit ''/usr/bin/vcgencmd'') fake_new)) = Inr (lit ''/usr/bin/vcgencmd'') \<and>
     fst (resolve_vcgencmd (fake_env 0) (lit ''/missing/vcgencmd'') fake_new) =
       Inl FirmwareCommandUnavailable"

lemma resolves_configured_then_standard_firmware_paths:
  "resolves_configured_then_standard_firmware_paths"
  by (simp add: resolves_configured_then_standard_firmware_paths_def replay_collect)

text \<open>A cursor over bytes, read through the buffer of 512 bytes.\<close>

function cursor_reads :: "nat list \<Rightarrow> (unit + nat list) list" where
  "cursor_reads [] = [Inr []]"
| "bs \<noteq> [] \<Longrightarrow> cursor_reads bs = Inr (take 512 bs) # cursor_reads (drop 512 bs)"
  by auto
termination by (relation "measure length") auto

lemma cursor_stream: "stream_bytes (cursor_reads bs) = Some bs"
  by (induction bs rule: cursor_reads.induct) simp_all

definition output_reader_enforces_the_four_kibibyte_limit :: bool where
  "output_reader_enforces_the_four_kibibyte_limit \<longleftrightarrow>
     map_option (\<lambda>r. ok_and r (\<lambda>bytes. length bytes = MAX_COMMAND_OUTPUT_BYTES))
       (read_limited_output (cursor_reads (replicate MAX_COMMAND_OUTPUT_BYTES 120))) = Some True \<and>
     read_limited_output (cursor_reads (replicate (MAX_COMMAND_OUTPUT_BYTES + 1) 120)) =
       Some (Inl OutputTooLarge)"

lemma output_reader_enforces_the_four_kibibyte_limit: "output_reader_enforces_the_four_kibibyte_limit"
  by (simp add: output_reader_enforces_the_four_kibibyte_limit_def read_limited_output_def
      read_limited_loop_bytes [OF cursor_stream] del: replicate_Suc cursor_reads.simps)

end
