(* ===== verification/Replay_Mqtt.thy ===== *)
theory Replay_Mqtt
  imports Replay Mqtt_Supervisor
begin

text \<open>
  The unit tests of \<open>src/mqtt.rs\<close> on the model.  A method that changes its receiver returns the
  changed machine, so a test rebinds its machine after every call.
\<close>

section \<open>The bootstrap machine\<close>

definition bootstrap_requires_acknowledged_discovery_and_online_before_fresh_state :: bool where
  "bootstrap_requires_acknowledged_discovery_and_online_before_fresh_state \<longleftrightarrow>
     (let machine = BootstrapMachine_default;
          (a1, machine) = connected 7 machine;
          (a2, machine) = state_available 7 machine;
          (_, machine) = outgoing_publish 10 machine;
          (a3, machine) = publish_acknowledged 9 machine;
          (a4, machine) = publish_acknowledged 10 machine;
          (_, machine) = outgoing_publish 11 machine;
          (a5, machine) = publish_acknowledged 11 machine;
          phase = bm_phase machine;
          (a6, machine) = state_available 6 machine;
          (a7, machine) = state_available 7 machine;
          (_, machine) = outgoing_publish 0 machine;
          online = is_online machine;
          (now, machine) = just_became_online machine;
          (again, machine) = just_became_online machine
      in a1 = PublishDiscovery \<and> a2 = None \<and> a3 = None \<and> a4 = Some PublishOnline \<and> a5 = None \<and>
         phase = AwaitFreshState \<and> a6 = None \<and> a7 = Some PublishState \<and> online \<and> now \<and> \<not> again)"

lemmas machine_eval = machine_defs BootstrapMachine_default_def is_online_def just_became_online_def
  is_stopped_def Let_def

lemma bootstrap_requires_acknowledged_discovery_and_online_before_fresh_state:
  "bootstrap_requires_acknowledged_discovery_and_online_before_fresh_state"
  by (simp add: bootstrap_requires_acknowledged_discovery_and_online_before_fresh_state_def
      machine_eval)

definition periodic_backpressure_keeps_only_a_newer_state :: bool where
  "periodic_backpressure_keeps_only_a_newer_state \<longleftrightarrow>
     (let machine = BootstrapMachine_default\<lparr>bm_phase := Online, bm_last_state_request := 20\<rparr>;
          (a1, machine) = state_available 20 machine;
          (a2, machine) = state_available 21 machine;
          (a3, machine) = state_available 22 machine;
          (_, machine) = outgoing_publish 0 machine;
          (now, machine) = just_became_online machine;
          (a4, machine) = state_available 22 machine
      in a1 = None \<and> a2 = Some PublishState \<and> a3 = None \<and> \<not> now \<and> a4 = Some PublishState)"

lemma periodic_backpressure_keeps_only_a_newer_state:
  "periodic_backpressure_keeps_only_a_newer_state"
  by (simp add: periodic_backpressure_keeps_only_a_newer_state_def machine_eval)

definition every_reconnection_restarts_the_bootstrap :: bool where
  "every_reconnection_restarts_the_bootstrap \<longleftrightarrow>
     (let machine = BootstrapMachine_default;
          (_, machine) = connected 1 machine;
          (_, machine) = outgoing_publish 1 machine;
          (_, machine) = publish_acknowledged 1 machine;
          (_, machine) = outgoing_publish 2 machine;
          (_, machine) = publish_acknowledged 2 machine;
          (_, machine) = state_available 1 machine;
          (_, machine) = outgoing_publish 0 machine;
          machine = connection_lost machine;
          (a1, machine) = connected 2 machine;
          (a2, machine) = state_available 1 machine
      in a1 = PublishDiscovery \<and> a2 = None \<and> bm_phase machine = DiscoveryQueued)"

lemma every_reconnection_restarts_the_bootstrap: "every_reconnection_restarts_the_bootstrap"
  by (simp add: every_reconnection_restarts_the_bootstrap_def machine_eval)

definition graceful_shutdown_waits_for_offline_ack_before_disconnect :: bool where
  "graceful_shutdown_waits_for_offline_ack_before_disconnect \<longleftrightarrow>
     (let machine = BootstrapMachine_default\<lparr>bm_phase := Online\<rparr>;
          (a1, machine) = shutdown machine;
          (_, machine) = outgoing_publish 31 machine;
          (a2, machine) = publish_acknowledged 30 machine;
          (a3, machine) = publish_acknowledged 31 machine;
          phase = bm_phase machine;
          (_, machine) = disconnected machine
      in a1 = Some PublishOffline \<and> a2 = None \<and> a3 = Some Disconnect \<and>
         phase = DisconnectQueued \<and> is_stopped machine)"

lemma graceful_shutdown_waits_for_offline_ack_before_disconnect:
  "graceful_shutdown_waits_for_offline_ack_before_disconnect"
  by (simp add: graceful_shutdown_waits_for_offline_ack_before_disconnect_def machine_eval)

definition shutdown_identifies_its_own_publish_from_every_bootstrap_phase :: bool where
  "shutdown_identifies_its_own_publish_from_every_bootstrap_phase \<longleftrightarrow>
     list_all (\<lambda>(phase, queued_packet, stale_acknowledgement).
       let machine = BootstrapMachine_default\<lparr>bm_phase := phase\<rparr>;
           (a1, machine) = shutdown machine;
           machine =
             (case queued_packet of
                Some packet_id \<Rightarrow> snd (outgoing_publish packet_id machine)
              | None \<Rightarrow> machine);
           (_, machine) = outgoing_publish 31 machine;
           waiting = bm_phase machine;
           (a2, machine) =
             (case stale_acknowledgement of
                Some packet_id \<Rightarrow> publish_acknowledged packet_id machine
              | None \<Rightarrow> (None, machine));
           (a3, machine) = publish_acknowledged 30 machine;
           (a4, machine) = publish_acknowledged 31 machine
       in a1 = Some PublishOffline \<and> waiting = ShutdownAwaitOfflineAck 31 \<and> a2 = None \<and>
          a3 = None \<and> a4 = Some Disconnect)
       [(DiscoveryQueued, Some 7, Some 7),
        (DiscoveryAwaitAck 7, None, Some 7),
        (OnlineQueued, Some 8, Some 8),
        (OnlineAwaitAck 8, None, Some 8),
        (AwaitFreshState, None, None),
        (StateQueued, Some 0, None),
        (Online, None, None)]"

lemma shutdown_identifies_its_own_publish_from_every_bootstrap_phase:
  "shutdown_identifies_its_own_publish_from_every_bootstrap_phase"
  by (simp add: shutdown_identifies_its_own_publish_from_every_bootstrap_phase_def machine_eval)

definition disconnected_shutdown_stops_without_publication :: bool where
  "disconnected_shutdown_stops_without_publication \<longleftrightarrow>
     (let machine = BootstrapMachine_default;
          (a1, machine) = shutdown machine
      in a1 = None \<and> is_stopped machine)"

lemma disconnected_shutdown_stops_without_publication:
  "disconnected_shutdown_stops_without_publication"
  by (simp add: disconnected_shutdown_stops_without_publication_def machine_eval)


section \<open>The supervisor's helpers\<close>

definition shutdown_propagates_internal_control_failures :: bool where
  "shutdown_propagates_internal_control_failures \<longleftrightarrow>
     shutdown_sequence_result (Some (Inl ControlQueueUnavailable)) = Inl ControlQueueUnavailable \<and>
     shutdown_sequence_result (Some (Inr ())) = Inr () \<and>
     shutdown_sequence_result None = Inr ()"

lemma shutdown_propagates_internal_control_failures: "shutdown_propagates_internal_control_failures"
  by (simp add: shutdown_propagates_internal_control_failures_def shutdown_sequence_result_def)

text \<open>\<open>BadClientId\<close> is one of the return codes that no branch names; its MQTT code is 2.\<close>

definition connection_rejections_are_classified_without_details :: bool where
  "connection_rejections_are_classified_without_details \<longleftrightarrow>
     retry_reason (ConnectionRefused BadUserNamePassword) = AuthenticationRejected \<and>
     retry_reason (ConnectionRefused NotAuthorized) = AuthenticationRejected \<and>
     retry_reason (ConnectionRefused (OtherReturnCode 2)) = BrokerRejected"

lemma connection_rejections_are_classified_without_details:
  "connection_rejections_are_classified_without_details"
  by (simp add: connection_rejections_are_classified_without_details_def)

definition state_message_owns_a_bounded_shareable_payload :: bool where
  "state_message_owns_a_bounded_shareable_payload \<longleftrightarrow>
     (let message = StateMessage_new 9 (str_bytes (lit ''{}''))
      in sm_request_id message = 9 \<and> sm_payload message = str_bytes (lit ''{}''))"

lemma state_message_owns_a_bounded_shareable_payload:
  "state_message_owns_a_bounded_shareable_payload"
  by (simp add: state_message_owns_a_bounded_shareable_payload_def StateMessage_new_def)


section \<open>Retry delays\<close>

text \<open>The delays of successive calls with one jitter value, and the backoff after them.\<close>

fun delays :: "nat \<Rightarrow> f64 \<Rightarrow> RetryBackoff \<Rightarrow> duration option list \<times> RetryBackoff" where
  "delays 0 u b = ([], b)"
| "delays (Suc n) u b =
     (let (d, b) = next_delay u b; (ds, b) = delays n u b in (d # ds, b))"


definition backoff_sequence_is_capped_jittered_and_resettable :: bool where
  "backoff_sequence_is_capped_jittered_and_resettable \<longleftrightarrow>
     (let backoff = RetryBackoff_new;
          (low, backoff) = delays 8 (f64_lit 0) backoff;
          backoff = reset backoff;
          (high, backoff) = next_delay (f64_lit 1) backoff;
          (unknown, backoff) = next_delay F64_NaN backoff
      in low = map (\<lambda>s. from_secs_f64 (f64_lit s))
                 [8 / 10, 16 / 10, 32 / 10, 64 / 10, 128 / 10, 24, 48, 48] \<and>
         high = Some (from_millis 1200) \<and> unknown = Some (from_secs 2))"

text \<open>The delay after \<open>a\<close> failures, with the schedule's entry looked up.\<close>

lemma next_delay_entry:
  "next_delay u \<lparr>rb_attempt = a\<rparr> =
     (from_secs_f64 (f64_mul (f64_of_nat ([1, 2, 4, 8, 16, 30, 60] ! min (unat a) 6))
        (f64_add (f64_lit (8 / 10)) (f64_mul (f64_lit (4 / 10)) (jitter_clamped u)))),
      \<lparr>rb_attempt = saturating_add a 1\<rparr>)"
proof -
  have "length RETRY_SECONDS - 1 = 6" by (simp add: RETRY_SECONDS_def)
  then show ?thesis by (simp only: next_delay_def RETRY_SECONDS_def Let_def RetryBackoff.simps)
qed

lemma first_attempts:
  "map (\<lambda>a. saturating_add a (1 :: u32)) [0, 1, 2, 3, 4, 5, 6, 7] = [1, 2, 3, 4, 5, 6, 7, 8]"
  by (simp add: saturating_add_def checked_add_def)

lemma jitter_values:
  "jitter_clamped (F64_Fin False 0) = F64_Fin False 0"
  "jitter_clamped (F64_Fin False 1) = F64_Fin False 1"
  "jitter_clamped F64_NaN = F64_Fin False (1 / 2)"
  by (simp_all add: jitter_clamped_def f64_literals f64_is_finite_def f64_clamp_def f64_val_def)

lemma delays_numeral:
  "delays (numeral k) u b =
     (let (d, b) = next_delay u b; (ds, b) = delays (pred_numeral k) u b in (d # ds, b))"
  by (simp add: numeral_eq_Suc)

lemma backoff_sequence_is_capped_jittered_and_resettable:
  "backoff_sequence_is_capped_jittered_and_resettable"
  using first_attempts
  by (simp add: backoff_sequence_is_capped_jittered_and_resettable_def delays_numeral next_delay_entry
      RetryBackoff_new_def reset_def jitter_values from_millis_def from_secs_def f64_eval)

text \<open>The units of successive calls of the generator.\<close>

fun units :: "nat \<Rightarrow> u64 \<Rightarrow> f64 list" where
  "units 0 x = []"
| "units (Suc n) x = (let (u, x) = next_unit x in u # units n x)"

definition in_unit_interval :: "f64 \<Rightarrow> bool" where
  "in_unit_interval u \<longleftrightarrow> f64_is_finite u \<and> 0 \<le> f64_val u \<and> f64_val u \<le> 1"

definition jitter_generator_stays_in_the_unit_interval :: bool where
  "jitter_generator_stays_in_the_unit_interval \<longleftrightarrow> list_all in_unit_interval (units 1000 42)"

lemma units_in_interval: "x \<noteq> 0 \<Longrightarrow> list_all in_unit_interval (units n x)"
proof (induction n arbitrary: x)
  case (Suc n)
  obtain s u x' where "next_unit x = (F64_Fin s u, x')" "\<not> s" "0 < u" "u \<le> 1" "x' \<noteq> 0"
    using jitter_never_degenerates [of None 0 x] Suc.prems
    by (auto split: prod.splits f64.splits)
  then show ?case
    using Suc.IH [of x'] by (simp add: in_unit_interval_def f64_is_finite_def f64_val_def)
qed simp

lemma jitter_generator_stays_in_the_unit_interval: "jitter_generator_stays_in_the_unit_interval"
  by (simp add: jitter_generator_stays_in_the_unit_interval_def units_in_interval)

end
