(* ===== verification/Replay_Daemon.thy ===== *)
theory Replay_Daemon
  imports Replay Daemon
begin

text \<open>
  The unit tests of \<open>src/daemon.rs\<close> on the model.  The channels of a test and what its other threads
  do are a small world; a call that waits is answered by the script of the test.  The test that times
  the runtime while a collection blocks has no counterpart: the model has no timers of its own.
\<close>

section \<open>Runtime and budget\<close>

definition runtime_uses_one_async_thread :: "RuntimeOptions option ServiceEnv \<Rightarrow> bool" where
  "runtime_uses_one_async_thread env \<longleftrightarrow>
     (case build_runtime (env\<lparr>se_build_runtime := \<lambda>options _. (Inr (), Some options)\<rparr>) None of
        (r, built) \<Rightarrow> is_ok r \<and> (case built of Some options \<Rightarrow> ro_current_thread options | None \<Rightarrow> False))"

lemma runtime_uses_one_async_thread: "runtime_uses_one_async_thread env"
  by (simp add: runtime_uses_one_async_thread_def build_runtime_def)

definition configured_shutdown_bounds_fit_the_service_manager_budget :: bool where
  "configured_shutdown_bounds_fit_the_service_manager_budget \<longleftrightarrow>
     GRACEFUL_SHUTDOWN_TIMEOUT + COLLECTOR_DRAIN_TIMEOUT + RUNTIME_SHUTDOWN_TIMEOUT <
       SERVICE_MANAGER_STOP_BUDGET"

lemma configured_shutdown_bounds_fit_the_service_manager_budget:
  "configured_shutdown_bounds_fit_the_service_manager_budget"
  by (simp add: configured_shutdown_bounds_fit_the_service_manager_budget_def
      GRACEFUL_SHUTDOWN_TIMEOUT_def COLLECTOR_DRAIN_TIMEOUT_def RUNTIME_SHUTDOWN_TIMEOUT_def
      SERVICE_MANAGER_STOP_BUDGET_def from_secs_def)


section \<open>The worker\<close>

text \<open>
  The two watched slots: the newest request and whether the worker has seen it, and the newest state.
  The test has dropped the request sender by the time the worker finds no unseen request.
\<close>

record Channels =
  cn_request :: u64
  cn_unseen :: bool
  cn_state :: "StateMessage option"
  cn_busy :: bool
  cn_calls :: nat

definition channels_new :: Channels where
  "channels_new = \<lparr>cn_request = 0, cn_unseen = False, cn_state = None, cn_busy = False, cn_calls = 0\<rparr>"

definition request_on :: "Channels \<Rightarrow> u64 \<times> Channels" where
  "request_on w =
     (case request_collection (cn_request w) of (request_id, current) \<Rightarrow>
        (request_id, w\<lparr>cn_request := current, cn_unseen := True\<rparr>))"

definition channels_env :: "Channels WorkerEnv" where
  "channels_env =
     \<lparr>wk_changed = \<lambda>w. (cn_unseen w, w),
      wk_request = \<lambda>w. (cn_request w, w\<lparr>cn_unseen := False\<rparr>),
      wk_set_busy = \<lambda>b w. w\<lparr>cn_busy := b\<rparr>,
      wk_send_state = \<lambda>m w. w\<lparr>cn_state := Some m\<rparr>\<rparr>"

text \<open>\<open>FakeCollector\<close>: its payloads; the counter of its calls is shared with the test.\<close>

definition fake_collect :: "(nat list list, Channels) snapshot_collector" where
  "fake_collect payloads w =
     (Inr (case payloads of [] \<Rightarrow> [] | p # _ \<Rightarrow> p), tl payloads, w\<lparr>cn_calls := cn_calls w + 1\<rparr>)"

definition pending_collection_requests_are_coalesced :: bool where
  "pending_collection_requests_are_coalesced \<longleftrightarrow>
     (let w = channels_new;
          (first, w) = request_on w;
          (second, w) = request_on w;
          (third, w) = request_on w
      in [first, second, third] = [1, 2, 3] \<and>
         (case collection_worker channels_env fake_collect [str_bytes (lit ''latest'')] w of
            Some (Inr _, w) \<Rightarrow> cn_state w = Some (StateMessage_new 3 (str_bytes (lit ''latest''))) \<and>
              cn_calls w = 1
          | _ \<Rightarrow> False))"

lemmas replay_worker =
  channels_new_def request_on_def channels_env_def fake_collect_def serve_request_def
  request_collection_def saturating_add_def checked_add_def

lemma pending_collection_requests_are_coalesced: "pending_collection_requests_are_coalesced"
  unfolding pending_collection_requests_are_coalesced_def
  by (simp add: replay_worker collection_worker.simps)

text \<open>
  \<open>PausingCollector\<close>: the first collection lets the test request another one before it returns; a
  payload is the number of the collection.
\<close>

definition pausing_collect :: "(bool \<times> u8, Channels) snapshot_collector" where
  "pausing_collect c w =
     (case c of (first, sequence) \<Rightarrow>
        let sequence = saturating_add sequence 1;
            w = (if first then snd (request_on w) else w)
        in (Inr [unat sequence], (False, sequence), w))"

definition a_new_request_supersedes_an_inflight_state :: bool where
  "a_new_request_supersedes_an_inflight_state \<longleftrightarrow>
     (let (first, w) = request_on channels_new in
      first = 1 \<and>
      (case collection_worker channels_env pausing_collect (True, 0) w of
         Some (Inr _, w) \<Rightarrow> map_option sm_request_id (cn_state w) = Some 2
       | _ \<Rightarrow> False))"

lemma a_new_request_supersedes_an_inflight_state: "a_new_request_supersedes_an_inflight_state"
  unfolding a_new_request_supersedes_an_inflight_state_def
  by (simp add: replay_worker pausing_collect_def StateMessage_new_def collection_worker.simps)

text \<open>\<open>finish_collector_with_timeout\<close> on a worker that has not ended within the timeout.\<close>

definition shutdown_stops_waiting_for_a_blocked_collector :: bool where
  "shutdown_stops_waiting_for_a_blocked_collector \<longleftrightarrow>
     ok_and (finish_collector_with_timeout None) (\<lambda>finished. \<not> finished)"

lemma shutdown_stops_waiting_for_a_blocked_collector: "shutdown_stops_waiting_for_a_blocked_collector"
  by (simp add: shutdown_stops_waiting_for_a_blocked_collector_def finish_collector_with_timeout_def)


section \<open>The scheduler\<close>

text \<open>
  The script of a scheduler test: the branches of \<open>select!\<close>, each with the busy flag and the shutdown
  flag the test has set by then; the requests emitted, oldest first.
\<close>

record Script =
  sr_branches :: "(SchedulerBranch \<times> bool \<times> bool) list"
  sr_busy :: bool
  sr_shutdown :: bool
  sr_requests :: "u64 list"

definition script :: "(SchedulerBranch \<times> bool \<times> bool) list \<Rightarrow> Script" where
  "script branches =
     \<lparr>sr_branches = branches, sr_busy = False, sr_shutdown = False, sr_requests = []\<rparr>"

definition script_env :: "Script SchedulerEnv" where
  "script_env =
     \<lparr>sc_shutdown_requested = \<lambda>w. (sr_shutdown w, w),
      sc_start_interval = \<lambda>_ w. w,
      sc_wait = \<lambda>w.
        (case sr_branches w of
           [] \<Rightarrow> (SchedulerShutdownChanged False, w)
         | (branch, busy, stop) # rest \<Rightarrow>
             (branch, w\<lparr>sr_branches := rest, sr_busy := busy, sr_shutdown := stop\<rparr>)),
      sc_busy = \<lambda>w. (sr_busy w, w),
      sc_now = \<lambda>w. (0, w),
      sc_request_modify = \<lambda>f w.
        (case f (case rev (sr_requests w) of [] \<Rightarrow> 0 | n # _ \<Rightarrow> n) of (request_id, current) \<Rightarrow>
           (request_id, w\<lparr>sr_requests := sr_requests w @ [current]\<rparr>)),
      sc_warn = \<lambda>_ w. w\<rparr>"

definition scheduler_requests_immediately_and_stops_on_shutdown :: bool where
  "scheduler_requests_immediately_and_stops_on_shutdown \<longleftrightarrow>
     (case collection_scheduler script_env (from_secs 3600)
             (script [(SchedulerShutdownChanged True, False, True)]) of
        Some w \<Rightarrow> sr_requests w = [1]
      | None \<Rightarrow> False)"

lemmas replay_scheduler =
  script_def script_env_def collection_scheduler_def collection_interval_def scheduler_iteration_def
  scheduler_tick_def request_collection_def saturating_add_def checked_add_def from_secs_def
  from_millis_def

lemma scheduler_requests_immediately_and_stops_on_shutdown:
  "scheduler_requests_immediately_and_stops_on_shutdown"
  by (simp add: scheduler_requests_immediately_and_stops_on_shutdown_def replay_scheduler
      scheduler_loop.simps)

definition scheduler_skips_missed_ticks :: "nat \<Rightarrow> bool" where
  "scheduler_skips_missed_ticks now \<longleftrightarrow>
     map_option iv_missed_tick_behavior (collection_interval now (from_secs 60)) = Some Skip"

lemma scheduler_skips_missed_ticks: "scheduler_skips_missed_ticks now"
  by (simp add: scheduler_skips_missed_ticks_def collection_interval_def from_secs_def)

text \<open>Two ticks come while the collection is busy, one after it.\<close>

definition scheduler_drops_periodic_ticks_while_collection_is_busy :: bool where
  "scheduler_drops_periodic_ticks_while_collection_is_busy \<longleftrightarrow>
     (case collection_scheduler script_env (from_millis 40)
             (script [(Tick, True, False), (Tick, True, False), (Tick, False, False),
                (SchedulerShutdownChanged True, False, True)]) of
        Some w \<Rightarrow> sr_requests w = [1, 2]
      | None \<Rightarrow> False)"

lemma scheduler_drops_periodic_ticks_while_collection_is_busy:
  "scheduler_drops_periodic_ticks_while_collection_is_busy"
  by (simp add: scheduler_drops_periodic_ticks_while_collection_is_busy_def replay_scheduler
      BUSY_WARNING_INTERVAL_def scheduler_loop.simps)

end
