(* ===== verification/Replay_Diagnostics.thy ===== *)
theory Replay_Diagnostics
  imports Replay_Config Replay_Model Diagnostics
begin

text \<open>The unit tests of \<open>src/diagnostics.rs\<close> on the model.\<close>

section \<open>Fixtures\<close>

definition CANARY_SECRET :: rstr where
  "CANARY_SECRET = lit ''diagnostic-canary-secret-do-not-print''"

definition state_with :: "CollectorError list \<Rightarrow> PowerMetrics \<Rightarrow> rstr TelemetryState" where
  "state_with errors pw =
     TelemetryState_new (ObservationTime (lit ''2026-08-16T12:00:00Z''))
       ((TelemetryReadings_unavailable (lit ''/''))\<lparr>rd_power := pw\<rparr>) errors 1"

definition clear_power :: PowerMetrics where
  "clear_power =
     \<lparr>pw_throttled_raw = Some (lit ''0x0''), pw_undervoltage_now = Some False,
      pw_arm_frequency_capped_now = Some False, pw_throttled_now = Some False,
      pw_soft_temperature_limit_now = Some False, pw_undervoltage_since_boot = Some False,
      pw_arm_frequency_capped_since_boot = Some False, pw_throttled_since_boot = Some False,
      pw_soft_temperature_limit_since_boot = Some False\<rparr>"

definition complete_metadata :: DeviceMetadata where
  "complete_metadata =
     DeviceMetadata_default\<lparr>dv_model := Some (lit ''Example Model''),
       dv_board_revision := Some (lit ''example''), dv_kernel_release := Some (lit ''example''),
       dv_operating_system := Some (lit ''example'')\<rparr>"

lemmas replay_checks =
  DiagnosticCheck_new_def DiagnosticReport_display_def has_failures_def exit_code_def
  CREDENTIALS_CHECK_def IDENTITY_CHECK_def ARCHITECTURE_CHECK_def COLLECTOR_CHECK_def
  METADATA_CHECK_def POWER_CHECK_def MQTT_CHECK_def


section \<open>Reports\<close>

definition report_rendering_and_order_are_stable :: bool where
  "report_rendering_and_order_are_stable \<longleftrightarrow>
     (let report =
        [DiagnosticCheck_new CREDENTIALS_CHECK CheckPass (lit ''ready''),
         DiagnosticCheck_new ARCHITECTURE_CHECK CheckWarning (lit ''review''),
         DiagnosticCheck_new MQTT_CHECK CheckSkipped (lit ''omitted'')]
      in DiagnosticReport_display report =
           line_of ''[PASS] credentials: ready'' @ line_of ''[WARNING] architecture: review'' @
           lit ''[SKIPPED] mqtt: omitted'' \<and>
         map ck_name report = [CREDENTIALS_CHECK, ARCHITECTURE_CHECK, MQTT_CHECK])"

lemma report_rendering_and_order_are_stable: "report_rendering_and_order_are_stable"
  by (simp add: report_rendering_and_order_are_stable_def replay_checks line_of_def str_eval)

definition only_failures_change_the_report_exit_code :: bool where
  "only_failures_change_the_report_exit_code \<longleftrightarrow>
     list_all (\<lambda>status.
        let report = [DiagnosticCheck_new (lit ''example'') status (lit ''ok'')]
        in \<not> has_failures report \<and> exit_code report = SUCCESS)
       [CheckPass, CheckWarning, CheckSkipped] \<and>
     (let report = [DiagnosticCheck_new (lit ''example'') CheckFailure (lit ''blocked'')]
      in has_failures report \<and> exit_code report = DIAGNOSTIC_ERROR)"

lemma only_failures_change_the_report_exit_code: "only_failures_change_the_report_exit_code"
  by (simp add: only_failures_change_the_report_exit_code_def replay_checks)


section \<open>Identity and architecture\<close>

definition process_identity_parses_effective_values_and_groups :: bool where
  "process_identity_parses_effective_values_and_groups \<longleftrightarrow>
     parse_process_identity
       (lit ''Name:'' @ [9] @ line_of ''example'' @
        lit ''Uid:'' @ [9] @ lit ''1000'' @ [9] @ lit ''1001'' @ [9] @ lit ''1002'' @ [9] @ line_of ''1003'' @
        lit ''Gid:'' @ [9] @ lit ''2000'' @ [9] @ lit ''2001'' @ [9] @ lit ''2002'' @ [9] @ line_of ''2003'' @
        lit ''Groups:'' @ [9] @ line_of ''44 100 2001'') =
     Some \<lparr>id_effective_uid = 1001, id_effective_gid = 2001, id_supplementary_groups = [44, 100, 2001]\<rparr>"

lemma process_identity_parses_effective_values_and_groups:
  "process_identity_parses_effective_values_and_groups"
  by (simp add: process_identity_parses_effective_values_and_groups_def parse_process_identity_def
      parse_status_numbers_def nth_opt_def line_of_def str_eval)

definition process_identity_requires_complete_numeric_fields :: bool where
  "process_identity_requires_complete_numeric_fields \<longleftrightarrow>
     list_all (\<lambda>status. parse_process_identity status = None)
       [lit ''Uid:'' @ [9] @ line_of ''1000'' @ lit ''Gid:'' @ [9] @ lit ''1000'' @ [9] @ line_of ''1000'' @
          lit ''Groups:'' @ [9] @ line_of ''44'',
        lit ''Uid:'' @ [9] @ lit ''1000'' @ [9] @ line_of ''invalid'' @
          lit ''Gid:'' @ [9] @ lit ''1000'' @ [9] @ line_of ''1000'' @ lit ''Groups:'' @ [9] @ line_of ''44'',
        lit ''Uid:'' @ [9] @ lit ''1000'' @ [9] @ line_of ''1000'' @ lit ''Groups:'' @ [9] @ line_of ''44'',
        lit ''Uid:'' @ [9] @ lit ''1000'' @ [9] @ line_of ''1000'' @
          lit ''Gid:'' @ [9] @ lit ''1000'' @ [9] @ line_of ''1000'']"

lemma process_identity_requires_complete_numeric_fields:
  "process_identity_requires_complete_numeric_fields"
  by (simp add: process_identity_requires_complete_numeric_fields_def parse_process_identity_def
      parse_status_numbers_def nth_opt_def line_of_def str_eval)

definition only_armv7_architecture_is_reported_as_supported :: bool where
  "only_armv7_architecture_is_reported_as_supported \<longleftrightarrow>
     ck_status (architecture_check (lit ''arm'') True) = CheckPass \<and>
     list_all (\<lambda>architecture.
        let check = architecture_check architecture False
        in ck_status check = CheckWarning \<and> str_contains (ck_summary check) architecture)
       [lit ''aarch64'', lit ''x86'', lit ''x86_64'']"

lemma only_armv7_architecture_is_reported_as_supported:
  "only_armv7_architecture_is_reported_as_supported"
  by (simp add: only_armv7_architecture_is_reported_as_supported_def architecture_check_def
      DiagnosticCheck_new_def str_eval)

definition identity_mapping_rejects_root_and_warns_about_group_zero :: bool where
  "identity_mapping_rejects_root_and_warns_about_group_zero \<longleftrightarrow>
     (let root = identity_check (Some
            \<lparr>id_effective_uid = 0, id_effective_gid = 0, id_supplementary_groups = [0]\<rparr>);
          privileged_group = identity_check (Some
            \<lparr>id_effective_uid = 995, id_effective_gid = 0, id_supplementary_groups = [44]\<rparr>);
          service = identity_check (Some
            \<lparr>id_effective_uid = 995, id_effective_gid = 995, id_supplementary_groups = [995, 44, 100, 44]\<rparr>)
      in ck_status root = CheckFailure \<and> ck_status privileged_group = CheckWarning \<and>
         ck_status service = CheckPass \<and>
         ck_summary service =
           lit ''effective UID 995, effective GID 995, supplementary groups [44, 100, 995]'' \<and>
         ck_status (identity_check None) = CheckFailure)"

lemma identity_mapping_rejects_root_and_warns_about_group_zero:
  "identity_mapping_rejects_root_and_warns_about_group_zero"
  by (simp add: identity_mapping_rejects_root_and_warns_about_group_zero_def identity_check_def
      DiagnosticCheck_new_def str_eval)


section \<open>Snapshots\<close>

lemmas replay_snapshot =
  state_with_def check_snapshot_def collector_check_def metadata_check_def check_power_def
  clear_power_def complete_metadata_def DeviceMetadata_default_def state_eval replay_checks

definition collector_error_metrics_are_sorted_and_blocking :: bool where
  "collector_error_metrics_are_sorted_and_blocking \<longleftrightarrow>
     (let state = state_with
            [CollectorError_new (lit ''memory'') (lit ''unavailable''),
             CollectorError_new (lit ''disk'') (lit ''unavailable''),
             CollectorError_new (lit ''memory'') (lit ''still unavailable'')] clear_power;
          checks = check_snapshot DeviceMetadata_default state
      in map ck_status checks = [CheckFailure, CheckWarning, CheckPass] \<and>
         ck_summary (checks ! 0) =
           lit ''snapshot reported 2 unavailable metric source(s): disk, memory'')"

lemma collector_error_metrics_are_sorted_and_blocking:
  "collector_error_metrics_are_sorted_and_blocking"
  by (simp add: collector_error_metrics_are_sorted_and_blocking_def replay_snapshot str_sort_def str_eval
      flip: numeral_2_eq_2)

definition optional_frequency_is_a_warning_but_mixed_failures_are_blocking :: bool where
  "optional_frequency_is_a_warning_but_mixed_failures_are_blocking \<longleftrightarrow>
     (let frequency_only = state_with
            [CollectorError_new (lit ''cpu.frequency_mhz'') (lit ''frequency unavailable'')] clear_power;
          mixed = state_with
            [CollectorError_new (lit ''cpu.frequency_mhz'') (lit ''frequency unavailable''),
             CollectorError_new (lit ''power'') (lit ''power unavailable'')] PowerMetrics_default
      in ck_status (check_snapshot complete_metadata frequency_only ! 0) = CheckWarning \<and>
         ck_status (check_snapshot complete_metadata mixed ! 0) = CheckFailure)"

lemma optional_frequency_is_a_warning_but_mixed_failures_are_blocking:
  "optional_frequency_is_a_warning_but_mixed_failures_are_blocking"
  by (simp add: optional_frequency_is_a_warning_but_mixed_failures_are_blocking_def replay_snapshot
      str_sort_def str_eval)

definition metadata_and_power_mapping_are_deterministic :: bool where
  "metadata_and_power_mapping_are_deterministic \<longleftrightarrow>
     (let clean = check_snapshot complete_metadata (state_with [] clear_power);
          current = clear_power\<lparr>pw_undervoltage_now := Some True\<rparr>;
          historical = clear_power\<lparr>pw_throttled_since_boot := Some True\<rparr>;
          incomplete = check_snapshot
            (DeviceMetadata_default\<lparr>dv_kernel_release := Some (lit ''example''),
               dv_operating_system := Some (lit ''example''), dv_hostname := Some CANARY_SECRET,
               dv_serial_number := Some CANARY_SECRET\<rparr>) (state_with [] clear_power)
      in map ck_status clean = [CheckPass, CheckPass, CheckPass] \<and>
         ck_status (check_power current) = CheckWarning \<and>
         ck_status (check_power historical) = CheckWarning \<and>
         ck_status (check_power PowerMetrics_default) = CheckSkipped \<and>
         ck_status (incomplete ! 1) = CheckWarning \<and>
         ck_summary (incomplete ! 1) = lit ''metadata unavailable: model, board revision'' \<and>
         \<not> str_contains (ck_summary (incomplete ! 1)) CANARY_SECRET)"

lemma metadata_and_power_mapping_are_deterministic: "metadata_and_power_mapping_are_deterministic"
  by (simp add: metadata_and_power_mapping_are_deterministic_def replay_snapshot CANARY_SECRET_def
      str_eval)


section \<open>The probe\<close>

definition probe_client_ids_are_unique_and_bounded :: "u32 \<Rightarrow> u64 \<Rightarrow> bool" where
  "probe_client_ids_are_unique_and_bounded process_id sequence \<longleftrightarrow>
     (let base = replicate MQTT_PROBE_CLIENT_ID_LIMIT 120;
          (first, sequence) = unique_probe_client_id process_id base sequence;
          (second, sequence) = unique_probe_client_id process_id base sequence
      in case (first, second) of
           (Some first, Some second) \<Rightarrow>
             first \<noteq> second \<and> str_len first \<le> MQTT_PROBE_CLIENT_ID_LIMIT \<and>
             str_len second \<le> MQTT_PROBE_CLIENT_ID_LIMIT \<and> str_contains first (lit ''-check-'')
         | _ \<Rightarrow> False)"

lemma probe_suffix_marked: "str_contains (a @ probe_suffix p n) (lit ''-check-'')"
  unfolding str_contains_iff probe_suffix_def
  by (rule exI [of _ a], rule exI [of _ "show_nat (unat p) @ lit ''-'' @ show_nat (unat n)"]) simp

lemma probe_client_ids_are_unique_and_bounded:
  "probe_client_ids_are_unique_and_bounded process_id sequence"
proof -
  let ?base = "replicate MQTT_PROBE_CLIENT_ID_LIMIT (120 :: rchar)"
  let ?id = "\<lambda>n. take (128 - length (probe_suffix process_id n)) ?base @ probe_suffix process_id n"
  have ids: "unique_probe_client_id process_id ?base n = (Some (?id n), n + 1)" for n
    using unique_probe_client_id_ascii [OF replicate_ascii] .
  have "?id sequence \<noteq> ?id (sequence + 1)"
    using probe_suffix_inj by (metis add_cancel_right_right zero_neq_one)
  moreover have "str_len (?id n) \<le> 128" for n
  proof -
    have "list_all (\<lambda>c. c < 128) (?id n)"
      using probe_suffix_ascii [of process_id n] replicate_ascii
      by (auto simp: list_all_iff dest: in_set_takeD)
    then show ?thesis using probe_suffix_length [of process_id n] by (simp add: str_len_ascii)
  qed
  ultimately show ?thesis
    using probe_suffix_marked
    by (simp add: probe_client_ids_are_unique_and_bounded_def ids) (simp add: MQTT_PROBE_CLIENT_ID_LIMIT_def)
qed

text \<open>\<open>fixture_config\<close>: the document, and the credential file with mode 0600.\<close>

definition fixture_document :: TomlDocument where
  "fixture_document =
     (with_password_file password_path VALID)
       \<lparr>td_mqtt := (td_mqtt (with_password_file password_path VALID))
            \<lparr>tm_host := Some (lit ''127.0.0.1''), tm_port := Some 1883\<rparr>,
        td_collector := Some \<lparr>tc_interval_seconds = None, tc_root_filesystem = Some (lit ''/''),
          tc_vcgencmd_path = Some (lit ''/vcgencmd''), tc_command_timeout_seconds = None\<rparr>\<rparr>"

definition fixture_fs :: "rstr \<Rightarrow> FsLib" where
  "fixture_fs secret = password_fs (str_bytes (secret @ [10])) 0x180"

definition probe_options_use_a_clean_session_without_a_last_will :: "u32 \<Rightarrow> u64 \<Rightarrow> bool" where
  "probe_options_use_a_clean_session_without_a_last_will process_id sequence \<longleftrightarrow>
     ok_and (parse_document fixture_document) (\<lambda>config.
     ok_and (MqttCredentials_load (fixture_fs CANARY_SECRET) (cfg_mqtt config)) (\<lambda>credentials.
       case unique_probe_client_id process_id (mc_client_id (cfg_mqtt config)) sequence of
         (None, _) \<Rightarrow> False
       | (Some client_id, _) \<Rightarrow>
           (let options = probe_options client_id (cfg_mqtt config) credentials
            in opt_clean_session options \<and> opt_last_will options = None \<and> opt_inflight options = 1 \<and>
               opt_request_channel_capacity options = MQTT_REQUEST_CAPACITY \<and>
               opt_max_packet_size options = (MQTT_MAX_PACKET_BYTES, MQTT_MAX_PACKET_BYTES) \<and>
               str_contains (opt_client_id options) (lit ''-check-'') \<and>
               snd (opt_credentials options) = CANARY_SECRET)))"

text \<open>The fixture is the configuration of \<open>VALID\<close> with another path of the firmware command.\<close>

lemma fixture_valid:
  obtains c where "parse_document fixture_document = Inr c"
    "cfg_mqtt c = cfg_mqtt (valid_config password_path)"
proof -
  let ?r = "RawConfig_of (with_password_file password_path VALID)"
  have raw: "RawConfig_of fixture_document =
      ?r\<lparr>raw_collector := (raw_collector ?r)\<lparr>rc_vcgencmd_path := lit ''/vcgencmd''\<rparr>\<rparr>"
    by (simp add: fixture_document_def replay_toml)
  have "RawConfig_validate ?r = Inr (valid_config password_path)"
    using parse_valid [OF password_path_absolute] by (simp add: parse_document)
  then have ok: "raw_ok ?r" "valid_config password_path = config_of ?r" by (simp_all add: validate_iff)
  moreover have "is_absolute (lit ''/vcgencmd'')" by (simp add: is_absolute_def str_eval)
  ultimately have "raw_ok (RawConfig_of fixture_document)"
    unfolding raw by (simp add: raw_ok_def Let_def)
  then have "parse_document fixture_document = Inr (config_of (RawConfig_of fixture_document))"
    by (simp add: parse_document validate_iff)
  moreover have "cfg_mqtt (config_of (RawConfig_of fixture_document)) = cfg_mqtt (valid_config password_path)"
    unfolding raw ok(2) by (simp add: config_of_def)
  ultimately show thesis by (rule that)
qed

lemma fixture_credentials:
  "MqttCredentials_load (fixture_fs CANARY_SECRET) (cfg_mqtt (valid_config password_path)) =
     Inr \<lparr>cr_username = lit ''monitor-example'', cr_password = CANARY_SECRET\<rparr>"
  unfolding fixture_fs_def load_password
  by (simp add: CANARY_SECRET_def strip_final_newline_def str_eval)

lemma probe_options_use_a_clean_session_without_a_last_will:
  "probe_options_use_a_clean_session_without_a_last_will process_id sequence"
proof (rule fixture_valid)
  fix c assume c: "parse_document fixture_document = Inr c" "cfg_mqtt c = cfg_mqtt (valid_config password_path)"
  have "list_all (\<lambda>b. b < 128) (mc_client_id (cfg_mqtt (valid_config password_path)))"
    by (simp add: valid_config_def lit_Cons)
  note id = unique_probe_client_id_ascii [OF this]
  show ?thesis
    unfolding probe_options_use_a_clean_session_without_a_last_will_def c(1) replay_results c(2)
      fixture_credentials id Let_def
    by (simp add: probe_options_def probe_suffix_marked)
qed


section \<open>Secrets\<close>

definition canary_path :: path where
  "canary_path = lit ''/private/'' @ CANARY_SECRET"

text \<open>The derived \<open>Debug\<close> shows the name, the status and the summary of every check.\<close>

definition credential_and_mqtt_failures_never_render_canary_values :: bool where
  "credential_and_mqtt_failures_never_render_canary_values \<longleftrightarrow>
     (let credential_error = CredentialRead canary_path CANARY_SECRET;
          oversized_credential_error = CredentialTooLong canary_path;
          checks =
            map (\<lambda>e. DiagnosticCheck_new CREDENTIALS_CHECK CheckFailure (credential_failure_summary e))
              [credential_error, oversized_credential_error] @
            map mqtt_failure_check
              [ProbeRejected, ProbeUnreachable, ProbeTimedOut, ProbeProtocol, ProbeControlQueue];
          rendered = DiagnosticReport_display checks # concat (map (\<lambda>c. [ck_name c, ck_summary c]) checks)
      in credential_failure_summary oversized_credential_error =
           lit ''credential exceeds the MQTT UTF-8 field limit'' \<and>
         list_all (\<lambda>t. \<not> str_contains t CANARY_SECRET \<and> \<not> str_contains t (lit ''/private/'')) rendered)"

lemma credential_and_mqtt_failures_never_render_canary_values:
  "credential_and_mqtt_failures_never_render_canary_values"
  by (simp add: credential_and_mqtt_failures_never_render_canary_values_def mqtt_failure_check_def
      replay_checks CANARY_SECRET_def) (simp add: str_eval)

definition raw_connection_failures_map_to_sanitized_categories :: bool where
  "raw_connection_failures_map_to_sanitized_categories \<longleftrightarrow>
     classify_connection_error NetworkTimeout = ProbeTimedOut \<and>
     classify_connection_error IoFailure = ProbeUnreachable \<and>
     classify_connection_error (ConnectionRefused NotAuthorized) = ProbeRejected"

lemma raw_connection_failures_map_to_sanitized_categories:
  "raw_connection_failures_map_to_sanitized_categories"
  by (simp add: raw_connection_failures_map_to_sanitized_categories_def)

end
