(* ===== verification/Spec2Isabelle.thy ===== *)
theory Spec2Isabelle
  imports Program Service_Slots System_Sources Replay_Metrics Replay_Model Replay_Config
    Replay_Discovery Replay_Collector Replay_Mqtt Replay_Daemon Replay_Diagnostics
begin

text \<open>
  A verification development for the service \<open>rpi-health-mqtt\<close>: it collects the health of a Raspberry
  Pi from the Linux sources and the firmware command, and publishes it over MQTT for Home Assistant.

  \<^bold>\<open>The parts of the program and how they interact.\<close>  \<open>main.rs\<close> loads the configuration and runs one of
  three commands.  \<open>print-once\<close> builds a collector and prints one state.  \<open>check\<close> loads the
  credentials, inspects the process, runs one collection cycle and probes the broker.  The service
  (\<open>daemon.rs\<close>) runs a worker that owns the collector, a scheduler that asks for collections, and the
  MQTT supervisor; they communicate through watched slots (the newest request number, the newest
  state, the shutdown flag) and a busy flag.

  \<^bold>\<open>Theories and sources\<close> (under \<open>src/src/\<close>).
    \<^item> \<open>Prelude\<close>, \<open>Rust_Str\<close>, \<open>F64\<close>, \<open>Transitions\<close>: what the source uses of the standard library:
      results and options, checked and saturating words, strings as lists of code points with UTF-8,
      integer parsing and printing, ordered maps, binary64 arithmetic with round-to-nearest on
      rationals, durations in nanoseconds; and labelled transition systems (runs, invariants,
      simulation).
    \<^item> \<open>Metrics_Error\<close>, \<open>Metrics_Cpu\<close>, \<open>Metrics_Memory\<close>, \<open>Metrics_Disk\<close>, \<open>Metrics_Metadata\<close>, \<open>Metrics_Power\<close>,
      \<open>Metrics_Temperature\<close>, \<open>Metrics_Uptime\<close>: the parsers of \<open>metrics/*.rs\<close>.
    \<^item> \<open>Telemetry_Model\<close>, \<open>Telemetry_Decode\<close>: \<open>model.rs\<close>, the readings, the health summary, rounding and
      serialization; the derived deserializers.
    \<^item> \<open>Service_Config\<close>: \<open>config.rs\<close>, the raw document, validation, loading, credentials.
    \<^item> \<open>Discovery\<close>: \<open>discovery.rs\<close>, the component table and the discovery document.
    \<^item> \<open>Command_Runner\<close>, \<open>Collector\<close>, \<open>System_Sources\<close>: \<open>collector.rs\<close>, the firmware command with its
      deadline, the collection cycle, and the two composed as the service composes them.
    \<^item> \<open>Mqtt_Protocol\<close>, \<open>Mqtt_Supervisor\<close>, \<open>Mqtt_Contract\<close>: \<open>mqtt.rs\<close>, the bootstrap machine, delays
      and jitter; the event loop, its handlers and the graceful shutdown; what the loop publishes.
    \<^item> \<open>Daemon\<close>, \<open>Service_Slots\<close>: \<open>daemon.rs\<close>, the worker, the scheduler and the life cycle of the
      tasks; the slots through which the supervisor, the worker and the scheduler communicate, with
      the steps of the other tasks in between the supervisor's calls.
    \<^item> \<open>Cli\<close>, \<open>Diagnostics\<close>, \<open>Program\<close>: \<open>cli.rs\<close>, \<open>diagnostics.rs\<close> and \<open>main.rs\<close>.
    \<^item> \<open>Replay\<close>, \<open>Replay_Metrics\<close>, \<open>Replay_Model\<close>, \<open>Replay_Config\<close>, \<open>Replay_Discovery\<close>,
      \<open>Replay_Collector\<close>, \<open>Replay_Mqtt\<close>, \<open>Replay_Daemon\<close>, \<open>Replay_Diagnostics\<close>: the unit tests of the
      source on the model.  A test is a boolean definition with the name of the test function, and a
      lemma says that it holds.

  \<^bold>\<open>How state and operations correspond to the code.\<close>  A struct is a record with prefixed fields, an
  enum a datatype, a method a function that takes the record and returns it updated; \<open>Result\<close> is a sum
  with the error on the left, \<open>Option\<close> is \<open>option\<close>; \<open>uN\<close> is an \<open>N\<close>-bit word where its width matters.
  The outside world is a state \<open>'s\<close> that is passed through every call; the traits, libraries and
  runtime calls are fields of environment records (\<open>Env\<close>, \<open>MqttEnv\<close>, \<open>WorkerEnv\<close>, \<open>SchedulerEnv\<close>,
  \<open>ServiceEnv\<close>, \<open>SignalEnv\<close>, \<open>DiagEnv\<close>, \<open>ChildLib\<close>, \<open>OsLib\<close>, \<open>FsLib\<close>, \<open>TimeLib\<close>), about which nothing is assumed unless a theorem names
  its laws.  A \<open>select!\<close> is a call that yields the branch that completed, so every order of events is
  covered.  A panic is \<^term>\<open>None\<close>.

  \<^bold>\<open>What the lemmas show.\<close>
    \<^item> Parsers: exact acceptance, round trips with the kernel's and the firmware's printed forms,
      consistency and bounds of the accepted values, accuracy of the floating point results.
    \<^item> Model and collector: the health precedence, the typed schema every payload conforms to, a published payload
      is read back as the state it publishes.  A \<open>null\<close> of a payload is accounted for by an error, except
      that the CPU usage is also \<open>null\<close> when no counter moved and the frequency when neither of its files
      exists.  The locale \<open>measurement\<close> states the contract of one measurement and is interpreted on each
      of them.  A firmware command returns and leaves no child, and a cycle on a prompt operating system
      takes no longer than its sleeps and command timeouts; waiting for a child and reading its pipe are
      only assumed to end once the child is gone.
    \<^item> Configuration and discovery: validation is sound and complete for the stated rules, topics are
      concrete and distinct, every template reads an existing field, and the topics and payloads in the
      discovery document are those the supervisor publishes with.
    \<^item> Protocol: the bootstrap machine refines a session contract without packet identifiers
      (a forward simulation), the log of what the supervisor is told and asks of the client is a run of
      it for any events, a graceful shutdown waits for the acknowledgement of \<open>offline\<close>, every
      iteration returns.  The locales \<open>event_loop\<close> and \<open>whole_loop\<close> hold the invariant rule of the loop,
      \<open>watched_slots\<close> the laws of a slot; interpreted on the slots of the service they show that every
      published state was collected for a request of its own connection, and that no collected state
      is forgotten.
    \<^item> Daemon: each request is answered by its own state and the busy flag is never left raised (the
      locale \<open>payload_source\<close>, interpreted on the collector), requests are made only when idle, and the
      service succeeds only after a signal.
    \<^item> Diagnostics and program: what exit code 0 means, fixed texts in the places that handle secrets,
      the probe's verdict, and which error ends with which documented exit code.

  \<^bold>\<open>Loops, bounds and fuel.\<close>  No loop is cut off by fuel: loops that may go on for ever are
  \<open>partial_function\<close>s into \<open>option\<close>, \<open>None\<close> meaning that they do not return.  Where a loop has to
  return, the theorem takes a measure that the runtime's promise provides: the clock of the command
  runner advances while it sleeps, a deadline comes after finitely many polls.  Statements about
  unbounded runs are about the first \<open>n\<close> rounds for every \<open>n\<close> (\<open>iterations\<close>, \<open>worker_rounds\<close>,
  \<open>scheduler_rounds\<close>).

  \<^bold>\<open>Not modelled.\<close>  The MQTT client, TOML and JSON text, the time zone library, command line parsing,
  signal registration, log output and the construction of the asynchronous runtime belong to
  libraries or to the operating system; they appear as parameters or not at all.  The platform
  variants for systems other than Unix are left out, and so is the array form in which \<open>serde\<close> also
  accepts a struct.  Of the unit tests, those of the command line and of the time offsets test the
  libraries, and one measures the runtime's timers; they are not replayed.
\<close>

section \<open>The program as a whole\<close>

lemma loaded_configuration_validated:
  "Config_load fs toml p = Inr config \<Longrightarrow> \<exists>raw. RawConfig_validate raw = Inr config"
  by (auto simp: Config_load_def Config_parse_def result_iff split: if_splits)

lemma validated_client_id_ascii:
  "RawConfig_validate raw = Inr config \<Longrightarrow> list_all (\<lambda>c. c < 128) (mc_client_id (cfg_mqtt config))"
  using alphanumeric_facts(2)
  by (auto simp: validate_iff raw_ok_def config_of_def Let_def identifier_ok_def list_all_iff lit_Cons)

lemma run_diagnostics_returns:
  assumes "probe_laws (ho_diagnostics host) fuel" "Config_load fs toml p = Inr config"
  shows "\<exists>code out w1. run_diagnostics host config skip w = Some (code, out, w1)"
proof -
  obtain raw where "RawConfig_validate raw = Inr config"
    using loaded_configuration_validated [OF assms(2)] by blast
  then have ascii: "list_all (\<lambda>c. c < 128) (mc_client_id (cfg_mqtt config))"
    by (rule validated_client_id_ascii)
  have total: "run_checks (ho_fs host) (ho_sources host) (ho_diagnostics host)
      (ho_platform host) config probe w' \<noteq> None"
    for probe w'
    using run_checks_returns [OF assms(1) ascii] by (metis option.distinct(1))
  have "run_diagnostics host config skip w \<noteq> None"
    using total by (simp add: run_diagnostics_def Let_def split: prod.split bool.split del: not_None_eq)
  then show ?thesis by (metis not_None_eq prod.exhaust)
qed

lemma main_run_returns:
  assumes "probe_laws (ho_diagnostics host) fuel"
  shows "\<exists>code out w1. main_run host cli w = Some (code, out, w1)"
proof (cases "Config_load (ho_fs host) (ho_toml host) (cli_config cli)")
  case (Inr config)
  show ?thesis
    using Inr run_diagnostics_returns [OF assms Inr]
    by (auto simp: main_run_def split: option.split Command.split sum.split prod.split)
qed (simp add: main_run_def)

lemma main_run_codes:
  assumes "main_run host cli w = Some (code, out, w1)"
  shows "code \<noteq> USAGE_ERROR"
proof -
  have "code \<in> {SUCCESS, CONFIG_ERROR, DIAGNOSTIC_ERROR, COLLECTION_ERROR, RUNTIME_ERROR}"
    using assms
    by (auto simp: main_run_def run_diagnostics_def print_once_def exit_code_def Let_def
        split: sum.splits option.splits Command.splits prod.splits bool.splits)
  then show ?thesis
    by (auto simp: SUCCESS_def CONFIG_ERROR_def DIAGNOSTIC_ERROR_def COLLECTION_ERROR_def
        RUNTIME_ERROR_def USAGE_ERROR_def)
qed



end
